theory Spec2Isabelle
  imports Main "HOL-Library.Word"
begin

unbundle bit_operations_syntax

section \<open>IR data consumed by the x64 lowering\<close>

text \<open>
  The lowering in \<^verbatim>\<open>CodeGen/src/IrLoweringX64.cpp\<close> reads IR operands, instructions and
  blocks whose declarations live in \<^verbatim>\<open>Luau/IrData.h\<close>. Only the fields and operand
  kinds that the lowering itself touches are kept here. Enumerators are written
  \<open>Enum_Name\<close> for the C++ \<^verbatim>\<open>Enum::Name\<close>.
\<close>

datatype IrOpKind =
    IrOpKind_None
  | IrOpKind_Undef
  | IrOpKind_Constant
  | IrOpKind_Condition
  | IrOpKind_Inst
  | IrOpKind_Block
  | IrOpKind_VmReg
  | IrOpKind_VmConst
  | IrOpKind_VmUpvalue
  | IrOpKind_VmExit

record IrOp =
  kind :: IrOpKind
  index :: nat

datatype SizeX64 =
    SizeX64_none
  | SizeX64_byte
  | SizeX64_dword
  | SizeX64_qword
  | SizeX64_xmmword

record RegisterX64 =
  reg_size :: SizeX64
  reg_index :: nat

definition noreg :: RegisterX64 where
  "noreg = \<lparr>reg_size = SizeX64_none, reg_index = 16\<rparr>"

text \<open>
  Memory operands are produced by helpers of \<^verbatim>\<open>EmitCommonX64.h\<close>
  (\<^verbatim>\<open>luauRegTag\<close>, \<^verbatim>\<open>luauRegValueInt\<close>, ...) and by the constant pool of the assembler
  (\<^verbatim>\<open>build.f64\<close>, \<^verbatim>\<open>build.i64\<close>, \<^verbatim>\<open>build.f64x2\<close>). Each helper is a fixed address
  expression over its slot number, so a memory operand is kept as the helper's name
  applied to the slot; a pool entry is kept as the 64-bit patterns stored in it.
\<close>

datatype MemX64 =
    luauRegTag nat
  | luauRegValue nat
  | luauRegValueInt nat
  | luauConstantTag nat
  | luauConstantValue nat
  | f64 "64 word"
  | i64 "64 word"
  | f64x2 "64 word" "64 word"

datatype OperandX64 =
    Reg RegisterX64
  | Imm "32 word"
  | Mem MemX64

record Label =
  label_id :: nat

record IrInst =
  op_a :: IrOp
  op_b :: IrOp
  op_c :: IrOp
  op_d :: IrOp
  op_e :: IrOp
  op_f :: IrOp
  lastUse :: nat
  regX64 :: RegisterX64
  spilled :: bool
  needsReload :: bool

record IrBlock =
  useCount :: nat
  start :: nat
  label :: Label

text \<open>
  \<^verbatim>\<open>IrFunction\<close>: the instruction and block vectors are lists addressed by operand index.
  The typed constant accessors (\<^verbatim>\<open>tagOp\<close>, \<^verbatim>\<open>intOp\<close>, \<^verbatim>\<open>doubleOp\<close>), the block
  index query and the predecessor table are member functions declared outside this
  file; they are carried as fields. A double constant is kept as its 64-bit pattern.
\<close>

record IrFunction =
  instructions :: "IrInst list"
  blocks :: "IrBlock list"
  tagOp :: "IrOp \<Rightarrow> 8 word"
  intOp :: "IrOp \<Rightarrow> 32 word"
  doubleOp :: "IrOp \<Rightarrow> 64 word"
  getBlockIndex :: "IrBlock \<Rightarrow> nat"
  cfg :: "nat \<Rightarrow> nat list"
  variadic :: bool

text \<open>Every \<^verbatim>\<open>LUAU_ASSERT\<close> of the modelled code is one error value.\<close>

datatype error =
    Unsupported_operand_kind
  | Unsupported_instruction_form
  | Not_an_instruction_operand
  | Not_a_block_operand
  | Value_has_no_register
  | Constant_tag_not_boolean
  | Registers_not_all_free
  | Spills_remaining
  | Next_block_has_other_predecessor
  | Next_block_is_join_block
  | Not_an_instruction
  | Not_a_constant_operand
  | Not_a_vm_register_operand

section \<open>Register allocator state and the lowering object\<close>

text \<open>
  Modelled from the spec: the register allocation state of \<^verbatim>\<open>IrRegAllocX64\<close> (its
  class is not part of this file): for each machine register the IR value occupying it
  or nothing, the list of outstanding spills, and the high-water mark of spill slots.
\<close>

record IrSpillX64 =
  spill_instIdx :: nat
  spill_stackSlot :: nat

record IrRegAllocX64 =
  gprInstUsers :: "nat option list"
  xmmInstUsers :: "nat option list"
  spills :: "IrSpillX64 list"
  maxUsedSlot :: nat
  currInstIdx :: nat

text \<open>
  Modelled from the spec: the assembler is a black box exposing mnemonic-level emit
  calls; it is kept as the log of those calls. A label is an opaque handle: its id is
  0 until the assembler first sees it, and the assembler then numbers it with its
  running counter. The three-register overload of \<^verbatim>\<open>vmovsd\<close> is \<open>I_vmovsd3\<close>.
\<close>

datatype ConditionX64 =
    ConditionX64_Equal
  | ConditionX64_NotEqual
  | ConditionX64_Zero
  | ConditionX64_NotZero
  | ConditionX64_Less
  | ConditionX64_NotLess
  | ConditionX64_AboveEqual
  | ConditionX64_NotAboveEqual
  | ConditionX64_Count

datatype RoundingModeX64 =
    RoundingModeX64_RoundToNearestEven
  | RoundingModeX64_RoundToNegativeInfinity
  | RoundingModeX64_RoundToPositiveInfinity
  | RoundingModeX64_RoundToZero

datatype asm =
    I_mov OperandX64 OperandX64
  | I_cmp OperandX64 OperandX64
  | I_test OperandX64 OperandX64
  | I_xor OperandX64 OperandX64
  | I_bsr RegisterX64 OperandX64
  | I_bsf RegisterX64 OperandX64
  | I_jcc ConditionX64 nat
  | I_jmp nat
  | I_ud2
  | I_label nat
  | I_call_sequence nat "32 word" "32 word"
  | I_return_sequence nat "32 word" bool
  | I_vmovsd OperandX64 OperandX64
  | I_vmovsd3 RegisterX64 RegisterX64 RegisterX64
  | I_vandpd OperandX64 OperandX64 OperandX64
  | I_vorpd OperandX64 OperandX64 OperandX64
  | I_vaddsd OperandX64 OperandX64 OperandX64
  | I_vsubsd OperandX64 OperandX64 OperandX64
  | I_vmulsd OperandX64 OperandX64 OperandX64
  | I_vdivsd OperandX64 OperandX64 OperandX64
  | I_vroundsd OperandX64 OperandX64 OperandX64 RoundingModeX64

record AssemblyBuilderX64 =
  emitted :: "asm list"
  nextLabel :: nat

record ModuleHelpers =
  exitContinueVmClearNativeFlag :: Label

record ExitHandler =
  self :: Label
  pcpos :: nat

record IrLoweringX64 =
  build :: AssemblyBuilderX64
  helpers :: ModuleHelpers
  func :: IrFunction
  regs :: IrRegAllocX64
  exitHandlerMap :: "nat \<rightharpoonup> nat"
  exitHandlers :: "ExitHandler list"

text \<open>
  Constants declared outside this file (\<^verbatim>\<open>lua.h\<close>, \<^verbatim>\<open>EmitCommonX64.h\<close>,
  \<^verbatim>\<open>IrData.h\<close>) are parameters of the model.
\<close>

record Constants =
  LUA_TNIL :: "8 word"
  LUA_TBOOLEAN :: "8 word"
  kSpillSlots :: nat
  kVmExitEntryGuardPc :: nat

section \<open>Operand resolver\<close>

text \<open>
  Modelled from the spec: an operand is a tagged reference, its kind and a slot index or
  position. \<^verbatim>\<open>vmRegOp\<close>, \<^verbatim>\<open>vmConstOp\<close> and \<^verbatim>\<open>vmExitOp\<close> (\<^verbatim>\<open>IrUtils.h\<close>, not part of this
  file) read the index of an operand of their kind.
\<close>

definition vmRegOp :: "IrOp \<Rightarrow> nat" where
  "vmRegOp op = index op"

definition vmConstOp :: "IrOp \<Rightarrow> nat" where
  "vmConstOp op = index op"

definition vmExitOp :: "IrOp \<Rightarrow> nat" where
  "vmExitOp op = index op"

text \<open>
  Modelled from the spec: \<^verbatim>\<open>function.instOp(op)\<close> (\<^verbatim>\<open>IrData.h\<close>, not part of this file)
  is the IR value an operand refers to. Reading outside the vector or through an operand
  of another kind is an error of the model.
\<close>

definition instOp :: "IrFunction \<Rightarrow> IrOp \<Rightarrow> error + IrInst" where
  "instOp fn op =
     (if kind op = IrOpKind_Inst \<and> index op < length (instructions fn)
      then Inr (instructions fn ! index op)
      else Inl Not_an_instruction_operand)"

text \<open>
  \<^verbatim>\<open>regOp\<close>: a spilled value is restored first, by \<^verbatim>\<open>regs.restore\<close> of the register
  allocator, which is the parameter \<open>restore\<close> (it is given the instruction index);
  then the value must have a register.
\<close>

definition regOp ::
  "(nat \<Rightarrow> IrLoweringX64 \<Rightarrow> IrLoweringX64) \<Rightarrow> IrOp \<Rightarrow> IrLoweringX64
     \<Rightarrow> error + (RegisterX64 \<times> IrLoweringX64)" where
  "regOp restore op st =
     (case instOp (func st) op of
        Inl e \<Rightarrow> Inl e
      | Inr inst \<Rightarrow>
          (let st' = (if spilled inst \<or> needsReload inst then restore (index op) st else st)
           in case instOp (func st') op of
                Inl e \<Rightarrow> Inl e
              | Inr inst' \<Rightarrow>
                  if regX64 inst' = noreg then Inl Value_has_no_register
                  else Inr (regX64 inst', st')))"

definition memRegDoubleOp ::
  "(nat \<Rightarrow> IrLoweringX64 \<Rightarrow> IrLoweringX64) \<Rightarrow> IrOp \<Rightarrow> IrLoweringX64
     \<Rightarrow> error + (OperandX64 \<times> IrLoweringX64)" where
  "memRegDoubleOp restore op st =
     (case kind op of
        IrOpKind_Inst \<Rightarrow>
          (case regOp restore op st of Inl e \<Rightarrow> Inl e | Inr (r, st') \<Rightarrow> Inr (Reg r, st'))
      | IrOpKind_Constant \<Rightarrow> Inr (Mem (f64 (doubleOp (func st) op)), st)
      | IrOpKind_VmReg \<Rightarrow> Inr (Mem (luauRegValue (vmRegOp op)), st)
      | IrOpKind_VmConst \<Rightarrow> Inr (Mem (luauConstantValue (vmConstOp op)), st)
      | _ \<Rightarrow> Inl Unsupported_operand_kind)"

definition memRegUintOp ::
  "(nat \<Rightarrow> IrLoweringX64 \<Rightarrow> IrLoweringX64) \<Rightarrow> IrOp \<Rightarrow> IrLoweringX64
     \<Rightarrow> error + (OperandX64 \<times> IrLoweringX64)" where
  "memRegUintOp restore op st =
     (case kind op of
        IrOpKind_Inst \<Rightarrow>
          (case regOp restore op st of Inl e \<Rightarrow> Inl e | Inr (r, st') \<Rightarrow> Inr (Reg r, st'))
      | IrOpKind_Constant \<Rightarrow> Inr (Imm (intOp (func st) op), st)
      | IrOpKind_VmReg \<Rightarrow> Inr (Mem (luauRegValueInt (vmRegOp op)), st)
      | _ \<Rightarrow> Inl Unsupported_operand_kind)"

definition memRegTagOp ::
  "(nat \<Rightarrow> IrLoweringX64 \<Rightarrow> IrLoweringX64) \<Rightarrow> IrOp \<Rightarrow> IrLoweringX64
     \<Rightarrow> error + (OperandX64 \<times> IrLoweringX64)" where
  "memRegTagOp restore op st =
     (case kind op of
        IrOpKind_Inst \<Rightarrow>
          (case regOp restore op st of Inl e \<Rightarrow> Inl e | Inr (r, st') \<Rightarrow> Inr (Reg r, st'))
      | IrOpKind_VmReg \<Rightarrow> Inr (Mem (luauRegTag (vmRegOp op)), st)
      | IrOpKind_VmConst \<Rightarrow> Inr (Mem (luauConstantTag (vmConstOp op)), st)
      | _ \<Rightarrow> Inl Unsupported_operand_kind)"

section \<open>Assembler calls and labels\<close>

definition emit :: "asm \<Rightarrow> AssemblyBuilderX64 \<Rightarrow> AssemblyBuilderX64" where
  "emit i b = b\<lparr>emitted := emitted b @ [i]\<rparr>"

text \<open>A label that has no id yet receives the next one when the assembler first sees it.\<close>

definition placeLabel :: "Label \<Rightarrow> AssemblyBuilderX64 \<Rightarrow> Label \<times> AssemblyBuilderX64" where
  "placeLabel l b =
     (if label_id l = 0
      then (\<lparr>label_id = nextLabel b\<rparr>, b\<lparr>nextLabel := nextLabel b + 1\<rparr>)
      else (l, b))"

definition jcc :: "ConditionX64 \<Rightarrow> Label \<Rightarrow> AssemblyBuilderX64 \<Rightarrow> Label \<times> AssemblyBuilderX64" where
  "jcc cond l b = (let (l', b') = placeLabel l b in (l', emit (I_jcc cond (label_id l')) b'))"

definition jmp :: "Label \<Rightarrow> AssemblyBuilderX64 \<Rightarrow> Label \<times> AssemblyBuilderX64" where
  "jmp l b = (let (l', b') = placeLabel l b in (l', emit (I_jmp (label_id l')) b'))"

definition setLabel :: "Label \<Rightarrow> AssemblyBuilderX64 \<Rightarrow> Label \<times> AssemblyBuilderX64" where
  "setLabel l b = (let (l', b') = placeLabel l b in (l', emit (I_label (label_id l')) b'))"

text \<open>The same calls on the assembler owned by the lowering object.\<close>

definition emitS :: "asm \<Rightarrow> IrLoweringX64 \<Rightarrow> IrLoweringX64" where
  "emitS i st = st\<lparr>build := emit i (build st)\<rparr>"

definition onBuild ::
  "(Label \<Rightarrow> AssemblyBuilderX64 \<Rightarrow> Label \<times> AssemblyBuilderX64) \<Rightarrow> Label \<Rightarrow> IrLoweringX64
     \<Rightarrow> Label \<times> IrLoweringX64" where
  "onBuild f l st = (let (l', b') = f l (build st) in (l', st\<lparr>build := b'\<rparr>))"

text \<open>
  \<^verbatim>\<open>getTargetLabel\<close> returns a \<^verbatim>\<open>Label&\<close>: the caller's local \<^verbatim>\<open>fresh\<close>, the shared
  helper label, the \<^verbatim>\<open>self\<close> label of an exit handler, or the label of a block. The
  assembler numbers a label through that reference, so the reference is explicit here.
\<close>

datatype LabelRef =
    Ref_fresh
  | Ref_exitContinueVmClearNativeFlag
  | Ref_exitHandler nat
  | Ref_block nat

definition deref :: "LabelRef \<Rightarrow> Label \<Rightarrow> IrLoweringX64 \<Rightarrow> Label" where
  "deref r fresh st =
     (case r of
        Ref_fresh \<Rightarrow> fresh
      | Ref_exitContinueVmClearNativeFlag \<Rightarrow> exitContinueVmClearNativeFlag (helpers st)
      | Ref_exitHandler i \<Rightarrow> self (exitHandlers st ! i)
      | Ref_block i \<Rightarrow> label (blocks (func st) ! i))"

definition assign :: "LabelRef \<Rightarrow> Label \<Rightarrow> Label \<Rightarrow> IrLoweringX64 \<Rightarrow> Label \<times> IrLoweringX64" where
  "assign r l fresh st =
     (case r of
        Ref_fresh \<Rightarrow> (l, st)
      | Ref_exitContinueVmClearNativeFlag \<Rightarrow>
          (fresh, st\<lparr>helpers := (helpers st)\<lparr>exitContinueVmClearNativeFlag := l\<rparr>\<rparr>)
      | Ref_exitHandler i \<Rightarrow>
          (fresh, st\<lparr>exitHandlers := (exitHandlers st)[i := (exitHandlers st ! i)\<lparr>self := l\<rparr>]\<rparr>)
      | Ref_block i \<Rightarrow>
          (fresh, st\<lparr>func := (func st)\<lparr>blocks := (blocks (func st))[i := (blocks (func st) ! i)\<lparr>label := l\<rparr>]\<rparr>\<rparr>))"

definition onRef ::
  "(Label \<Rightarrow> AssemblyBuilderX64 \<Rightarrow> Label \<times> AssemblyBuilderX64) \<Rightarrow> LabelRef \<Rightarrow> Label
     \<Rightarrow> IrLoweringX64 \<Rightarrow> Label \<times> IrLoweringX64" where
  "onRef f r fresh st =
     (let (l', b') = f (deref r fresh st) (build st)
      in assign r l' fresh (st\<lparr>build := b'\<rparr>))"

section \<open>Control-flow linker\<close>

definition bind_err :: "error + 'a \<Rightarrow> ('a \<Rightarrow> error + 'b) \<Rightarrow> error + 'b" where
  "bind_err m f = (case m of Inl e \<Rightarrow> Inl e | Inr x \<Rightarrow> f x)"

text \<open>
  Modelled from the spec: \<^verbatim>\<open>function.blockOp(op)\<close> (\<^verbatim>\<open>IrData.h\<close>, not part of this file)
  is the IR block an operand refers to, a reference into the block vector; the reference
  is the block's index. \<^verbatim>\<open>labelOp(op)\<close>, from the source, is the label of that block.
\<close>

definition blockOp :: "IrFunction \<Rightarrow> IrOp \<Rightarrow> error + nat" where
  "blockOp fn op =
     (if kind op = IrOpKind_Block \<and> index op < length (blocks fn)
      then Inr (index op)
      else Inl Not_a_block_operand)"

definition labelOp :: "IrFunction \<Rightarrow> IrOp \<Rightarrow> error + LabelRef" where
  "labelOp fn op = bind_err (blockOp fn op) (\<lambda>i. Inr (Ref_block i))"

definition isFallthroughBlock :: "IrBlock \<Rightarrow> IrBlock \<Rightarrow> bool" where
  "isFallthroughBlock target next = (start target = start next)"

definition getTargetLabel :: "Constants \<Rightarrow> IrOp \<Rightarrow> IrLoweringX64 \<Rightarrow> error + LabelRef" where
  "getTargetLabel K op st =
     (if kind op = IrOpKind_Undef then Inr Ref_fresh
      else if kind op = IrOpKind_VmExit then
        (if vmExitOp op = kVmExitEntryGuardPc K then Inr Ref_exitContinueVmClearNativeFlag
         else case exitHandlerMap st (vmExitOp op) of
                Some i \<Rightarrow> Inr (Ref_exitHandler i)
              | None \<Rightarrow> Inr Ref_fresh)
      else labelOp (func st) op)"

definition finalizeTargetLabel :: "IrOp \<Rightarrow> Label \<Rightarrow> IrLoweringX64 \<Rightarrow> IrLoweringX64" where
  "finalizeTargetLabel op fresh st =
     (if kind op = IrOpKind_VmExit \<and> label_id fresh \<noteq> 0
         \<and> label_id fresh \<noteq> label_id (exitContinueVmClearNativeFlag (helpers st))
      then st\<lparr>exitHandlerMap := (exitHandlerMap st)(vmExitOp op \<mapsto> length (exitHandlers st)),
              exitHandlers := exitHandlers st @ [\<lparr>self = fresh, pcpos = vmExitOp op\<rparr>]\<rparr>
      else st)"


text \<open>
  Modelled from the spec: \<^verbatim>\<open>getReverseCondition\<close> of the assembler's condition header
  gives the inverse condition.
\<close>

fun getReverseCondition :: "ConditionX64 \<Rightarrow> ConditionX64" where
  "getReverseCondition ConditionX64_Equal = ConditionX64_NotEqual"
| "getReverseCondition ConditionX64_NotEqual = ConditionX64_Equal"
| "getReverseCondition ConditionX64_Zero = ConditionX64_NotZero"
| "getReverseCondition ConditionX64_NotZero = ConditionX64_Zero"
| "getReverseCondition ConditionX64_Less = ConditionX64_NotLess"
| "getReverseCondition ConditionX64_NotLess = ConditionX64_Less"
| "getReverseCondition ConditionX64_AboveEqual = ConditionX64_NotAboveEqual"
| "getReverseCondition ConditionX64_NotAboveEqual = ConditionX64_AboveEqual"
| "getReverseCondition ConditionX64_Count = ConditionX64_Count"

definition jumpOrAbortOnUndef ::
  "Constants \<Rightarrow> ConditionX64 \<Rightarrow> IrOp \<Rightarrow> IrBlock \<Rightarrow> IrLoweringX64 \<Rightarrow> error + IrLoweringX64" where
  "jumpOrAbortOnUndef K cond target next st =
     (let fresh = \<lparr>label_id = 0\<rparr>
      in bind_err (getTargetLabel K target st) (\<lambda>r.
           if kind target = IrOpKind_Undef then
             (if cond = ConditionX64_Count then
                Inr (finalizeTargetLabel target fresh (emitS I_ud2 st))
              else
                (let (fresh, st) = onRef (jcc (getReverseCondition cond)) r fresh st;
                     st = emitS I_ud2 st;
                     (fresh, st) = onRef setLabel r fresh st
                 in Inr (finalizeTargetLabel target fresh st)))
           else if cond = ConditionX64_Count then
             (if kind target = IrOpKind_VmExit then
                (let (fresh, st) = onRef jmp r fresh st
                 in Inr (finalizeTargetLabel target fresh st))
              else
                bind_err (blockOp (func st) target) (\<lambda>t.
                  if \<not> isFallthroughBlock (blocks (func st) ! t) next then
                    (let (fresh, st) = onRef jmp r fresh st
                     in Inr (finalizeTargetLabel target fresh st))
                  else Inr (finalizeTargetLabel target fresh st)))
           else
             (let (fresh, st) = onRef (jcc cond) r fresh st
              in Inr (finalizeTargetLabel target fresh st))))"

section \<open>Register allocator queries used by the lowering\<close>

text \<open>
  Modelled from the spec: \<^verbatim>\<open>regs.assertAllFree()\<close> and \<^verbatim>\<open>regs.assertNoSpills()\<close> of
  \<^verbatim>\<open>IrRegAllocX64\<close> (not part of this file) assert that no machine register is occupied
  and that no spilled value is outstanding.
\<close>

definition assertAllFree :: "IrRegAllocX64 \<Rightarrow> error + unit" where
  "assertAllFree r =
     (if list_all (\<lambda>u. u = None) (gprInstUsers r) \<and> list_all (\<lambda>u. u = None) (xmmInstUsers r)
      then Inr () else Inl Registers_not_all_free)"

definition assertNoSpills :: "IrRegAllocX64 \<Rightarrow> error + unit" where
  "assertNoSpills r = (if spills r = [] then Inr () else Inl Spills_remaining)"

text \<open>
  Modelled from the spec: spilling a value during the pass (\<^verbatim>\<open>IrRegAllocX64\<close>, not part
  of this file) stores it in a slot of the spill area, records the outstanding spill and
  raises the high-water mark of used slots; running past the budget is not raised
  mid-pass.
\<close>

definition recordSpill :: "IrSpillX64 \<Rightarrow> IrRegAllocX64 \<Rightarrow> IrRegAllocX64" where
  "recordSpill sp r =
     r\<lparr>spills := spills r @ [sp],
       maxUsedSlot := (if spill_stackSlot sp + 1 > maxUsedSlot r then spill_stackSlot sp + 1
                       else maxUsedSlot r)\<rparr>"

definition spillDuringPass :: "IrSpillX64 list \<Rightarrow> IrLoweringX64 \<Rightarrow> IrLoweringX64" where
  "spillDuringPass sps st = st\<lparr>regs := fold recordSpill sps (regs st)\<rparr>"

definition hasError :: "Constants \<Rightarrow> IrLoweringX64 \<Rightarrow> bool" where
  "hasError K st = (if maxUsedSlot (regs st) > kSpillSlots K then True else False)"

text \<open>Modelled from the spec: the control-flow-graph predecessor query of \<^verbatim>\<open>IrAnalysis\<close>.\<close>

definition predecessors :: "(nat \<Rightarrow> nat list) \<Rightarrow> nat \<Rightarrow> nat list" where
  "predecessors g blockIdx = g blockIdx"

definition finishBlock :: "IrLoweringX64 \<Rightarrow> IrBlock \<Rightarrow> IrBlock \<Rightarrow> error + unit" where
  "finishBlock st cur next =
     (if spills (regs st) \<noteq> [] then
        (if \<not> list_all (\<lambda>predIdx. predIdx = getBlockIndex (func st) cur)
                (predecessors (cfg (func st)) (getBlockIndex (func st) next))
         then Inl Next_block_has_other_predecessor
         else if useCount next \<noteq> 1 then Inl Next_block_is_join_block
         else Inr ())
      else Inr ())"

text \<open>
  The successors of a block among the first \<open>n\<close> blocks, read off the predecessor query:
  the blocks that have it as a predecessor.
\<close>

definition successors :: "(nat \<Rightarrow> nat list) \<Rightarrow> nat \<Rightarrow> nat \<Rightarrow> nat list" where
  "successors g n blockIdx = filter (\<lambda>j. blockIdx \<in> set (predecessors g j)) [0..<n]"

section \<open>Instruction lowering dispatcher: the modelled cases\<close>

text \<open>
  Each definition is the body of one \<^verbatim>\<open>case\<close> of \<^verbatim>\<open>lowerInst\<close>. The instruction is given
  by its index \<open>idx\<close> in the instruction vector (the C++ reference \<^verbatim>\<open>inst\<close>). Registers
  are handed out by \<^verbatim>\<open>regs.allocRegOrReuse\<close> of the register allocator, which is not part
  of this file: \<open>dst\<close> is the register it returns and \<open>st\<close> the state it leaves.
\<close>

definition set_regX64 :: "nat \<Rightarrow> RegisterX64 \<Rightarrow> IrLoweringX64 \<Rightarrow> IrLoweringX64" where
  "set_regX64 idx r st =
     st\<lparr>func := (func st)\<lparr>instructions :=
          (instructions (func st))[idx := (instructions (func st) ! idx)\<lparr>regX64 := r\<rparr>]\<rparr>\<rparr>"

definition inst_regX64 :: "nat \<Rightarrow> IrLoweringX64 \<Rightarrow> RegisterX64" where
  "inst_regX64 idx st = regX64 (instructions (func st) ! idx)"

definition lowerInst_BITCOUNTLZ_UINT ::
  "(nat \<Rightarrow> IrLoweringX64 \<Rightarrow> IrLoweringX64) \<Rightarrow> RegisterX64 \<Rightarrow> nat \<Rightarrow> IrLoweringX64
     \<Rightarrow> error + IrLoweringX64" where
  "lowerInst_BITCOUNTLZ_UINT restore dst idx st =
     (let st = set_regX64 idx dst st;
          a = op_a (instructions (func st) ! idx);
          zero = \<lparr>label_id = 0\<rparr>;
          exit = \<lparr>label_id = 0\<rparr>
      in bind_err (regOp restore a st) (\<lambda>(r1, st).
         bind_err (regOp restore a st) (\<lambda>(r2, st).
           let st = emitS (I_test (Reg r1) (Reg r2)) st;
               (zero, st) = onBuild (jcc ConditionX64_Equal) zero st
           in bind_err (regOp restore a st) (\<lambda>(r3, st).
                let st = emitS (I_bsr (inst_regX64 idx st) (Reg r3)) st;
                    st = emitS (I_xor (Reg (inst_regX64 idx st)) (Imm 0x1f)) st;
                    (exit, st) = onBuild jmp exit st;
                    (zero, st) = onBuild setLabel zero st;
                    st = emitS (I_mov (Reg (inst_regX64 idx st)) (Imm 32)) st;
                    (exit, st) = onBuild setLabel exit st
                in Inr st))))"

definition lowerInst_BITCOUNTRZ_UINT ::
  "(nat \<Rightarrow> IrLoweringX64 \<Rightarrow> IrLoweringX64) \<Rightarrow> RegisterX64 \<Rightarrow> nat \<Rightarrow> IrLoweringX64
     \<Rightarrow> error + IrLoweringX64" where
  "lowerInst_BITCOUNTRZ_UINT restore dst idx st =
     (let st = set_regX64 idx dst st;
          a = op_a (instructions (func st) ! idx);
          zero = \<lparr>label_id = 0\<rparr>;
          exit = \<lparr>label_id = 0\<rparr>
      in bind_err (regOp restore a st) (\<lambda>(r1, st).
         bind_err (regOp restore a st) (\<lambda>(r2, st).
           let st = emitS (I_test (Reg r1) (Reg r2)) st;
               (zero, st) = onBuild (jcc ConditionX64_Equal) zero st
           in bind_err (regOp restore a st) (\<lambda>(r3, st).
                let st = emitS (I_bsf (inst_regX64 idx st) (Reg r3)) st;
                    (exit, st) = onBuild jmp exit st;
                    (zero, st) = onBuild setLabel zero st;
                    st = emitS (I_mov (Reg (inst_regX64 idx st)) (Imm 32)) st;
                    (exit, st) = onBuild setLabel exit st
                in Inr st))))"

definition lowerInst_NOT_ANY ::
  "Constants \<Rightarrow> (nat \<Rightarrow> IrLoweringX64 \<Rightarrow> IrLoweringX64) \<Rightarrow> RegisterX64 \<Rightarrow> nat \<Rightarrow> IrLoweringX64
     \<Rightarrow> error + IrLoweringX64" where
  "lowerInst_NOT_ANY K restore dst idx st =
     (let st = set_regX64 idx dst st;
          a = op_a (instructions (func st) ! idx);
          b = op_b (instructions (func st) ! idx);
          saveone = \<lparr>label_id = 0\<rparr>;
          savezero = \<lparr>label_id = 0\<rparr>;
          exit = \<lparr>label_id = 0\<rparr>
      in bind_err
           (if kind a = IrOpKind_Constant then
              (if tagOp (func st) a = LUA_TBOOLEAN K then Inr (saveone, savezero, st)
               else Inl Constant_tag_not_boolean)
            else
              bind_err (regOp restore a st) (\<lambda>(ra, st).
                let st = emitS (I_cmp (Reg ra) (Imm (ucast (LUA_TNIL K)))) st;
                    (saveone, st) = onBuild (jcc ConditionX64_Equal) saveone st
                in bind_err (regOp restore a st) (\<lambda>(ra, st).
                     let st = emitS (I_cmp (Reg ra) (Imm (ucast (LUA_TBOOLEAN K)))) st;
                         (savezero, st) = onBuild (jcc ConditionX64_NotEqual) savezero st
                     in Inr (saveone, savezero, st))))
           (\<lambda>(saveone, savezero, st).
              bind_err
                (if kind b = IrOpKind_Constant then
                   (if intOp (func st) b = 0 then Inr (onBuild jmp saveone st)
                    else Inr (saveone, st))
                 else
                   bind_err (regOp restore b st) (\<lambda>(rb, st).
                     let st = emitS (I_cmp (Reg rb) (Imm 0)) st
                     in Inr (onBuild (jcc ConditionX64_Equal) saveone st)))
                (\<lambda>(saveone, st).
                   let (savezero, st) = onBuild setLabel savezero st;
                       st = emitS (I_mov (Reg (inst_regX64 idx st)) (Imm 0)) st;
                       (exit, st) = onBuild jmp exit st;
                       (saveone, st) = onBuild setLabel saveone st;
                       st = emitS (I_mov (Reg (inst_regX64 idx st)) (Imm 1)) st;
                       (exit, st) = onBuild setLabel exit st
                   in Inr st)))"

definition lowerInst_CHECK_TRUTHY ::
  "Constants \<Rightarrow> (nat \<Rightarrow> IrLoweringX64 \<Rightarrow> IrLoweringX64) \<Rightarrow> nat \<Rightarrow> IrBlock \<Rightarrow> IrLoweringX64
     \<Rightarrow> error + IrLoweringX64" where
  "lowerInst_CHECK_TRUTHY K restore idx next st =
     (let a = op_a (instructions (func st) ! idx);
          b = op_b (instructions (func st) ! idx);
          c = op_c (instructions (func st) ! idx);
          skip = \<lparr>label_id = 0\<rparr>
      in if \<not> (kind a \<noteq> IrOpKind_Constant \<or> tagOp (func st) a = LUA_TBOOLEAN K)
         then Inl Constant_tag_not_boolean
         else
           bind_err
             (if kind a \<noteq> IrOpKind_Constant then
                bind_err (memRegTagOp restore a st) (\<lambda>(ta, st).
                  let st = emitS (I_cmp ta (Imm (ucast (LUA_TNIL K)))) st
                  in bind_err (jumpOrAbortOnUndef K ConditionX64_Equal c next st) (\<lambda>st.
                     bind_err (memRegTagOp restore a st) (\<lambda>(ta, st).
                       let st = emitS (I_cmp ta (Imm (ucast (LUA_TBOOLEAN K)))) st
                       in Inr (onBuild (jcc ConditionX64_NotEqual) skip st))))
              else Inr (skip, st))
             (\<lambda>(skip, st).
                bind_err (memRegUintOp restore b st) (\<lambda>(vb, st).
                  let st = emitS (I_cmp vb (Imm 0)) st
                  in bind_err (jumpOrAbortOnUndef K ConditionX64_Equal c next st) (\<lambda>st.
                       if kind a \<noteq> IrOpKind_Constant
                       then Inr (snd (onBuild setLabel skip st))
                       else Inr st))))"


text \<open>
  Modelled from the spec: \<^verbatim>\<open>intOp(op)\<close> of the lowering forwards to \<^verbatim>\<open>function.intOp(op)\<close>
  (\<^verbatim>\<open>IrData.h\<close>, not part of this file), which asserts that the operand is a constant
  before it reads the constant's value. This is the accessor as the cases below call it,
  on an operand whose kind they have not tested; that the constant is an integer
  constant is left to the field \<open>intOp\<close>.
\<close>

definition intOp_asserted :: "IrFunction \<Rightarrow> IrOp \<Rightarrow> error + 32 word" where
  "intOp_asserted fn op =
     (if kind op = IrOpKind_Constant then Inr (intOp fn op) else Inl Not_a_constant_operand)"

text \<open>
  Modelled from the spec: \<^verbatim>\<open>vmRegOp(op)\<close> (\<^verbatim>\<open>IrUtils.h\<close>, not part of this file) asserts
  that the operand is a VM register before it reads the register number. This is the
  accessor as the cases below call it, on an operand whose kind they have not tested.
\<close>

definition vmRegOp_asserted :: "IrOp \<Rightarrow> error + nat" where
  "vmRegOp_asserted op =
     (if kind op = IrOpKind_VmReg then Inr (vmRegOp op) else Inl Not_a_vm_register_operand)"

text \<open>
  The reference \<^verbatim>\<open>inst\<close> designates an instruction of the function: an index outside the
  instruction vector is an error of the model.
\<close>

definition instRef :: "IrLoweringX64 \<Rightarrow> nat \<Rightarrow> error + IrInst" where
  "instRef st idx =
     (if idx < length (instructions (func st)) then Inr (instructions (func st) ! idx)
      else Inl Not_an_instruction)"


text \<open>
  \<^verbatim>\<open>emitInstCall\<close> and \<^verbatim>\<open>emitInstReturn\<close> are emitters of \<^verbatim>\<open>EmitInstructionX64\<close>; what
  they append is kept as one opaque entry of the assembler log.
\<close>

definition lowerInst_CALL :: "nat \<Rightarrow> IrLoweringX64 \<Rightarrow> error + IrLoweringX64" where
  "lowerInst_CALL idx st =
     bind_err (instRef st idx) (\<lambda>inst.
     bind_err (assertAllFree (regs st)) (\<lambda>_.
     bind_err (assertNoSpills (regs st)) (\<lambda>_.
     bind_err (vmRegOp_asserted (op_a inst)) (\<lambda>ra.
     bind_err (intOp_asserted (func st) (op_b inst)) (\<lambda>nparams.
     bind_err (intOp_asserted (func st) (op_c inst)) (\<lambda>nresults.
       Inr (emitS (I_call_sequence ra nparams nresults) st)))))))"

definition lowerInst_RETURN :: "nat \<Rightarrow> IrLoweringX64 \<Rightarrow> error + IrLoweringX64" where
  "lowerInst_RETURN idx st =
     bind_err (instRef st idx) (\<lambda>inst.
     bind_err (assertAllFree (regs st)) (\<lambda>_.
     bind_err (assertNoSpills (regs st)) (\<lambda>_.
     bind_err (vmRegOp_asserted (op_a inst)) (\<lambda>ra.
     bind_err (intOp_asserted (func st) (op_b inst)) (\<lambda>n.
       Inr (emitS (I_return_sequence ra n (variadic (func st))) st))))))"


definition lowerInst_ROUND_NUM ::
  "(nat \<Rightarrow> IrLoweringX64 \<Rightarrow> IrLoweringX64) \<Rightarrow> RegisterX64 \<Rightarrow> RegisterX64 \<Rightarrow> RegisterX64
     \<Rightarrow> nat \<Rightarrow> IrLoweringX64 \<Rightarrow> error + IrLoweringX64" where
  "lowerInst_ROUND_NUM restore dst tmp1 tmp2 idx st =
     bind_err (instRef st idx) (\<lambda>_.
       let st = set_regX64 idx dst st;
           a = op_a (instructions (func st) ! idx)
       in bind_err
            (if kind a \<noteq> IrOpKind_Inst then
               bind_err (memRegDoubleOp restore a st) (\<lambda>(ma, st).
                 Inr (emitS (I_vmovsd (Reg (inst_regX64 idx st)) ma) st))
             else
               bind_err (regOp restore a st) (\<lambda>(ra, st).
                 if ra \<noteq> inst_regX64 idx st then
                   bind_err (regOp restore a st) (\<lambda>(ra, st).
                     Inr (emitS (I_vmovsd3 (inst_regX64 idx st) (inst_regX64 idx st) ra) st))
                 else Inr st))
            (\<lambda>st.
               let st = emitS (I_vandpd (Reg tmp1) (Reg (inst_regX64 idx st))
                                 (Mem (f64x2 0x8000000000000000 0x8000000000000000))) st;
                   st = emitS (I_vmovsd (Reg tmp2) (Mem (i64 0x3fdfffffffffffff))) st;
                   st = emitS (I_vorpd (Reg tmp1) (Reg tmp1) (Reg tmp2)) st;
                   st = emitS (I_vaddsd (Reg (inst_regX64 idx st)) (Reg (inst_regX64 idx st))
                                 (Reg tmp1)) st;
                   st = emitS (I_vroundsd (Reg (inst_regX64 idx st)) (Reg (inst_regX64 idx st))
                                 (Reg (inst_regX64 idx st)) RoundingModeX64_RoundToZero) st
               in Inr st))"

section \<open>Resolving a series of control-flow edges\<close>

text \<open>
  The edges of one function are resolved one after the other by \<open>jumpOrAbortOnUndef\<close>.
  For each edge the target of the branch instruction it emitted is recorded (nothing
  when the edge emitted no branch as its last instruction).
\<close>

fun branch_target :: "asm \<Rightarrow> nat option" where
  "branch_target (I_jcc c l) = Some l"
| "branch_target (I_jmp l) = Some l"
| "branch_target _ = None"

definition newCode :: "IrLoweringX64 \<Rightarrow> IrLoweringX64 \<Rightarrow> asm list" where
  "newCode st st' = drop (length (emitted (build st))) (emitted (build st'))"

definition lastBranch :: "IrLoweringX64 \<Rightarrow> IrLoweringX64 \<Rightarrow> nat option" where
  "lastBranch st st' = (case rev (newCode st st') of [] \<Rightarrow> None | i # _ \<Rightarrow> branch_target i)"

fun resolveEdges ::
  "Constants \<Rightarrow> IrBlock \<Rightarrow> (ConditionX64 \<times> IrOp) list \<Rightarrow> IrLoweringX64
     \<Rightarrow> error + (nat option list \<times> IrLoweringX64)" where
  "resolveEdges K next [] st = Inr ([], st)"
| "resolveEdges K next (e # es) st =
     bind_err (jumpOrAbortOnUndef K (fst e) (snd e) next st) (\<lambda>st1.
       bind_err (resolveEdges K next es st1) (\<lambda>(ls, st2).
         Inr (lastBranch st st1 # ls, st2)))"

text \<open>
  The state of the exit handler table that \<open>getTargetLabel\<close> and \<open>finalizeTargetLabel\<close>
  maintain: the index map and the handler list describe each other, handler labels are
  numbered labels of this assembler, and the shared helper label was numbered before
  the function is lowered.
\<close>

definition exits_wf :: "Constants \<Rightarrow> IrLoweringX64 \<Rightarrow> bool" where
  "exits_wf K st =
     (let hid = label_id (exitContinueVmClearNativeFlag (helpers st));
          hs = exitHandlers st
      in 0 < hid \<and> hid < nextLabel (build st)
         \<and> (\<forall>i < length hs.
               0 < label_id (self (hs ! i)) \<and> label_id (self (hs ! i)) < nextLabel (build st)
               \<and> label_id (self (hs ! i)) \<noteq> hid
               \<and> pcpos (hs ! i) \<noteq> kVmExitEntryGuardPc K
               \<and> exitHandlerMap st (pcpos (hs ! i)) = Some i)
         \<and> (\<forall>pc i. exitHandlerMap st pc = Some i \<longrightarrow> i < length hs \<and> pcpos (hs ! i) = pc)
         \<and> distinct (map (\<lambda>h. label_id (self h)) hs))"

text \<open>
  The label that a resume position currently resolves to: the shared helper label for
  the entry-guard position, the handler's label for a registered position, and 0 (no
  label) otherwise.
\<close>

definition exitLabel :: "Constants \<Rightarrow> IrLoweringX64 \<Rightarrow> nat \<Rightarrow> nat" where
  "exitLabel K st pc =
     (if pc = kVmExitEntryGuardPc K then label_id (exitContinueVmClearNativeFlag (helpers st))
      else case exitHandlerMap st pc of
             Some i \<Rightarrow> label_id (self (exitHandlers st ! i))
           | None \<Rightarrow> 0)"

definition vmExit :: "nat \<Rightarrow> IrOp" where
  "vmExit pc = \<lparr>kind = IrOpKind_VmExit, index = pc\<rparr>"

section \<open>Execution of the emitted instructions\<close>

text \<open>
  A small machine for the integer instructions the modelled cases emit: 32-bit general
  registers addressed by register index, 32-bit memory cells addressed by memory
  operand, and the zero flag. \<^verbatim>\<open>bsr\<close> and \<^verbatim>\<open>bsf\<close> scan for the highest and lowest set
  bit and leave their destination undefined on a zero source, which is a separate
  outcome here. Conditions that read other flags are not modelled; the scalar double
  instructions are run on the machine of the next section.
\<close>

record Machine =
  gpr :: "nat \<Rightarrow> 32 word"
  memory :: "MemX64 \<Rightarrow> 32 word"
  ZF :: bool

fun operand_value :: "Machine \<Rightarrow> OperandX64 \<Rightarrow> 32 word" where
  "operand_value m (Reg r) = gpr m (reg_index r)"
| "operand_value m (Imm w) = w"
| "operand_value m (Mem a) = memory m a"

fun bsr_scan :: "32 word \<Rightarrow> nat \<Rightarrow> nat" where
  "bsr_scan x 0 = 0"
| "bsr_scan x (Suc n) = (if bit x (Suc n) then Suc n else bsr_scan x n)"

fun bsf_scan :: "32 word \<Rightarrow> nat \<Rightarrow> nat \<Rightarrow> nat" where
  "bsf_scan x t 0 = t"
| "bsf_scan x t (Suc n) = (if bit x t then t else bsf_scan x (Suc t) n)"

datatype effect =
    Continue Machine
  | Branch nat Machine
  | Trap
  | Undefined_result
  | Not_modelled

fun cond_holds :: "ConditionX64 \<Rightarrow> Machine \<Rightarrow> bool option" where
  "cond_holds ConditionX64_Equal m = Some (ZF m)"
| "cond_holds ConditionX64_Zero m = Some (ZF m)"
| "cond_holds ConditionX64_NotEqual m = Some (\<not> ZF m)"
| "cond_holds ConditionX64_NotZero m = Some (\<not> ZF m)"
| "cond_holds _ m = None"

fun exec_instr :: "asm \<Rightarrow> Machine \<Rightarrow> effect" where
  "exec_instr (I_mov (Reg r) src) m =
     Continue (m\<lparr>gpr := (gpr m)(reg_index r := operand_value m src)\<rparr>)"
| "exec_instr (I_mov (Mem a) src) m =
     Continue (m\<lparr>memory := (memory m)(a := operand_value m src)\<rparr>)"
| "exec_instr (I_mov (Imm w) src) m = Not_modelled"
| "exec_instr (I_cmp x y) m = Continue (m\<lparr>ZF := (operand_value m x = operand_value m y)\<rparr>)"
| "exec_instr (I_test x y) m =
     Continue (m\<lparr>ZF := (operand_value m x AND operand_value m y = 0)\<rparr>)"
| "exec_instr (I_xor (Reg r) src) m =
     (let v = gpr m (reg_index r) XOR operand_value m src
      in Continue (m\<lparr>gpr := (gpr m)(reg_index r := v), ZF := (v = 0)\<rparr>))"
| "exec_instr (I_xor _ src) m = Not_modelled"
| "exec_instr (I_bsr r src) m =
     (if operand_value m src = 0 then Undefined_result
      else Continue (m\<lparr>gpr := (gpr m)(reg_index r := of_nat (bsr_scan (operand_value m src) 31)),
                      ZF := False\<rparr>))"
| "exec_instr (I_bsf r src) m =
     (if operand_value m src = 0 then Undefined_result
      else Continue (m\<lparr>gpr := (gpr m)(reg_index r := of_nat (bsf_scan (operand_value m src) 0 31)),
                      ZF := False\<rparr>))"
| "exec_instr (I_jcc c l) m =
     (case cond_holds c m of
        Some True \<Rightarrow> Branch l m
      | Some False \<Rightarrow> Continue m
      | None \<Rightarrow> Not_modelled)"
| "exec_instr (I_jmp l) m = Branch l m"
| "exec_instr I_ud2 m = Trap"
| "exec_instr (I_label l) m = Continue m"
| "exec_instr (I_call_sequence ra nparams nresults) m = Not_modelled"
| "exec_instr (I_return_sequence ra n v) m = Not_modelled"
| "exec_instr (I_vmovsd d s) m = Not_modelled"
| "exec_instr (I_vmovsd3 d s1 s2) m = Not_modelled"
| "exec_instr (I_vandpd d s1 s2) m = Not_modelled"
| "exec_instr (I_vorpd d s1 s2) m = Not_modelled"
| "exec_instr (I_vaddsd d s1 s2) m = Not_modelled"
| "exec_instr (I_vsubsd d s1 s2) m = Not_modelled"
| "exec_instr (I_vmulsd d s1 s2) m = Not_modelled"
| "exec_instr (I_vdivsd d s1 s2) m = Not_modelled"
| "exec_instr (I_vroundsd d s1 s2 mode) m = Not_modelled"

fun after_label :: "nat \<Rightarrow> asm list \<Rightarrow> asm list option" where
  "after_label l [] = None"
| "after_label l (i # rest) = (if i = I_label l then Some rest else after_label l rest)"

datatype outcome =
    Finished Machine
  | Exited nat Machine
  | Trapped
  | Undefined_behaviour
  | Unmodelled
  | Out_of_fuel

text \<open>
  \<open>run fuel prog rest m\<close> executes the instructions \<open>rest\<close> of the fragment \<open>prog\<close>. A
  branch to a label bound in the fragment continues after that label; a branch to any
  other label leaves the fragment.
\<close>

fun run :: "nat \<Rightarrow> asm list \<Rightarrow> asm list \<Rightarrow> Machine \<Rightarrow> outcome" where
  "run 0 prog rest m = Out_of_fuel"
| "run (Suc n) prog [] m = Finished m"
| "run (Suc n) prog (i # rest) m =
     (case exec_instr i m of
        Continue m' \<Rightarrow> run n prog rest m'
      | Branch l m' \<Rightarrow>
          (case after_label l prog of
             None \<Rightarrow> Exited l m'
           | Some rest' \<Rightarrow> run n prog rest' m')
      | Trap \<Rightarrow> Trapped
      | Undefined_result \<Rightarrow> Undefined_behaviour
      | Not_modelled \<Rightarrow> Unmodelled)"

section \<open>Binary64 arithmetic of the scalar double instructions\<close>

text \<open>
  A double is its 64-bit pattern. The instructions \<^verbatim>\<open>vaddsd\<close>, \<^verbatim>\<open>vsubsd\<close>, \<^verbatim>\<open>vmulsd\<close>,
  \<^verbatim>\<open>vdivsd\<close> compute the exact result of the operation and round it to the nearest
  double, ties to even (the rounding mode a process starts with); \<^verbatim>\<open>vroundsd\<close> rounds
  to an integral double in the mode given with the instruction. Magnitudes are counted
  in units of the smallest subnormal, which makes them natural numbers.
\<close>

text \<open>
  \<open>pow2 k\<close> is the power of two with exponent \<open>k\<close>.
\<close>

definition pow2 :: "nat \<Rightarrow> nat" where
  "pow2 k = 2 ^ k"

text \<open>
  The number of binary digits of a natural number.
\<close>

fun bitlen :: "nat \<Rightarrow> nat" where
  "bitlen n = (if n = 0 then 0 else 1 + bitlen (n div 2))"

declare bitlen.simps [simp del]

text \<open>
  The three fields of a double: sign bit, biased exponent, fraction.
\<close>

definition f64_sign :: "64 word \<Rightarrow> bool" where
  "f64_sign w = bit w 63"

definition f64_exp :: "64 word \<Rightarrow> nat" where
  "f64_exp w = (unat w div 2 ^ 52) mod 2 ^ 11"

definition f64_frac :: "64 word \<Rightarrow> nat" where
  "f64_frac w = unat w mod 2 ^ 52"

text \<open>
  A double whose exponent field is all ones is a NaN if its fraction is not zero, and an
  infinity otherwise.
\<close>

definition f64_is_nan :: "64 word \<Rightarrow> bool" where
  "f64_is_nan w = (f64_exp w = 2047 \<and> f64_frac w \<noteq> 0)"

definition f64_is_inf :: "64 word \<Rightarrow> bool" where
  "f64_is_inf w = (f64_exp w = 2047 \<and> f64_frac w = 0)"

text \<open>
  The magnitude of a finite double in units of the smallest subnormal (2 to the power
  -1074): the fraction itself for a subnormal, and the fraction with its hidden bit,
  scaled by the exponent, otherwise.
\<close>

definition f64_mag :: "64 word \<Rightarrow> nat" where
  "f64_mag w =
     (if f64_exp w = 0 then f64_frac w else (2 ^ 52 + f64_frac w) * pow2 (f64_exp w - 1))"

text \<open>
  The double with the given fields, and the double with a given sign and a given
  representable magnitude; a magnitude beyond the largest finite double gives infinity.
\<close>

definition f64_pack :: "bool \<Rightarrow> nat \<Rightarrow> nat \<Rightarrow> 64 word" where
  "f64_pack s e f = of_nat ((if s then 2 ^ 63 else 0) + e * 2 ^ 52 + f)"

definition f64_of_mag :: "bool \<Rightarrow> nat \<Rightarrow> 64 word" where
  "f64_of_mag s n =
     (if n < 2 ^ 52 then f64_pack s 0 n
      else if 2047 \<le> bitlen n - 52 then f64_pack s 2047 0
      else f64_pack s (bitlen n - 52) (n div pow2 (bitlen n - 53) - 2 ^ 52))"

text \<open>
  Rounding to nearest, ties to even, of the quotient \<open>n / d\<close> of two magnitudes: the
  quotient keeps 53 significant binary digits (its spacing is \<open>pow2 k\<close>), and the
  remainder decides the direction.
\<close>

definition rne :: "nat \<Rightarrow> nat \<Rightarrow> nat" where
  "rne n d =
     (let k = bitlen (n div d) - 53;
          g = d * pow2 k;
          q = n div g;
          r = n mod g
      in (if g < 2 * r \<or> (2 * r = g \<and> odd q) then q + 1 else q) * pow2 k)"

text \<open>
  A NaN operand is returned quieted, the first source operand before the second; an
  invalid operation gives the default NaN.
\<close>

definition f64_quiet :: "64 word \<Rightarrow> 64 word" where
  "f64_quiet w = w OR 0x0008000000000000"

definition f64_default_nan :: "64 word" where
  "f64_default_nan = 0xFFF8000000000000"

definition f64_nan_of :: "64 word \<Rightarrow> 64 word \<Rightarrow> 64 word" where
  "f64_nan_of x y = (if f64_is_nan x then f64_quiet x else f64_quiet y)"


text \<open>
  Addition: the exact sum of the signed magnitudes, rounded. An exact zero sum is
  negative only if both operands are.
\<close>

definition f64_add :: "64 word \<Rightarrow> 64 word \<Rightarrow> 64 word" where
  "f64_add x y =
     (if f64_is_nan x \<or> f64_is_nan y then f64_nan_of x y
      else if f64_is_inf x then
        (if f64_is_inf y \<and> f64_sign x \<noteq> f64_sign y then f64_default_nan else x)
      else if f64_is_inf y then y
      else
        (let vx = (if f64_sign x then - int (f64_mag x) else int (f64_mag x));
             vy = (if f64_sign y then - int (f64_mag y) else int (f64_mag y));
             v = vx + vy
         in if v = 0 then f64_pack (f64_sign x \<and> f64_sign y) 0 0
            else f64_of_mag (v < 0) (rne (nat \<bar>v\<bar>) 1)))"




text \<open>
  Rounding a magnitude to an integer: down, up, and to the nearest with ties to even.
  One is \<open>pow2 1074\<close> units.
\<close>

definition int_down :: "nat \<Rightarrow> nat" where
  "int_down n = (n div pow2 1074) * pow2 1074"

definition int_up :: "nat \<Rightarrow> nat" where
  "int_up n = ((n + (pow2 1074 - 1)) div pow2 1074) * pow2 1074"

definition int_even :: "nat \<Rightarrow> nat" where
  "int_even n =
     (let q = n div pow2 1074; r = n mod pow2 1074
      in (if pow2 1073 < r \<or> (r = pow2 1073 \<and> odd q) then q + 1 else q) * pow2 1074)"

text \<open>
  \<^verbatim>\<open>vroundsd\<close>: rounding to an integral double in the given mode; the sign is kept.
\<close>

definition f64_round :: "RoundingModeX64 \<Rightarrow> 64 word \<Rightarrow> 64 word" where
  "f64_round mode x =
     (if f64_is_nan x then f64_quiet x
      else if f64_is_inf x then x
      else f64_of_mag (f64_sign x)
             (case mode of
                RoundingModeX64_RoundToNearestEven \<Rightarrow> int_even (f64_mag x)
              | RoundingModeX64_RoundToNegativeInfinity \<Rightarrow>
                  (if f64_sign x then int_up (f64_mag x) else int_down (f64_mag x))
              | RoundingModeX64_RoundToPositiveInfinity \<Rightarrow>
                  (if f64_sign x then int_down (f64_mag x) else int_up (f64_mag x))
              | RoundingModeX64_RoundToZero \<Rightarrow> int_down (f64_mag x)))"

section \<open>Execution of the scalar double instructions\<close>

text \<open>
  The machine for the double-precision cases: the 128-bit registers, each kept as its low
  and its high half, and the 8 bytes at each memory operand. An entry of the constant
  pool holds the patterns it was created with. The scalar instructions take the high
  half of their result from the first source; a load clears it.
\<close>

record SseMachine =
  xmm :: "nat \<Rightarrow> 64 word \<times> 64 word"
  mem64 :: "MemX64 \<Rightarrow> 64 word"

fun read64 :: "SseMachine \<Rightarrow> OperandX64 \<Rightarrow> 64 word option" where
  "read64 m (Reg r) =
     (if reg_size r = SizeX64_xmmword then Some (fst (xmm m (reg_index r))) else None)"
| "read64 m (Imm w) = None"
| "read64 m (Mem (f64 w)) = Some w"
| "read64 m (Mem (i64 w)) = Some w"
| "read64 m (Mem (f64x2 lo hi)) = Some lo"
| "read64 m (Mem a) = Some (mem64 m a)"







section \<open>What the emitted code is compared with\<close>

text \<open>The number of leading and of trailing zero bits of a 32-bit value (32 for zero).\<close>

definition clz_spec :: "32 word \<Rightarrow> nat" where
  "clz_spec x = length (takeWhile (\<lambda>i. \<not> bit x i) (rev [0..<32]))"

definition ctz_spec :: "32 word \<Rightarrow> nat" where
  "ctz_spec x = length (takeWhile (\<lambda>i. \<not> bit x i) [0..<32])"

text \<open>
  The truthiness rule in the spec's words: a value is falsy iff its type tag is nil, or
  its type tag is boolean and its payload is zero.
\<close>

definition falsy :: "Constants \<Rightarrow> 32 word \<Rightarrow> 32 word \<Rightarrow> bool" where
  "falsy K tag payload =
     (tag = ucast (LUA_TNIL K) \<or> (tag = ucast (LUA_TBOOLEAN K) \<and> payload = 0))"

text \<open>An IR value that sits in register \<open>r\<close>: \<open>regOp\<close> hands out \<open>r\<close> without a restore.\<close>

definition resident :: "IrLoweringX64 \<Rightarrow> IrOp \<Rightarrow> RegisterX64 \<Rightarrow> bool" where
  "resident st op r =
     (kind op = IrOpKind_Inst \<and> index op < length (instructions (func st))
      \<and> \<not> spilled (instructions (func st) ! index op)
      \<and> \<not> needsReload (instructions (func st) ! index op)
      \<and> regX64 (instructions (func st) ! index op) = r \<and> r \<noteq> noreg)"

text \<open>
  Rounding in the spec's words: the sum of \<open>x\<close> and \<open>0.49999999999999994\<close> with the sign
  of \<open>x\<close>, truncated toward zero; and what it is to match, the integer nearest to \<open>x\<close>,
  the one away from zero when \<open>x\<close> is halfway between two integers: the sign of \<open>x\<close> and
  the magnitude \<open>\<lfloor>|x| + 1/2\<rfloor>\<close>, computed exactly.
\<close>

definition f64_copysign :: "64 word \<Rightarrow> 64 word \<Rightarrow> 64 word" where
  "f64_copysign v s = (v AND 0x7FFFFFFFFFFFFFFF) OR (s AND 0x8000000000000000)"

definition round_formula :: "64 word \<Rightarrow> 64 word" where
  "round_formula x =
     f64_round RoundingModeX64_RoundToZero (f64_add x (f64_copysign 0x3FDFFFFFFFFFFFFF x))"

definition round_half_away :: "64 word \<Rightarrow> 64 word" where
  "round_half_away x =
     f64_of_mag (f64_sign x) (((f64_mag x + pow2 1073) div pow2 1074) * pow2 1074)"



section \<open>Branch instructions of a code fragment\<close>



text \<open>The label id of a block of the function being lowered.\<close>

definition block_label :: "IrLoweringX64 \<Rightarrow> nat \<Rightarrow> nat" where
  "block_label st i = label_id (label (blocks (func st) ! i))"

definition is_block :: "IrLoweringX64 \<Rightarrow> IrOp \<Rightarrow> bool" where
  "is_block st op = (kind op = IrOpKind_Block \<and> index op < length (blocks (func st)))"



text \<open>
  What emitting a branch leaves alone: the instructions, the constants, the number of
  blocks and where they start, and the id of every label that is already numbered.
\<close>

definition frame :: "IrLoweringX64 \<Rightarrow> IrLoweringX64 \<Rightarrow> bool" where
  "frame st st' =
     (instructions (func st') = instructions (func st)
      \<and> tagOp (func st') = tagOp (func st)
      \<and> intOp (func st') = intOp (func st)
      \<and> length (blocks (func st')) = length (blocks (func st))
      \<and> (\<forall>j. start (blocks (func st') ! j) = start (blocks (func st) ! j))
      \<and> (\<forall>j. block_label st j \<noteq> 0 \<longrightarrow> block_label st' j = block_label st j)
      \<and> nextLabel (build st) \<le> nextLabel (build st'))"

text \<open>
  The label a guard's target resolves to, and what is assumed of a target before a guard
  on it is lowered: the assembler has numbered at least one label, and the target is
  undefined, a VM exit under a well-formed exit handler table, or a block whose label (if
  numbered) is a label of this assembler.
\<close>

definition target_label :: "Constants \<Rightarrow> IrLoweringX64 \<Rightarrow> IrOp \<Rightarrow> nat" where
  "target_label K st t =
     (if kind t = IrOpKind_VmExit then exitLabel K st (index t) else block_label st (index t))"

definition target_ok :: "Constants \<Rightarrow> IrLoweringX64 \<Rightarrow> IrOp \<Rightarrow> bool" where
  "target_ok K st t =
     (0 < nextLabel (build st)
      \<and> (kind t = IrOpKind_Undef
         \<or> (kind t = IrOpKind_VmExit \<and> exits_wf K st)
         \<or> (is_block st t \<and> block_label st (index t) < nextLabel (build st))))"

text \<open>
  The machine operand that \<open>memRegTagOp\<close> and \<open>memRegUintOp\<close> resolve an IR operand to
  when no restore is needed.
\<close>

definition tag_operand :: "IrLoweringX64 \<Rightarrow> IrOp \<Rightarrow> OperandX64 \<Rightarrow> bool" where
  "tag_operand st a ta =
     ((\<exists>r. resident st a r \<and> ta = Reg r)
      \<or> (kind a = IrOpKind_VmReg \<and> ta = Mem (luauRegTag (index a)))
      \<or> (kind a = IrOpKind_VmConst \<and> ta = Mem (luauConstantTag (index a))))"

definition uint_operand :: "IrLoweringX64 \<Rightarrow> IrOp \<Rightarrow> OperandX64 \<Rightarrow> bool" where
  "uint_operand st b vb =
     ((\<exists>r. resident st b r \<and> vb = Reg r)
      \<or> (kind b = IrOpKind_Constant \<and> vb = Imm (intOp (func st) b))
      \<or> (kind b = IrOpKind_VmReg \<and> vb = Mem (luauRegValueInt (index b))))"

text \<open>
  The machine operand that \<open>memRegDoubleOp\<close> resolves an IR operand to when no restore is
  needed, and the registers an operand reads.
\<close>

definition double_operand :: "IrLoweringX64 \<Rightarrow> IrOp \<Rightarrow> OperandX64 \<Rightarrow> bool" where
  "double_operand st a opd =
     ((\<exists>r. resident st a r \<and> opd = Reg r)
      \<or> (kind a = IrOpKind_Constant \<and> opd = Mem (f64 (doubleOp (func st) a)))
      \<or> (kind a = IrOpKind_VmReg \<and> opd = Mem (luauRegValue (index a)))
      \<or> (kind a = IrOpKind_VmConst \<and> opd = Mem (luauConstantValue (index a))))"




section \<open>Example configuration\<close>

text \<open>
  A small function used to instantiate the theorems below: two values held in registers
  1 and 2, three blocks, free registers, no spills, an assembler that has numbered one
  label (the shared helper), and an empty exit handler table. \<open>example_lowering i\<close>
  places the instruction \<open>i\<close> at index 2.
\<close>

definition example_constants :: Constants where
  "example_constants =
     \<lparr>LUA_TNIL = 0, LUA_TBOOLEAN = 1, kSpillSlots = 13, kVmExitEntryGuardPc = 268435455\<rparr>"

definition example_value :: "nat \<Rightarrow> IrInst" where
  "example_value r =
     \<lparr>op_a = \<lparr>kind = IrOpKind_VmReg, index = r\<rparr>,
      op_b = \<lparr>kind = IrOpKind_None, index = 0\<rparr>,
      op_c = \<lparr>kind = IrOpKind_None, index = 0\<rparr>,
      op_d = \<lparr>kind = IrOpKind_None, index = 0\<rparr>,
      op_e = \<lparr>kind = IrOpKind_None, index = 0\<rparr>,
      op_f = \<lparr>kind = IrOpKind_None, index = 0\<rparr>,
      lastUse = 2,
      regX64 = \<lparr>reg_size = SizeX64_dword, reg_index = r\<rparr>,
      spilled = False,
      needsReload = False\<rparr>"

definition example_inst :: "IrOp \<Rightarrow> IrOp \<Rightarrow> IrOp \<Rightarrow> IrOp \<Rightarrow> IrInst" where
  "example_inst a b c d =
     \<lparr>op_a = a, op_b = b, op_c = c, op_d = d,
      op_e = \<lparr>kind = IrOpKind_None, index = 0\<rparr>,
      op_f = \<lparr>kind = IrOpKind_None, index = 0\<rparr>,
      lastUse = 2,
      regX64 = noreg,
      spilled = False,
      needsReload = False\<rparr>"

definition example_block :: "nat \<Rightarrow> nat \<Rightarrow> IrBlock" where
  "example_block uses first = \<lparr>useCount = uses, start = first, label = \<lparr>label_id = 0\<rparr>\<rparr>"

definition example_function :: "IrInst \<Rightarrow> IrFunction" where
  "example_function i =
     \<lparr>instructions = [example_value 1, example_value 2, i],
      blocks = [example_block 1 0, example_block 1 3, example_block 2 7],
      tagOp = (\<lambda>op. of_nat (index op)),
      intOp = (\<lambda>op. of_nat (index op)),
      doubleOp = (\<lambda>op. of_nat (index op)),
      getBlockIndex = (\<lambda>b. if start b = 0 then 0 else if start b = 3 then 1 else 2),
      cfg = (\<lambda>b. if b = 1 then [0] else if b = 2 then [0, 1] else []),
      variadic = False\<rparr>"

definition example_regs :: IrRegAllocX64 where
  "example_regs =
     \<lparr>gprInstUsers = replicate 16 None, xmmInstUsers = replicate 16 None,
      spills = [], maxUsedSlot = 0, currInstIdx = 2\<rparr>"

definition example_lowering :: "IrInst \<Rightarrow> IrLoweringX64" where
  "example_lowering i =
     \<lparr>build = \<lparr>emitted = [], nextLabel = 2\<rparr>,
      helpers = \<lparr>exitContinueVmClearNativeFlag = \<lparr>label_id = 1\<rparr>\<rparr>,
      func = example_function i,
      regs = example_regs,
      exitHandlerMap = Map.empty,
      exitHandlers = []\<rparr>"

definition example_machine :: "32 word \<Rightarrow> 32 word \<Rightarrow> Machine" where
  "example_machine v1 v2 =
     \<lparr>gpr = (\<lambda>r. if r = 1 then v1 else if r = 2 then v2 else 0),
      memory = (\<lambda>a. 0),
      ZF = False\<rparr>"

definition inst_op :: "nat \<Rightarrow> IrOp" where
  "inst_op i = \<lparr>kind = IrOpKind_Inst, index = i\<rparr>"


definition no_op :: IrOp where
  "no_op = \<lparr>kind = IrOpKind_None, index = 0\<rparr>"

definition no_restore :: "nat \<Rightarrow> IrLoweringX64 \<Rightarrow> IrLoweringX64" where
  "no_restore i st = st"





section \<open>Operand kinds accepted by the resolvers\<close>

lemma regOp_not_unsupported:
  "regOp restore op st \<noteq> Inl Unsupported_operand_kind"
  by (simp add: regOp_def instOp_def Let_def split: sum.splits)

text \<open>
  C10. The unsigned 32-bit resolver \<open>memRegUintOp\<close> reaches its
  "Unsupported operand kind" assertion exactly for operands that are not an IR value,
  an immediate constant or a VM register slot; the double resolver \<open>memRegDoubleOp\<close>
  reaches it exactly for operands outside those three kinds and the VM constant slot.
  A VM constant slot is therefore resolved to its constant-table memory operand where a
  double is demanded, and rejected where an unsigned 32-bit value is demanded.
\<close>

theorem memRegUintOp_memRegDoubleOp_kinds:
  "(memRegUintOp restore op st = Inl Unsupported_operand_kind) =
     (kind op \<notin> {IrOpKind_Inst, IrOpKind_Constant, IrOpKind_VmReg})
   \<and> (memRegDoubleOp restore op st = Inl Unsupported_operand_kind) =
     (kind op \<notin> {IrOpKind_Inst, IrOpKind_Constant, IrOpKind_VmReg, IrOpKind_VmConst})
   \<and> (kind op = IrOpKind_VmConst \<longrightarrow>
        memRegDoubleOp restore op st = Inr (Mem (luauConstantValue (index op)), st)
        \<and> memRegUintOp restore op st = Inl Unsupported_operand_kind)"
proof -
  have r: "\<And>x. (case regOp restore op st of Inl e \<Rightarrow> Inl e | Inr (r, st') \<Rightarrow> Inr (Reg r, st'))
             \<noteq> Inl Unsupported_operand_kind"
    using regOp_not_unsupported [of restore op st] by (auto split: sum.splits)
  show ?thesis
    using r by (cases "kind op") (simp_all add: memRegUintOp_def memRegDoubleOp_def vmConstOp_def)
qed

theorem memRegUintOp_memRegDoubleOp_kinds_witness:
  "memRegDoubleOp no_restore \<lparr>kind = IrOpKind_VmConst, index = 5\<rparr>
       (example_lowering (example_value 3))
     = Inr (Mem (luauConstantValue 5), example_lowering (example_value 3))
   \<and> memRegUintOp no_restore \<lparr>kind = IrOpKind_VmConst, index = 5\<rparr>
       (example_lowering (example_value 3)) = Inl Unsupported_operand_kind
   \<and> memRegUintOp no_restore \<lparr>kind = IrOpKind_VmReg, index = 5\<rparr>
       (example_lowering (example_value 3)) \<noteq> Inl Unsupported_operand_kind"
  using memRegUintOp_memRegDoubleOp_kinds
          [of no_restore "\<lparr>kind = IrOpKind_VmConst, index = 5\<rparr>"
              "example_lowering (example_value 3)"]
        memRegUintOp_memRegDoubleOp_kinds
          [of no_restore "\<lparr>kind = IrOpKind_VmReg, index = 5\<rparr>"
              "example_lowering (example_value 3)"]
  by simp

section \<open>Spill budget\<close>

lemma maxUsedSlot_fold_recordSpill:
  "(k < maxUsedSlot (fold recordSpill sps r)) =
     (k < maxUsedSlot r \<or> (\<exists>sp \<in> set sps. k < spill_stackSlot sp + 1))"
  by (induction sps arbitrary: r) (auto simp: recordSpill_def)

text \<open>
  C7. \<open>hasError\<close> is true exactly when the high-water mark of spill slots exceeds the
  budget \<open>kSpillSlots\<close>. Spilling during the pass only records the spill and raises the
  mark: after any series of spills the pass still has a state, and \<open>hasError\<close> on it is
  true exactly when the mark was already over budget or one of the spills used a slot
  beyond it.
\<close>

theorem hasError_iff_budget_exceeded:
  "hasError K st = (kSpillSlots K < maxUsedSlot (regs st))
   \<and> hasError K (spillDuringPass sps st) =
       (kSpillSlots K < maxUsedSlot (regs st)
        \<or> (\<exists>sp \<in> set sps. kSpillSlots K < spill_stackSlot sp + 1))"
  by (simp add: hasError_def spillDuringPass_def maxUsedSlot_fold_recordSpill)

theorem hasError_iff_budget_exceeded_witness:
  "\<not> hasError example_constants (example_lowering (example_value 3))
   \<and> \<not> hasError example_constants
         (spillDuringPass [\<lparr>spill_instIdx = 0, spill_stackSlot = 12\<rparr>]
            (example_lowering (example_value 3)))
   \<and> hasError example_constants
         (spillDuringPass [\<lparr>spill_instIdx = 0, spill_stackSlot = 12\<rparr>,
                           \<lparr>spill_instIdx = 1, spill_stackSlot = 13\<rparr>]
            (example_lowering (example_value 3)))"
  using hasError_iff_budget_exceeded
          [of example_constants "example_lowering (example_value 3)" "[]"]
        hasError_iff_budget_exceeded
          [of example_constants "example_lowering (example_value 3)"
              "[\<lparr>spill_instIdx = 0, spill_stackSlot = 12\<rparr>]"]
        hasError_iff_budget_exceeded
          [of example_constants "example_lowering (example_value 3)"
              "[\<lparr>spill_instIdx = 0, spill_stackSlot = 12\<rparr>,
                \<lparr>spill_instIdx = 1, spill_stackSlot = 13\<rparr>]"]
  by (simp add: example_constants_def example_lowering_def example_regs_def)

section \<open>Blocks finished with pending spills\<close>

text \<open>
  C8, as the code has it. When a block is finished while spills are outstanding,
  \<open>finishBlock\<close> passes its assertions exactly when every predecessor of the next block
  is the current block and the next block's use count is 1: the block entered by
  falling through is not a join point. With no spill outstanding it checks nothing.
  Only the predecessors and the use count of the next block are examined; the other
  successors of the current block are not.
\<close>

theorem finishBlock_pending_spills:
  "(spills (regs st) \<noteq> [] \<longrightarrow>
      (finishBlock st cur next = Inr ()) =
        ((\<forall>predIdx \<in> set (predecessors (cfg (func st)) (getBlockIndex (func st) next)).
            predIdx = getBlockIndex (func st) cur)
         \<and> useCount next = 1))
   \<and> (spills (regs st) = [] \<longrightarrow> finishBlock st cur next = Inr ())"
  by (auto simp: finishBlock_def list_all_iff)

theorem finishBlock_pending_spills_witness:
  "finishBlock
     ((example_lowering (example_value 3))
        \<lparr>regs := example_regs\<lparr>spills := [\<lparr>spill_instIdx = 0, spill_stackSlot = 0\<rparr>]\<rparr>\<rparr>)
     (example_block 1 0) (example_block 1 3) = Inr ()
   \<and> finishBlock
     ((example_lowering (example_value 3))
        \<lparr>regs := example_regs\<lparr>spills := [\<lparr>spill_instIdx = 0, spill_stackSlot = 0\<rparr>]\<rparr>\<rparr>)
     (example_block 1 3) (example_block 2 7) \<noteq> Inr ()
   \<and> finishBlock (example_lowering (example_value 3)) (example_block 1 3) (example_block 2 7)
       = Inr ()"
  using finishBlock_pending_spills
          [of "(example_lowering (example_value 3))
                 \<lparr>regs := example_regs\<lparr>spills := [\<lparr>spill_instIdx = 0, spill_stackSlot = 0\<rparr>]\<rparr>\<rparr>"
              "example_block 1 0" "example_block 1 3"]
        finishBlock_pending_spills
          [of "(example_lowering (example_value 3))
                 \<lparr>regs := example_regs\<lparr>spills := [\<lparr>spill_instIdx = 0, spill_stackSlot = 0\<rparr>]\<rparr>\<rparr>"
              "example_block 1 3" "example_block 2 7"]
        finishBlock_pending_spills
          [of "example_lowering (example_value 3)" "example_block 1 3" "example_block 2 7"]
  by (simp add: example_lowering_def example_regs_def example_function_def example_block_def
        predecessors_def)

text \<open>
  A block finished with a pending spill whose next block is not its only successor: in
  the example function block 0 precedes block 1 and block 2, and block 2 is a join
  point (its predecessors are blocks 0 and 1, its use count is 2). With one spill
  outstanding, \<open>finishBlock\<close> for block 0 followed by block 1 passes both assertions.
\<close>

theorem finishBlock_next_not_only_successor_counterexample:
  "finishBlock
     ((example_lowering (example_value 3))
        \<lparr>regs := example_regs\<lparr>spills := [\<lparr>spill_instIdx = 0, spill_stackSlot = 0\<rparr>]\<rparr>\<rparr>)
     (example_block 1 0) (example_block 1 3) = Inr ()
   \<and> spills (regs ((example_lowering (example_value 3))
        \<lparr>regs := example_regs\<lparr>spills := [\<lparr>spill_instIdx = 0, spill_stackSlot = 0\<rparr>]\<rparr>\<rparr>))
       = [\<lparr>spill_instIdx = 0, spill_stackSlot = 0\<rparr>]
   \<and> getBlockIndex (func (example_lowering (example_value 3))) (example_block 1 0) = 0
   \<and> getBlockIndex (func (example_lowering (example_value 3))) (example_block 1 3) = 1
   \<and> successors (cfg (func (example_lowering (example_value 3)))) 3 0 = [1, 2]
   \<and> predecessors (cfg (func (example_lowering (example_value 3)))) 2 = [0, 1]
   \<and> useCount (blocks (func (example_lowering (example_value 3))) ! 2) = 2"
  by (simp add: finishBlock_def successors_def example_lowering_def example_regs_def
        example_function_def example_block_def predecessors_def upt_rec)

section \<open>Calls and returns\<close>

text \<open>
  C9. Whenever the \<^verbatim>\<open>CALL\<close> or the \<^verbatim>\<open>RETURN\<close> case emits its body, every machine
  register is free and no spill is outstanding: both conditions are asserted before
  the operands are read. On a state that is not clean the case stops at the first
  failing assertion (registers first, then spills) and emits nothing. On a clean state
  the body is emitted for an instruction whose operand \<open>a\<close> is a VM register and whose
  counts (\<open>b\<close>, and \<open>c\<close> for \<^verbatim>\<open>CALL\<close>) are constants.
\<close>

theorem call_return_clean_state:
  "(lowerInst_CALL idx st = Inr st' \<or> lowerInst_RETURN idx st = Inr st' \<longrightarrow>
      (\<forall>u \<in> set (gprInstUsers (regs st)) \<union> set (xmmInstUsers (regs st)). u = None)
      \<and> spills (regs st) = [])
   \<and> (idx < length (instructions (func st)) \<longrightarrow>
        (\<not> (\<forall>u \<in> set (gprInstUsers (regs st)) \<union> set (xmmInstUsers (regs st)). u = None) \<longrightarrow>
           lowerInst_CALL idx st = Inl Registers_not_all_free
           \<and> lowerInst_RETURN idx st = Inl Registers_not_all_free)
        \<and> ((\<forall>u \<in> set (gprInstUsers (regs st)) \<union> set (xmmInstUsers (regs st)). u = None)
             \<and> spills (regs st) \<noteq> [] \<longrightarrow>
           lowerInst_CALL idx st = Inl Spills_remaining
           \<and> lowerInst_RETURN idx st = Inl Spills_remaining)
        \<and> ((\<forall>u \<in> set (gprInstUsers (regs st)) \<union> set (xmmInstUsers (regs st)). u = None)
             \<and> spills (regs st) = []
             \<and> kind (op_a (instructions (func st) ! idx)) = IrOpKind_VmReg
             \<and> kind (op_b (instructions (func st) ! idx)) = IrOpKind_Constant \<longrightarrow>
           lowerInst_RETURN idx st =
             Inr (emitS (I_return_sequence (index (op_a (instructions (func st) ! idx)))
                           (intOp (func st) (op_b (instructions (func st) ! idx)))
                           (variadic (func st))) st)
           \<and> (kind (op_c (instructions (func st) ! idx)) = IrOpKind_Constant \<longrightarrow>
                lowerInst_CALL idx st =
                  Inr (emitS (I_call_sequence (index (op_a (instructions (func st) ! idx)))
                                (intOp (func st) (op_b (instructions (func st) ! idx)))
                                (intOp (func st) (op_c (instructions (func st) ! idx)))) st))))"
proof (intro conjI impI)
  assume "lowerInst_CALL idx st = Inr st' \<or> lowerInst_RETURN idx st = Inr st'"
  then show "\<forall>u \<in> set (gprInstUsers (regs st)) \<union> set (xmmInstUsers (regs st)). u = None"
    by (auto simp: lowerInst_CALL_def lowerInst_RETURN_def assertAllFree_def bind_err_def
          list_all_iff split: sum.splits if_splits)
next
  assume "lowerInst_CALL idx st = Inr st' \<or> lowerInst_RETURN idx st = Inr st'"
  then show "spills (regs st) = []"
    by (auto simp: lowerInst_CALL_def lowerInst_RETURN_def assertNoSpills_def bind_err_def
          split: sum.splits if_splits)
qed (auto simp: lowerInst_CALL_def lowerInst_RETURN_def instRef_def assertAllFree_def
       assertNoSpills_def vmRegOp_asserted_def intOp_asserted_def vmRegOp_def bind_err_def
       list_all_iff)

theorem call_return_clean_state_witness:
  "lowerInst_CALL 2
       (example_lowering
          (example_inst \<lparr>kind = IrOpKind_VmReg, index = 3\<rparr> \<lparr>kind = IrOpKind_Constant, index = 2\<rparr>
             \<lparr>kind = IrOpKind_Constant, index = 1\<rparr> no_op))
     = Inr (emitS (I_call_sequence 3 2 1)
         (example_lowering
            (example_inst \<lparr>kind = IrOpKind_VmReg, index = 3\<rparr> \<lparr>kind = IrOpKind_Constant, index = 2\<rparr>
               \<lparr>kind = IrOpKind_Constant, index = 1\<rparr> no_op)))
   \<and> lowerInst_RETURN 2
       (example_lowering
          (example_inst \<lparr>kind = IrOpKind_VmReg, index = 3\<rparr> \<lparr>kind = IrOpKind_Constant, index = 2\<rparr>
             no_op no_op))
     = Inr (emitS (I_return_sequence 3 2 False)
         (example_lowering
            (example_inst \<lparr>kind = IrOpKind_VmReg, index = 3\<rparr> \<lparr>kind = IrOpKind_Constant, index = 2\<rparr>
               no_op no_op)))
   \<and> spills (regs (example_lowering
          (example_inst \<lparr>kind = IrOpKind_VmReg, index = 3\<rparr> \<lparr>kind = IrOpKind_Constant, index = 2\<rparr>
             \<lparr>kind = IrOpKind_Constant, index = 1\<rparr> no_op))) = []
   \<and> lowerInst_CALL 2
       ((example_lowering
          (example_inst \<lparr>kind = IrOpKind_VmReg, index = 3\<rparr> \<lparr>kind = IrOpKind_Constant, index = 2\<rparr>
             \<lparr>kind = IrOpKind_Constant, index = 1\<rparr> no_op))
          \<lparr>regs := example_regs\<lparr>gprInstUsers := [Some 0, None]\<rparr>\<rparr>) = Inl Registers_not_all_free
   \<and> lowerInst_RETURN 2
       ((example_lowering
          (example_inst \<lparr>kind = IrOpKind_VmReg, index = 3\<rparr> \<lparr>kind = IrOpKind_Constant, index = 2\<rparr>
             no_op no_op))
          \<lparr>regs := example_regs\<lparr>spills := [\<lparr>spill_instIdx = 0, spill_stackSlot = 0\<rparr>]\<rparr>\<rparr>)
       = Inl Spills_remaining"
proof -
  let ?c = "example_inst \<lparr>kind = IrOpKind_VmReg, index = 3\<rparr> \<lparr>kind = IrOpKind_Constant, index = 2\<rparr>
              \<lparr>kind = IrOpKind_Constant, index = 1\<rparr> no_op"
  let ?r = "example_inst \<lparr>kind = IrOpKind_VmReg, index = 3\<rparr> \<lparr>kind = IrOpKind_Constant, index = 2\<rparr>
              no_op no_op"
  have call: "lowerInst_CALL 2 (example_lowering ?c)
                = Inr (emitS (I_call_sequence 3 2 1) (example_lowering ?c))"
    using call_return_clean_state [of 2 "example_lowering ?c" "example_lowering ?c"]
    by (simp add: example_lowering_def example_regs_def example_function_def example_inst_def)
  have ret: "lowerInst_RETURN 2 (example_lowering ?r)
                = Inr (emitS (I_return_sequence 3 2 False) (example_lowering ?r))"
    using call_return_clean_state [of 2 "example_lowering ?r" "example_lowering ?r"]
    by (simp add: example_lowering_def example_regs_def example_function_def example_inst_def)
  have clean: "spills (regs (example_lowering ?c)) = []"
    using call_return_clean_state
            [of 2 "example_lowering ?c" "emitS (I_call_sequence 3 2 1) (example_lowering ?c)"] call
    by simp
  have unfree: "lowerInst_CALL 2
       ((example_lowering ?c)\<lparr>regs := example_regs\<lparr>gprInstUsers := [Some 0, None]\<rparr>\<rparr>)
       = Inl Registers_not_all_free"
    using call_return_clean_state
            [of 2 "(example_lowering ?c)\<lparr>regs := example_regs\<lparr>gprInstUsers := [Some 0, None]\<rparr>\<rparr>"
                "example_lowering ?c"]
    by (simp add: example_lowering_def example_regs_def example_function_def)
  have spill: "lowerInst_RETURN 2
       ((example_lowering ?r)
          \<lparr>regs := example_regs\<lparr>spills := [\<lparr>spill_instIdx = 0, spill_stackSlot = 0\<rparr>]\<rparr>\<rparr>)
       = Inl Spills_remaining"
    using call_return_clean_state
            [of 2 "(example_lowering ?r)
                     \<lparr>regs := example_regs\<lparr>spills := [\<lparr>spill_instIdx = 0, spill_stackSlot = 0\<rparr>]\<rparr>\<rparr>"
                "example_lowering ?r"]
    by (simp add: example_lowering_def example_regs_def example_function_def)
  show ?thesis using call ret clean unfree spill by simp
qed

section \<open>Bit counts\<close>

lemma regOp_resident: "resident st op r \<Longrightarrow> regOp restore op st = Inr (r, st)"
  by (simp add: resident_def regOp_def instOp_def)

lemma resident_emitS [simp]: "resident (emitS i st) op r = resident st op r"
  by (simp add: resident_def emitS_def)

lemma resident_build [simp]: "resident (st\<lparr>build := b\<rparr>) op r = resident st op r"
  by (simp add: resident_def)

lemma resident_set_regX64:
  "index op \<noteq> idx \<Longrightarrow> resident (set_regX64 idx d st) op r = resident st op r"
  by (auto simp: resident_def set_regX64_def)

lemma inst_regX64_set:
  "idx < length (instructions (func st)) \<Longrightarrow> inst_regX64 idx (set_regX64 idx d st) = d"
  by (simp add: inst_regX64_def set_regX64_def)

lemma inst_regX64_build [simp]: "inst_regX64 idx (st\<lparr>build := b\<rparr>) = inst_regX64 idx st"
  by (simp add: inst_regX64_def)

lemma op_a_set_regX64:
  "idx < length (instructions (func st)) \<Longrightarrow>
   op_a (instructions (func (set_regX64 idx d st)) ! idx) = op_a (instructions (func st) ! idx)"
  by (simp add: set_regX64_def)

lemma build_set_regX64 [simp]: "build (set_regX64 idx d st) = build st"
  by (simp add: set_regX64_def)


lemma emitS_build:
  "emitS i st = st\<lparr>build := \<lparr>emitted = emitted (build st) @ [i], nextLabel = nextLabel (build st)\<rparr>\<rparr>"
  by (simp add: emitS_def emit_def)

lemma onBuild_jcc_new:
  "onBuild (jcc c) \<lparr>label_id = 0\<rparr> st =
     (\<lparr>label_id = nextLabel (build st)\<rparr>,
      st\<lparr>build := \<lparr>emitted = emitted (build st) @ [I_jcc c (nextLabel (build st))],
                   nextLabel = Suc (nextLabel (build st))\<rparr>\<rparr>)"
  by (simp add: onBuild_def jcc_def placeLabel_def emit_def)

lemma onBuild_jmp_new:
  "onBuild jmp \<lparr>label_id = 0\<rparr> st =
     (\<lparr>label_id = nextLabel (build st)\<rparr>,
      st\<lparr>build := \<lparr>emitted = emitted (build st) @ [I_jmp (nextLabel (build st))],
                   nextLabel = Suc (nextLabel (build st))\<rparr>\<rparr>)"
  by (simp add: onBuild_def jmp_def placeLabel_def emit_def)

lemma onBuild_setLabel_new:
  "onBuild setLabel \<lparr>label_id = 0\<rparr> st =
     (\<lparr>label_id = nextLabel (build st)\<rparr>,
      st\<lparr>build := \<lparr>emitted = emitted (build st) @ [I_label (nextLabel (build st))],
                   nextLabel = Suc (nextLabel (build st))\<rparr>\<rparr>)"
  by (simp add: onBuild_def setLabel_def placeLabel_def emit_def)

lemma onBuild_jcc_old:
  "0 < n \<Longrightarrow> onBuild (jcc c) \<lparr>label_id = n\<rparr> st =
     (\<lparr>label_id = n\<rparr>,
      st\<lparr>build := \<lparr>emitted = emitted (build st) @ [I_jcc c n],
                   nextLabel = nextLabel (build st)\<rparr>\<rparr>)"
  by (simp add: onBuild_def jcc_def placeLabel_def emit_def)

lemma onBuild_jmp_old:
  "0 < n \<Longrightarrow> onBuild jmp \<lparr>label_id = n\<rparr> st =
     (\<lparr>label_id = n\<rparr>,
      st\<lparr>build := \<lparr>emitted = emitted (build st) @ [I_jmp n],
                   nextLabel = nextLabel (build st)\<rparr>\<rparr>)"
  by (simp add: onBuild_def jmp_def placeLabel_def emit_def)

lemma onBuild_setLabel_old:
  "0 < n \<Longrightarrow> onBuild setLabel \<lparr>label_id = n\<rparr> st =
     (\<lparr>label_id = n\<rparr>,
      st\<lparr>build := \<lparr>emitted = emitted (build st) @ [I_label n],
                   nextLabel = nextLabel (build st)\<rparr>\<rparr>)"
  by (simp add: onBuild_def setLabel_def placeLabel_def emit_def)

lemmas build_steps = emitS_build onBuild_jcc_new onBuild_jmp_new onBuild_setLabel_new
  onBuild_jcc_old onBuild_jmp_old onBuild_setLabel_old

lemma bind_err_Inr [simp]: "bind_err (Inr x) f = f x"
  by (simp add: bind_err_def)

lemma bind_err_Inl [simp]: "bind_err (Inl e) f = Inl e"
  by (simp add: bind_err_def)

lemma lower_clz_code:
  assumes "idx < length (instructions (func st))"
      and "resident st (op_a (instructions (func st) ! idx)) src"
      and "index (op_a (instructions (func st) ! idx)) \<noteq> idx"
      and "0 < nextLabel (build st)"
  shows "\<exists>st'. lowerInst_BITCOUNTLZ_UINT restore dst idx st = Inr st'
           \<and> newCode st st' =
               [I_test (Reg src) (Reg src), I_jcc ConditionX64_Equal (nextLabel (build st)),
                I_bsr dst (Reg src), I_xor (Reg dst) (Imm 0x1f),
                I_jmp (Suc (nextLabel (build st))), I_label (nextLabel (build st)),
                I_mov (Reg dst) (Imm 32), I_label (Suc (nextLabel (build st)))]"
proof -
  let ?st0 = "set_regX64 idx dst st"
  have r: "resident ?st0 (op_a (instructions (func st) ! idx)) src"
    using assms by (simp add: resident_set_regX64)
  show ?thesis
    using assms r
    by (simp add: lowerInst_BITCOUNTLZ_UINT_def Let_def op_a_set_regX64
          regOp_resident build_steps inst_regX64_set newCode_def)
qed


lemma bsr_scan_le: "bsr_scan x n \<le> n"
  by (induction n) auto

lemma leading_zeros_bsr_scan:
  "\<exists>i\<le>n. bit x i \<Longrightarrow>
   length (takeWhile (\<lambda>i. \<not> bit x i) (rev [0..<Suc n])) = n - bsr_scan x n"
proof (induction n)
  case 0
  then show ?case by simp
next
  case (Suc n)
  show ?case
  proof (cases "bit x (Suc n)")
    case True
    then show ?thesis by simp
  next
    case False
    with Suc.prems have "\<exists>i\<le>n. bit x i"
      by (metis le_SucE)
    with Suc.IH have "length (takeWhile (\<lambda>i. \<not> bit x i) (rev [0..<Suc n])) = n - bsr_scan x n"
      by simp
    with False bsr_scan_le [of x n] show ?thesis by simp
  qed
qed

lemma trailing_zeros_bsf_scan:
  "\<exists>i. t \<le> i \<and> i < t + Suc n \<and> bit x i \<Longrightarrow>
   length (takeWhile (\<lambda>i. \<not> bit x i) [t..<t + Suc n]) + t = bsf_scan x t n"
proof (induction n arbitrary: t)
  case 0
  then have "bit x t"
    by (metis add.right_neutral add_Suc_right le_antisym less_Suc_eq_le)
  then show ?case by (simp add: upt_rec)
next
  case (Suc n)
  show ?case
  proof (cases "bit x t")
    case True
    then show ?thesis by (simp add: upt_rec)
  next
    case False
    with Suc.prems obtain i where i: "t \<le> i" "i < t + Suc (Suc n)" "bit x i" "i \<noteq> t"
      by metis
    then have "\<exists>i. Suc t \<le> i \<and> i < Suc t + Suc n \<and> bit x i"
      by (intro exI [of _ i]) simp
    from Suc.IH [OF this] have
      "length (takeWhile (\<lambda>i. \<not> bit x i) [Suc t..<Suc t + Suc n]) + Suc t = bsf_scan x (Suc t) n" .
    moreover have "[t..<t + Suc (Suc n)] = t # [Suc t..<Suc t + Suc n]"
      by (simp add: upt_rec)
    ultimately show ?thesis using False by simp
  qed
qed

lemma word32_nonzero_bit:
  fixes x :: "32 word"
  assumes "x \<noteq> 0"
  shows "\<exists>i\<le>31. bit x i"
proof -
  from assms obtain i where i: "bit x i"
    by (auto simp: bit_eq_iff)
  then have "i < 32"
    using bit_imp_le_length [of x i] by simp
  with i show ?thesis by (intro exI [of _ i]) simp
qed

lemma clz_spec_bsr_scan: "x \<noteq> 0 \<Longrightarrow> clz_spec x = 31 - bsr_scan x 31"
  using leading_zeros_bsr_scan [of 31 x] word32_nonzero_bit [of x]
  by (simp add: clz_spec_def)

lemma ctz_spec_bsf_scan: "x \<noteq> 0 \<Longrightarrow> bsf_scan x 0 31 = ctz_spec x"
proof -
  assume "x \<noteq> 0"
  then obtain i where "i \<le> 31" "bit x i"
    using word32_nonzero_bit by blast
  then have "\<exists>i. 0 \<le> i \<and> i < 0 + Suc 31 \<and> bit x i"
    by (intro exI [of _ i]) simp
  from trailing_zeros_bsf_scan [OF this] show ?thesis
    by (simp add: ctz_spec_def)
qed

lemma clz_spec_0: "clz_spec 0 = 32"
  by (simp add: clz_spec_def takeWhile_eq_all_conv [THEN iffD2])

lemma ctz_spec_0: "ctz_spec 0 = 32"
  by (simp add: ctz_spec_def takeWhile_eq_all_conv [THEN iffD2])

lemma xor_31_complement:
  assumes "k \<le> 31"
  shows "(of_nat k XOR 31 :: 32 word) = of_nat (31 - k)"
proof -
  from assms have "k \<in> {0,1,2,3,4,5,6,7,8,9,10,11,12,13,14,15,16,17,18,19,20,21,22,23,24,25,26,27,28,29,30,31}"
    unfolding insert_iff empty_iff by presburger
  then show ?thesis
    by (elim insertE emptyE) simp_all
qed

lemma bsr_xor_is_clz: "x \<noteq> 0 \<Longrightarrow> (of_nat (bsr_scan x 31) XOR 31 :: 32 word) = of_nat (clz_spec x)"
  using xor_31_complement [OF bsr_scan_le [of x 31]] by (simp add: clz_spec_bsr_scan)


lemma fuel_six: "6 \<le> fuel \<Longrightarrow> \<exists>k. fuel = Suc (Suc (Suc (Suc (Suc (Suc k)))))"
  by presburger

lemma run_clz_code:
  assumes "gpr m (reg_index src) = x" and "6 \<le> fuel"
      and "C = [I_test (Reg src) (Reg src), I_jcc ConditionX64_Equal n,
                I_bsr dst (Reg src), I_xor (Reg dst) (Imm 0x1f),
                I_jmp (Suc n), I_label n, I_mov (Reg dst) (Imm 32), I_label (Suc n)]"
  shows "\<exists>m'. run fuel C C m = Finished m' \<and> gpr m' (reg_index dst) = of_nat (clz_spec x)"
proof -
  from fuel_six [OF assms(2)] obtain k where k: "fuel = Suc (Suc (Suc (Suc (Suc (Suc k)))))" ..
  show ?thesis
  proof (cases "x = 0")
    case True
    with assms(1) show ?thesis
      unfolding k assms(3) by (simp add: clz_spec_0)
  next
    case False
    with assms(1) bsr_xor_is_clz [OF False] show ?thesis
      unfolding k assms(3) by (simp add: Let_def)
  qed
qed

lemma run_ctz_code:
  assumes "gpr m (reg_index src) = x" and "6 \<le> fuel"
      and "C = [I_test (Reg src) (Reg src), I_jcc ConditionX64_Equal n,
                I_bsf dst (Reg src),
                I_jmp (Suc n), I_label n, I_mov (Reg dst) (Imm 32), I_label (Suc n)]"
  shows "\<exists>m'. run fuel C C m = Finished m' \<and> gpr m' (reg_index dst) = of_nat (ctz_spec x)"
proof -
  from fuel_six [OF assms(2)] obtain k where k: "fuel = Suc (Suc (Suc (Suc (Suc (Suc k)))))" ..
  show ?thesis
  proof (cases "x = 0")
    case True
    with assms(1) show ?thesis
      unfolding k assms(3) by (simp add: ctz_spec_0)
  next
    case False
    with assms(1) ctz_spec_bsf_scan [OF False] show ?thesis
      unfolding k assms(3) by simp
  qed
qed


lemma lower_ctz_code:
  assumes "idx < length (instructions (func st))"
      and "resident st (op_a (instructions (func st) ! idx)) src"
      and "index (op_a (instructions (func st) ! idx)) \<noteq> idx"
      and "0 < nextLabel (build st)"
  shows "\<exists>st'. lowerInst_BITCOUNTRZ_UINT restore dst idx st = Inr st'
           \<and> newCode st st' =
               [I_test (Reg src) (Reg src), I_jcc ConditionX64_Equal (nextLabel (build st)),
                I_bsf dst (Reg src),
                I_jmp (Suc (nextLabel (build st))), I_label (nextLabel (build st)),
                I_mov (Reg dst) (Imm 32), I_label (Suc (nextLabel (build st)))]"
proof -
  let ?st0 = "set_regX64 idx dst st"
  have r: "resident ?st0 (op_a (instructions (func st) ! idx)) src"
    using assms by (simp add: resident_set_regX64)
  show ?thesis
    using assms r
    by (simp add: lowerInst_BITCOUNTRZ_UINT_def Let_def op_a_set_regX64
          regOp_resident build_steps inst_regX64_set newCode_def)
qed

lemma clz_spec_1: "clz_spec 1 = 31"
  by (simp add: clz_spec_def upt_rec bit_1_iff)

lemma ctz_spec_1: "ctz_spec 1 = 0"
  by (simp add: ctz_spec_def upt_rec)

text \<open>
  C3. For every 32-bit input \<open>x\<close> held in the operand register, the code emitted for
  \<^verbatim>\<open>BITCOUNTLZ_UINT\<close> runs to its end and leaves the number of leading zero bits of \<open>x\<close>
  in the result register, and the code emitted for \<^verbatim>\<open>BITCOUNTRZ_UINT\<close> leaves the number
  of trailing zero bits; the zero input takes the branch that stores 32 and never
  reaches \<^verbatim>\<open>bsr\<close> or \<^verbatim>\<open>bsf\<close>. In particular the counts are 32 and 32 at 0, and 31 and 0
  at 1. The result register may be the operand register.
\<close>

theorem bitcount_zero_input:
  assumes "idx < length (instructions (func st))"
      and "resident st (op_a (instructions (func st) ! idx)) src"
      and "index (op_a (instructions (func st) ! idx)) \<noteq> idx"
      and "0 < nextLabel (build st)"
      and "gpr m (reg_index src) = x"
      and "6 \<le> fuel"
  shows "(\<exists>st' m'. lowerInst_BITCOUNTLZ_UINT restore dst idx st = Inr st'
            \<and> run fuel (newCode st st') (newCode st st') m = Finished m'
            \<and> gpr m' (reg_index dst) = of_nat (clz_spec x))
       \<and> (\<exists>st' m'. lowerInst_BITCOUNTRZ_UINT restore dst idx st = Inr st'
            \<and> run fuel (newCode st st') (newCode st st') m = Finished m'
            \<and> gpr m' (reg_index dst) = of_nat (ctz_spec x))
       \<and> clz_spec 0 = 32 \<and> ctz_spec 0 = 32 \<and> clz_spec 1 = 31 \<and> ctz_spec 1 = 0"
proof -
  from lower_clz_code [OF assms(1-4), of restore dst] obtain st1 where
    st1: "lowerInst_BITCOUNTLZ_UINT restore dst idx st = Inr st1"
      and c1: "newCode st st1 =
               [I_test (Reg src) (Reg src), I_jcc ConditionX64_Equal (nextLabel (build st)),
                I_bsr dst (Reg src), I_xor (Reg dst) (Imm 0x1f),
                I_jmp (Suc (nextLabel (build st))), I_label (nextLabel (build st)),
                I_mov (Reg dst) (Imm 32), I_label (Suc (nextLabel (build st)))]"
    by blast
  from lower_ctz_code [OF assms(1-4), of restore dst] obtain st2 where
    st2: "lowerInst_BITCOUNTRZ_UINT restore dst idx st = Inr st2"
      and c2: "newCode st st2 =
               [I_test (Reg src) (Reg src), I_jcc ConditionX64_Equal (nextLabel (build st)),
                I_bsf dst (Reg src),
                I_jmp (Suc (nextLabel (build st))), I_label (nextLabel (build st)),
                I_mov (Reg dst) (Imm 32), I_label (Suc (nextLabel (build st)))]"
    by blast
  from run_clz_code [OF assms(5,6) c1] st1 have lz:
    "\<exists>st' m'. lowerInst_BITCOUNTLZ_UINT restore dst idx st = Inr st'
            \<and> run fuel (newCode st st') (newCode st st') m = Finished m'
            \<and> gpr m' (reg_index dst) = of_nat (clz_spec x)"
    by blast
  from run_ctz_code [OF assms(5,6) c2] st2 have rz:
    "\<exists>st' m'. lowerInst_BITCOUNTRZ_UINT restore dst idx st = Inr st'
            \<and> run fuel (newCode st st') (newCode st st') m = Finished m'
            \<and> gpr m' (reg_index dst) = of_nat (ctz_spec x)"
    by blast
  from lz rz show ?thesis
    by (simp only: clz_spec_0 ctz_spec_0 clz_spec_1 ctz_spec_1 simp_thms)
qed

lemma example_resident_1:
  "resident (example_lowering (example_inst (inst_op 0) b c d)) (inst_op 0)
     \<lparr>reg_size = SizeX64_dword, reg_index = 1\<rparr>"
  by (simp add: resident_def example_lowering_def example_function_def example_value_def
        inst_op_def noreg_def)

theorem bitcount_zero_input_witness:
  "(\<exists>st' m'. lowerInst_BITCOUNTLZ_UINT no_restore \<lparr>reg_size = SizeX64_dword, reg_index = 3\<rparr> 2
                (example_lowering (example_inst (inst_op 0) no_op no_op no_op)) = Inr st'
      \<and> run 6 (newCode (example_lowering (example_inst (inst_op 0) no_op no_op no_op)) st')
               (newCode (example_lowering (example_inst (inst_op 0) no_op no_op no_op)) st')
               (example_machine 0 0) = Finished m'
      \<and> gpr m' 3 = 32)
   \<and> (\<exists>st' m'. lowerInst_BITCOUNTRZ_UINT no_restore \<lparr>reg_size = SizeX64_dword, reg_index = 1\<rparr> 2
                (example_lowering (example_inst (inst_op 0) no_op no_op no_op)) = Inr st'
      \<and> run 6 (newCode (example_lowering (example_inst (inst_op 0) no_op no_op no_op)) st')
               (newCode (example_lowering (example_inst (inst_op 0) no_op no_op no_op)) st')
               (example_machine 1 0) = Finished m'
      \<and> gpr m' 1 = 0)"
proof -
  let ?st = "example_lowering (example_inst (inst_op 0) no_op no_op no_op)"
  let ?src = "\<lparr>reg_size = SizeX64_dword, reg_index = 1\<rparr>"
  have h1: "2 < length (instructions (func ?st))"
    by (simp add: example_lowering_def example_function_def)
  have a: "op_a (instructions (func ?st) ! 2) = inst_op 0"
    by (simp add: example_lowering_def example_function_def example_inst_def)
  have h2: "resident ?st (op_a (instructions (func ?st) ! 2)) ?src"
    unfolding a by (rule example_resident_1)
  have h3: "index (op_a (instructions (func ?st) ! 2)) \<noteq> 2"
    unfolding a by (simp add: inst_op_def)
  have h4: "0 < nextLabel (build ?st)"
    by (simp add: example_lowering_def)
  have m0: "gpr (example_machine 0 0) (reg_index ?src) = 0"
    by (simp add: example_machine_def)
  have m1: "gpr (example_machine 1 0) (reg_index ?src) = 1"
    by (simp add: example_machine_def)
  have f: "(6::nat) \<le> 6" by simp
  note t0 = bitcount_zero_input [OF h1 h2 h3 h4 m0 f, of no_restore "\<lparr>reg_size = SizeX64_dword, reg_index = 3\<rparr>"]
  note t1 = bitcount_zero_input [OF h1 h2 h3 h4 m1 f, of no_restore ?src]
  from t0 have z: "clz_spec 0 = 32" and o: "ctz_spec 1 = 0" by blast+
  from conjunct1 [OF t0] have lz: "\<exists>st' m'. lowerInst_BITCOUNTLZ_UINT no_restore \<lparr>reg_size = SizeX64_dword, reg_index = 3\<rparr> 2 ?st = Inr st'
      \<and> run 6 (newCode ?st st') (newCode ?st st') (example_machine 0 0) = Finished m'
      \<and> gpr m' 3 = of_nat (clz_spec 0)"
    by simp
  from conjunct1 [OF conjunct2 [OF t1]] have rz: "\<exists>st' m'. lowerInst_BITCOUNTRZ_UINT no_restore ?src 2 ?st = Inr st'
      \<and> run 6 (newCode ?st st') (newCode ?st st') (example_machine 1 0) = Finished m'
      \<and> gpr m' 1 = of_nat (ctz_spec 1)"
    by simp
  from lz rz show ?thesis unfolding z o by simp
qed

section \<open>Two-way conditional branches\<close>

lemma placeLabel_eq:
  "placeLabel l b =
     (\<lparr>label_id = (if label_id l = 0 then nextLabel b else label_id l)\<rparr>,
      \<lparr>emitted = emitted b,
       nextLabel = (if label_id l = 0 then Suc (nextLabel b) else nextLabel b)\<rparr>)"
  by (simp add: placeLabel_def)

lemma frame_refl [simp]: "frame st st"
  by (simp add: frame_def)

lemma frame_trans: "frame st st1 \<Longrightarrow> frame st1 st2 \<Longrightarrow> frame st st2"
  by (auto simp: frame_def)

lemma frame_emitS [simp]: "frame st (emitS i st)"
  by (simp add: frame_def emitS_build block_label_def)

lemma frame_resident: "frame st st' \<Longrightarrow> resident st' op r = resident st op r"
  by (simp add: frame_def resident_def)

lemma frame_is_block: "frame st st' \<Longrightarrow> is_block st' op = is_block st op"
  by (simp add: frame_def is_block_def)

lemma onRef_jcc_block:
  assumes "i < length (blocks (func st))" and "0 < nextLabel (build st)"
  shows "\<exists>st1. onRef (jcc c) (Ref_block i) fresh st = (fresh, st1)
           \<and> emitted (build st1) = emitted (build st) @ [I_jcc c (block_label st1 i)]
           \<and> 0 < block_label st1 i \<and> frame st st1"
  using assms
  by (auto simp: onRef_def deref_def assign_def jcc_def placeLabel_eq emit_def frame_def
        block_label_def nth_list_update)




lemma blockOp_is_block: "is_block st op \<Longrightarrow> blockOp (func st) op = Inr (index op)"
  by (simp add: is_block_def blockOp_def)

lemma labelOp_is_block: "is_block st op \<Longrightarrow> labelOp (func st) op = Inr (Ref_block (index op))"
  by (simp add: labelOp_def blockOp_is_block)

lemma is_block_length: "is_block st op \<Longrightarrow> index op < length (blocks (func st))"
  by (simp add: is_block_def)


lemma frame_nextLabel: "frame st st' \<Longrightarrow> 0 < nextLabel (build st) \<Longrightarrow> 0 < nextLabel (build st')"
  by (simp add: frame_def)

lemma frame_length: "frame st st' \<Longrightarrow> length (blocks (func st')) = length (blocks (func st))"
  by (simp add: frame_def)

lemma frame_label: "frame st st' \<Longrightarrow> 0 < block_label st j \<Longrightarrow> block_label st' j = block_label st j"
  by (simp add: frame_def)




lemma memRegTagOp_resident:
  "resident st op r \<Longrightarrow> memRegTagOp restore op st = Inr (Reg r, st)"
  using regOp_resident [of st op r restore] by (simp add: memRegTagOp_def resident_def)

lemma memRegTagOp_VmReg:
  "kind op = IrOpKind_VmReg \<Longrightarrow> memRegTagOp restore op st = Inr (Mem (luauRegTag (index op)), st)"
  by (simp add: memRegTagOp_def vmRegOp_def)

lemma memRegTagOp_VmConst:
  "kind op = IrOpKind_VmConst \<Longrightarrow> memRegTagOp restore op st = Inr (Mem (luauConstantTag (index op)), st)"
  by (simp add: memRegTagOp_def vmConstOp_def)

lemma resident_kind: "resident st op r \<Longrightarrow> kind op = IrOpKind_Inst"
  by (simp add: resident_def)






lemma example_resident:
  "r < 2 \<Longrightarrow> resident (example_lowering i) (inst_op r) \<lparr>reg_size = SizeX64_dword, reg_index = Suc r\<rparr>"
  by (auto simp: resident_def example_lowering_def example_function_def example_value_def
        inst_op_def noreg_def less_Suc_eq numeral_2_eq_2)



section \<open>Exit trampolines\<close>

lemma onRef_fresh_jcc:
  "onRef (jcc c) Ref_fresh \<lparr>label_id = 0\<rparr> st =
     (\<lparr>label_id = nextLabel (build st)\<rparr>,
      st\<lparr>build := \<lparr>emitted = emitted (build st) @ [I_jcc c (nextLabel (build st))],
                   nextLabel = Suc (nextLabel (build st))\<rparr>\<rparr>)"
  by (simp add: onRef_def deref_def assign_def jcc_def placeLabel_eq emit_def)

lemma onRef_fresh_jmp:
  "onRef jmp Ref_fresh \<lparr>label_id = 0\<rparr> st =
     (\<lparr>label_id = nextLabel (build st)\<rparr>,
      st\<lparr>build := \<lparr>emitted = emitted (build st) @ [I_jmp (nextLabel (build st))],
                   nextLabel = Suc (nextLabel (build st))\<rparr>\<rparr>)"
  by (simp add: onRef_def deref_def assign_def jmp_def placeLabel_eq emit_def)

lemma onRef_fresh_setLabel_old:
  "0 < n \<Longrightarrow> onRef setLabel Ref_fresh \<lparr>label_id = n\<rparr> st =
     (\<lparr>label_id = n\<rparr>,
      st\<lparr>build := \<lparr>emitted = emitted (build st) @ [I_label n],
                   nextLabel = nextLabel (build st)\<rparr>\<rparr>)"
  by (simp add: onRef_def deref_def assign_def setLabel_def placeLabel_eq emit_def)

lemma onRef_helper_jcc:
  "0 < label_id (exitContinueVmClearNativeFlag (helpers st)) \<Longrightarrow>
   onRef (jcc c) Ref_exitContinueVmClearNativeFlag fresh st =
     (fresh,
      st\<lparr>build := \<lparr>emitted = emitted (build st)
                      @ [I_jcc c (label_id (exitContinueVmClearNativeFlag (helpers st)))],
                   nextLabel = nextLabel (build st)\<rparr>\<rparr>)"
  by (simp add: onRef_def deref_def assign_def jcc_def placeLabel_def emit_def)

lemma onRef_helper_jmp:
  "0 < label_id (exitContinueVmClearNativeFlag (helpers st)) \<Longrightarrow>
   onRef jmp Ref_exitContinueVmClearNativeFlag fresh st =
     (fresh,
      st\<lparr>build := \<lparr>emitted = emitted (build st)
                      @ [I_jmp (label_id (exitContinueVmClearNativeFlag (helpers st)))],
                   nextLabel = nextLabel (build st)\<rparr>\<rparr>)"
  by (simp add: onRef_def deref_def assign_def jmp_def placeLabel_def emit_def)

lemma onRef_handler_jcc:
  "0 < label_id (self (exitHandlers st ! i)) \<Longrightarrow>
   onRef (jcc c) (Ref_exitHandler i) fresh st =
     (fresh,
      st\<lparr>build := \<lparr>emitted = emitted (build st) @ [I_jcc c (label_id (self (exitHandlers st ! i)))],
                   nextLabel = nextLabel (build st)\<rparr>\<rparr>)"
  by (simp add: onRef_def deref_def assign_def jcc_def placeLabel_def emit_def)

lemma onRef_handler_jmp:
  "0 < label_id (self (exitHandlers st ! i)) \<Longrightarrow>
   onRef jmp (Ref_exitHandler i) fresh st =
     (fresh,
      st\<lparr>build := \<lparr>emitted = emitted (build st) @ [I_jmp (label_id (self (exitHandlers st ! i)))],
                   nextLabel = nextLabel (build st)\<rparr>\<rparr>)"
  by (simp add: onRef_def deref_def assign_def jmp_def placeLabel_def emit_def)


lemma exits_wf_helper:
  "exits_wf K st \<Longrightarrow> 0 < label_id (exitContinueVmClearNativeFlag (helpers st))
     \<and> label_id (exitContinueVmClearNativeFlag (helpers st)) < nextLabel (build st)"
  by (simp add: exits_wf_def Let_def)

lemma exits_wf_known:
  "exits_wf K st \<Longrightarrow> exitHandlerMap st pc = Some i \<Longrightarrow>
     i < length (exitHandlers st) \<and> pcpos (exitHandlers st ! i) = pc
     \<and> 0 < label_id (self (exitHandlers st ! i))
     \<and> label_id (self (exitHandlers st ! i)) < nextLabel (build st)
     \<and> label_id (self (exitHandlers st ! i)) \<noteq> label_id (exitContinueVmClearNativeFlag (helpers st))
     \<and> pc \<noteq> kVmExitEntryGuardPc K"
  by (simp add: exits_wf_def Let_def) metis

lemma jump_VmExit_guard:
  assumes "exits_wf K st" and "kind t = IrOpKind_VmExit" and "index t = kVmExitEntryGuardPc K"
  shows "jumpOrAbortOnUndef K cond t next st =
           Inr (st\<lparr>build := \<lparr>emitted = emitted (build st) @
                        [if cond = ConditionX64_Count
                         then I_jmp (label_id (exitContinueVmClearNativeFlag (helpers st)))
                         else I_jcc cond (label_id (exitContinueVmClearNativeFlag (helpers st)))],
                      nextLabel = nextLabel (build st)\<rparr>\<rparr>)"
  using assms exits_wf_helper [OF assms(1)]
  by (simp add: jumpOrAbortOnUndef_def Let_def getTargetLabel_def vmExitOp_def
        onRef_helper_jcc onRef_helper_jmp finalizeTargetLabel_def)

lemma jump_VmExit_known:
  assumes "exits_wf K st" and "kind t = IrOpKind_VmExit" and "exitHandlerMap st (index t) = Some i"
  shows "jumpOrAbortOnUndef K cond t next st =
           Inr (st\<lparr>build := \<lparr>emitted = emitted (build st) @
                        [if cond = ConditionX64_Count
                         then I_jmp (label_id (self (exitHandlers st ! i)))
                         else I_jcc cond (label_id (self (exitHandlers st ! i)))],
                      nextLabel = nextLabel (build st)\<rparr>\<rparr>)"
  using assms exits_wf_known [OF assms(1,3)]
  by (simp add: jumpOrAbortOnUndef_def Let_def getTargetLabel_def vmExitOp_def
        onRef_handler_jcc onRef_handler_jmp finalizeTargetLabel_def)

lemma jump_VmExit_new:
  assumes "exits_wf K st" and "kind t = IrOpKind_VmExit" and "exitHandlerMap st (index t) = None"
      and "index t \<noteq> kVmExitEntryGuardPc K"
  shows "jumpOrAbortOnUndef K cond t next st =
           Inr (st\<lparr>build := \<lparr>emitted = emitted (build st) @
                        [if cond = ConditionX64_Count
                         then I_jmp (nextLabel (build st))
                         else I_jcc cond (nextLabel (build st))],
                      nextLabel = Suc (nextLabel (build st))\<rparr>,
                    exitHandlerMap := (exitHandlerMap st)(index t \<mapsto> length (exitHandlers st)),
                    exitHandlers := exitHandlers st
                       @ [\<lparr>self = \<lparr>label_id = nextLabel (build st)\<rparr>, pcpos = index t\<rparr>]\<rparr>)"
  using assms exits_wf_helper [OF assms(1)]
  by (simp add: jumpOrAbortOnUndef_def Let_def getTargetLabel_def vmExitOp_def
        onRef_fresh_jcc onRef_fresh_jmp finalizeTargetLabel_def)


lemma onRef_block_exits:
  assumes "f = jcc c \<or> f = jmp"
  shows "helpers (snd (onRef f (Ref_block i) fresh st)) = helpers st
       \<and> exitHandlerMap (snd (onRef f (Ref_block i) fresh st)) = exitHandlerMap st
       \<and> exitHandlers (snd (onRef f (Ref_block i) fresh st)) = exitHandlers st
       \<and> nextLabel (build st) \<le> nextLabel (build (snd (onRef f (Ref_block i) fresh st)))"
  using assms
  by (auto simp: onRef_def deref_def assign_def jcc_def jmp_def placeLabel_eq emit_def)

lemma finalizeTargetLabel_other:
  "kind t \<noteq> IrOpKind_VmExit \<Longrightarrow> finalizeTargetLabel t fresh st = st"
  by (simp add: finalizeTargetLabel_def)

lemma jump_other:
  assumes "kind t \<noteq> IrOpKind_VmExit" and "jumpOrAbortOnUndef K cond t next st = Inr st1"
  shows "helpers st1 = helpers st \<and> exitHandlerMap st1 = exitHandlerMap st
       \<and> exitHandlers st1 = exitHandlers st \<and> nextLabel (build st) \<le> nextLabel (build st1)"
proof (cases "kind t = IrOpKind_Undef")
  case True
  show ?thesis
  proof (cases "cond = ConditionX64_Count")
    case c: True
    with True assms show ?thesis
      by (auto simp: jumpOrAbortOnUndef_def Let_def getTargetLabel_def finalizeTargetLabel_other
            emitS_build)
  next
    case c: False
    have n: "0 < nextLabel (build st) \<or> nextLabel (build st) = 0" by auto
    from True c assms show ?thesis
      by (auto simp: jumpOrAbortOnUndef_def Let_def getTargetLabel_def finalizeTargetLabel_other
            emitS_build onRef_def deref_def assign_def jcc_def setLabel_def placeLabel_eq emit_def)
  qed
next
  case False
  from False assms obtain i where r: "labelOp (func st) t = Inr (Ref_block i)"
    and b: "blockOp (func st) t = Inr i"
    by (auto simp: jumpOrAbortOnUndef_def Let_def getTargetLabel_def labelOp_def bind_err_def
          split: sum.splits)
  note e1 = onRef_block_exits [of "jcc cond" cond, OF disjI1 [OF refl], of i "\<lparr>label_id = 0\<rparr>" st]
  note e2 = onRef_block_exits [of jmp cond, OF disjI2 [OF refl], of i "\<lparr>label_id = 0\<rparr>" st]
  from False assms r b e1 e2 show ?thesis
    by (auto simp: jumpOrAbortOnUndef_def Let_def getTargetLabel_def finalizeTargetLabel_other
          split_def split: if_splits)
qed

lemma exits_wf_mono:
  assumes "exits_wf K st" and "helpers st1 = helpers st" and "exitHandlerMap st1 = exitHandlerMap st"
      and "exitHandlers st1 = exitHandlers st" and "nextLabel (build st) \<le> nextLabel (build st1)"
  shows "exits_wf K st1"
  using assms unfolding exits_wf_def Let_def
  by (auto intro: less_le_trans)


lemma exits_wf_add:
  assumes wf: "exits_wf K st" and new: "exitHandlerMap st pc = None"
      and g: "pc \<noteq> kVmExitEntryGuardPc K"
  shows "exits_wf K
           (st\<lparr>build := \<lparr>emitted = E, nextLabel = Suc (nextLabel (build st))\<rparr>,
               exitHandlerMap := (exitHandlerMap st)(pc \<mapsto> length (exitHandlers st)),
               exitHandlers := exitHandlers st
                  @ [\<lparr>self = \<lparr>label_id = nextLabel (build st)\<rparr>, pcpos = pc\<rparr>]\<rparr>)"
proof -
  let ?hs = "exitHandlers st"
  let ?n = "nextLabel (build st)"
  let ?hid = "label_id (exitContinueVmClearNativeFlag (helpers st))"
  from wf have h: "0 < ?hid" "?hid < ?n"
    by (simp_all add: exits_wf_def Let_def)
  from wf have old: "\<And>i. i < length ?hs \<Longrightarrow>
        0 < label_id (self (?hs ! i)) \<and> label_id (self (?hs ! i)) < ?n
        \<and> label_id (self (?hs ! i)) \<noteq> ?hid \<and> pcpos (?hs ! i) \<noteq> kVmExitEntryGuardPc K
        \<and> exitHandlerMap st (pcpos (?hs ! i)) = Some i"
    by (simp add: exits_wf_def Let_def)
  from wf have m: "\<And>q i. exitHandlerMap st q = Some i \<Longrightarrow> i < length ?hs \<and> pcpos (?hs ! i) = q"
    by (simp add: exits_wf_def Let_def)
  from wf have d: "distinct (map (\<lambda>h. label_id (self h)) ?hs)"
    by (simp add: exits_wf_def Let_def)
  have notin: "?n \<notin> set (map (\<lambda>h. label_id (self h)) ?hs)"
  proof
    assume "?n \<in> set (map (\<lambda>h. label_id (self h)) ?hs)"
    then obtain i where "i < length ?hs" "label_id (self (?hs ! i)) = ?n"
      by (auto simp: in_set_conv_nth)
    with old [of i] show False by simp
  qed
  have pcs: "\<And>i. i < length ?hs \<Longrightarrow> pcpos (?hs ! i) \<noteq> pc"
    using old new by fastforce
  show ?thesis
    unfolding exits_wf_def Let_def
    using h old m d notin pcs g
    by (auto simp: nth_append less_Suc_eq)
qed

lemma exitLabel_unchanged:
  "helpers st1 = helpers st \<Longrightarrow> exitHandlerMap st1 = exitHandlerMap st
   \<Longrightarrow> exitHandlers st1 = exitHandlers st \<Longrightarrow> exitLabel K st1 pc = exitLabel K st pc"
  by (simp add: exitLabel_def split: option.splits)

lemma lastBranch_single:
  "emitted (build st1) = emitted (build st) @ [if c then I_jmp x else I_jcc cond x]
   \<Longrightarrow> lastBranch st st1 = Some x"
  by (simp add: lastBranch_def newCode_def)

lemma jump_step:
  assumes wf: "exits_wf K st" and r: "jumpOrAbortOnUndef K cond t next st = Inr st1"
  shows "exits_wf K st1 \<and> helpers st1 = helpers st
       \<and> (\<forall>pc. exitLabel K st pc \<noteq> 0 \<longrightarrow> exitLabel K st1 pc = exitLabel K st pc)
       \<and> (kind t = IrOpKind_VmExit \<longrightarrow>
            lastBranch st st1 = Some (exitLabel K st1 (index t)) \<and> exitLabel K st1 (index t) \<noteq> 0)"
proof (cases "kind t = IrOpKind_VmExit")
  case False
  from jump_other [OF False r] have same:
    "helpers st1 = helpers st" "exitHandlerMap st1 = exitHandlerMap st"
    "exitHandlers st1 = exitHandlers st" "nextLabel (build st) \<le> nextLabel (build st1)"
    by blast+
  from exits_wf_mono [OF wf same] exitLabel_unchanged [OF same(1-3)] same(1) False
  show ?thesis by simp
next
  case True
  show ?thesis
  proof (cases "index t = kVmExitEntryGuardPc K")
    case g: True
    let ?st1 = "st\<lparr>build := \<lparr>emitted = emitted (build st) @
                        [if cond = ConditionX64_Count
                         then I_jmp (label_id (exitContinueVmClearNativeFlag (helpers st)))
                         else I_jcc cond (label_id (exitContinueVmClearNativeFlag (helpers st)))],
                      nextLabel = nextLabel (build st)\<rparr>\<rparr>"
    from jump_VmExit_guard [OF wf True g, of cond "next"] r have s: "st1 = ?st1" by simp
    have w: "exits_wf K ?st1" by (rule exits_wf_mono [OF wf]) simp_all
    have l: "lastBranch st ?st1 = Some (label_id (exitContinueVmClearNativeFlag (helpers st)))"
      by (rule lastBranch_single [of _ _ "cond = ConditionX64_Count" _ cond]) simp
    have e: "\<And>pc. exitLabel K ?st1 pc = exitLabel K st pc"
      by (rule exitLabel_unchanged) simp_all
    from w l e g exits_wf_helper [OF wf] show ?thesis
      unfolding s by (simp add: exitLabel_def)
  next
    case g: False
    show ?thesis
    proof (cases "exitHandlerMap st (index t)")
      case (Some i)
      let ?x = "label_id (self (exitHandlers st ! i))"
      let ?st1 = "st\<lparr>build := \<lparr>emitted = emitted (build st) @
                        [if cond = ConditionX64_Count then I_jmp ?x else I_jcc cond ?x],
                      nextLabel = nextLabel (build st)\<rparr>\<rparr>"
      from jump_VmExit_known [OF wf True Some, of cond "next"] r have s: "st1 = ?st1" by simp
      have w: "exits_wf K ?st1" by (rule exits_wf_mono [OF wf]) simp_all
      have l: "lastBranch st ?st1 = Some ?x"
        by (rule lastBranch_single [of _ _ "cond = ConditionX64_Count" _ cond]) simp
      have e: "\<And>pc. exitLabel K ?st1 pc = exitLabel K st pc"
        by (rule exitLabel_unchanged) simp_all
      from w l e g Some exits_wf_known [OF wf Some] show ?thesis
        unfolding s by (simp add: exitLabel_def)
    next
      case None
      let ?n = "nextLabel (build st)"
      let ?E = "emitted (build st) @ [if cond = ConditionX64_Count then I_jmp ?n else I_jcc cond ?n]"
      let ?st1 = "st\<lparr>build := \<lparr>emitted = ?E, nextLabel = Suc ?n\<rparr>,
                    exitHandlerMap := (exitHandlerMap st)(index t \<mapsto> length (exitHandlers st)),
                    exitHandlers := exitHandlers st
                       @ [\<lparr>self = \<lparr>label_id = ?n\<rparr>, pcpos = index t\<rparr>]\<rparr>"
      from jump_VmExit_new [OF wf True None g, of cond "next"] r have s: "st1 = ?st1" by simp
      have w: "exits_wf K ?st1" by (rule exits_wf_add [OF wf None g])
      have l: "lastBranch st ?st1 = Some ?n"
        by (rule lastBranch_single [of _ _ "cond = ConditionX64_Count" _ cond]) simp
      have n0: "0 < ?n" using exits_wf_helper [OF wf] by simp
      have here: "exitLabel K ?st1 (index t) = ?n"
        using g by (simp add: exitLabel_def)
      have stable: "\<And>pc. exitLabel K st pc \<noteq> 0 \<Longrightarrow> exitLabel K ?st1 pc = exitLabel K st pc"
      proof -
        fix pc assume a: "exitLabel K st pc \<noteq> 0"
        show "exitLabel K ?st1 pc = exitLabel K st pc"
        proof (cases "pc = kVmExitEntryGuardPc K")
          case True
          then show ?thesis by (simp add: exitLabel_def)
        next
          case False
          have ne: "pc \<noteq> index t"
          proof
            assume "pc = index t"
            with a None False show False by (simp add: exitLabel_def)
          qed
          from a False obtain i where i: "exitHandlerMap st pc = Some i"
            by (cases "exitHandlerMap st pc") (simp_all add: exitLabel_def)
          from exits_wf_known [OF wf i] have "i < length (exitHandlers st)" by simp
          with False i ne show ?thesis by (simp add: exitLabel_def nth_append)
        qed
      qed
      from w l here n0 stable show ?thesis
        unfolding s by simp
    qed
  qed
qed


lemma resolveEdges_Cons:
  assumes "resolveEdges K next (e # es) st = Inr (ls, st')"
  obtains st1 ls' where "jumpOrAbortOnUndef K (fst e) (snd e) next st = Inr st1"
    and "resolveEdges K next es st1 = Inr (ls', st')" and "ls = lastBranch st st1 # ls'"
  using assms by (auto simp: bind_err_def split: sum.splits)

lemma resolveEdges_labels:
  "exits_wf K st \<Longrightarrow> resolveEdges K next es st = Inr (ls, st') \<Longrightarrow>
     exits_wf K st' \<and> length ls = length es \<and> helpers st' = helpers st
     \<and> (\<forall>pc. exitLabel K st pc \<noteq> 0 \<longrightarrow> exitLabel K st' pc = exitLabel K st pc)
     \<and> (\<forall>i<length es. kind (snd (es ! i)) = IrOpKind_VmExit \<longrightarrow>
           ls ! i = Some (exitLabel K st' (index (snd (es ! i))))
           \<and> exitLabel K st' (index (snd (es ! i))) \<noteq> 0)"
proof (induction es arbitrary: st ls)
  case Nil
  then show ?case by simp
next
  case (Cons e es)
  from Cons.prems(2) obtain st1 ls' where
    j: "jumpOrAbortOnUndef K (fst e) (snd e) next st = Inr st1"
    and rest: "resolveEdges K next es st1 = Inr (ls', st')"
    and ls: "ls = lastBranch st st1 # ls'"
    by (rule resolveEdges_Cons)
  from jump_step [OF Cons.prems(1) j] have
    w1: "exits_wf K st1" and h1: "helpers st1 = helpers st"
    and s1: "\<And>pc. exitLabel K st pc \<noteq> 0 \<Longrightarrow> exitLabel K st1 pc = exitLabel K st pc"
    and b1: "kind (snd e) = IrOpKind_VmExit \<Longrightarrow>
              lastBranch st st1 = Some (exitLabel K st1 (index (snd e)))
              \<and> exitLabel K st1 (index (snd e)) \<noteq> 0"
    by blast+
  from Cons.IH [OF w1 rest] have
    w2: "exits_wf K st'" and len: "length ls' = length es" and h2: "helpers st' = helpers st1"
    and s2: "\<And>pc. exitLabel K st1 pc \<noteq> 0 \<Longrightarrow> exitLabel K st' pc = exitLabel K st1 pc"
    and b2: "\<And>i. i < length es \<Longrightarrow> kind (snd (es ! i)) = IrOpKind_VmExit \<Longrightarrow>
              ls' ! i = Some (exitLabel K st' (index (snd (es ! i))))
              \<and> exitLabel K st' (index (snd (es ! i))) \<noteq> 0"
    by blast+
  have stable: "\<forall>pc. exitLabel K st pc \<noteq> 0 \<longrightarrow> exitLabel K st' pc = exitLabel K st pc"
    using s1 s2 by metis
  have edges: "\<forall>i<length (e # es). kind (snd ((e # es) ! i)) = IrOpKind_VmExit \<longrightarrow>
           ls ! i = Some (exitLabel K st' (index (snd ((e # es) ! i))))
           \<and> exitLabel K st' (index (snd ((e # es) ! i))) \<noteq> 0"
  proof (intro allI impI)
    fix i assume i: "i < length (e # es)" and k: "kind (snd ((e # es) ! i)) = IrOpKind_VmExit"
    show "ls ! i = Some (exitLabel K st' (index (snd ((e # es) ! i))))
           \<and> exitLabel K st' (index (snd ((e # es) ! i))) \<noteq> 0"
    proof (cases i)
      case 0
      with k have "kind (snd e) = IrOpKind_VmExit" by simp
      from b1 [OF this] s2 [of "index (snd e)"] 0 ls show ?thesis by simp
    next
      case (Suc n)
      with i k have "n < length es" "kind (snd (es ! n)) = IrOpKind_VmExit" by simp_all
      from b2 [OF this] Suc ls show ?thesis by simp
    qed
  qed
  from w2 len h1 h2 stable edges ls show ?case by simp
qed

lemma exitLabel_inj:
  assumes wf: "exits_wf K st" and p: "exitLabel K st p \<noteq> 0"
      and eq: "exitLabel K st p = exitLabel K st q"
  shows "p = q"
proof -
  let ?g = "kVmExitEntryGuardPc K"
  let ?hid = "label_id (exitContinueVmClearNativeFlag (helpers st))"
  have known: "\<And>r. r \<noteq> ?g \<Longrightarrow> exitLabel K st r \<noteq> 0 \<Longrightarrow>
         \<exists>i. exitHandlerMap st r = Some i \<and> i < length (exitHandlers st)
             \<and> exitLabel K st r = label_id (self (exitHandlers st ! i))
             \<and> pcpos (exitHandlers st ! i) = r \<and> exitLabel K st r \<noteq> ?hid"
  proof -
    fix r assume r: "r \<noteq> ?g" "exitLabel K st r \<noteq> 0"
    then obtain i where i: "exitHandlerMap st r = Some i"
      by (cases "exitHandlerMap st r") (simp_all add: exitLabel_def)
    from exits_wf_known [OF wf i] r i
    show "\<exists>i. exitHandlerMap st r = Some i \<and> i < length (exitHandlers st)
             \<and> exitLabel K st r = label_id (self (exitHandlers st ! i))
             \<and> pcpos (exitHandlers st ! i) = r \<and> exitLabel K st r \<noteq> ?hid"
      by (simp add: exitLabel_def)
  qed
  from wf have d: "distinct (map (\<lambda>h. label_id (self h)) (exitHandlers st))"
    by (simp add: exits_wf_def Let_def)
  from p eq have q: "exitLabel K st q \<noteq> 0" by simp
  show ?thesis
  proof (cases "p = ?g")
    case pg: True
    show ?thesis
    proof (cases "q = ?g")
      case True
      with pg show ?thesis by simp
    next
      case False
      from known [OF False q] eq pg show ?thesis by (simp add: exitLabel_def)
    qed
  next
    case pg: False
    show ?thesis
    proof (cases "q = ?g")
      case True
      from known [OF pg p] eq True show ?thesis by (simp add: exitLabel_def)
    next
      case False
      from known [OF pg p] obtain i where i: "i < length (exitHandlers st)"
        "exitLabel K st p = label_id (self (exitHandlers st ! i))" "pcpos (exitHandlers st ! i) = p"
        by blast
      from known [OF False q] obtain j where j: "j < length (exitHandlers st)"
        "exitLabel K st q = label_id (self (exitHandlers st ! j))" "pcpos (exitHandlers st ! j) = q"
        by blast
      from i j eq have "label_id (self (exitHandlers st ! i)) = label_id (self (exitHandlers st ! j))"
        by simp
      with nth_eq_iff_index_eq [OF d, of i j] i(1) j(1) have "i = j"
        by simp
      with i j show ?thesis by simp
    qed
  qed
qed

lemma exits_wf_no_guard_handler:
  "exits_wf K st \<Longrightarrow> \<forall>h \<in> set (exitHandlers st). pcpos h \<noteq> kVmExitEntryGuardPc K"
  by (auto simp: exits_wf_def Let_def in_set_conv_nth)

text \<open>
  C5. A series of control-flow edges is resolved from a state whose exit handler table
  is well formed. For any two VM-exit edges of the series, with resume positions \<open>p\<close>
  and \<open>q\<close>: each emits a branch to a label; the labels are the same when \<open>p = q\<close> and
  different when \<open>p \<noteq> q\<close>; the entry-guard position resolves to the shared helper label
  \<^verbatim>\<open>exitContinueVmClearNativeFlag\<close>, which the series leaves as it was; and no exit
  handler record is ever created for the entry-guard position. The other edges of the
  series may have any target (a block, an undefined target, further exits).
\<close>

theorem exit_edges_share_trampolines:
  assumes "exits_wf K st"
      and "resolveEdges K next es st = Inr (ls, st')"
      and "i < length es" and "j < length es"
      and "snd (es ! i) = vmExit p" and "snd (es ! j) = vmExit q"
  shows "(p = q \<longrightarrow> ls ! i = ls ! j)
       \<and> (p \<noteq> q \<longrightarrow> ls ! i \<noteq> ls ! j)
       \<and> ls ! i \<noteq> None
       \<and> (p = kVmExitEntryGuardPc K \<longrightarrow>
            ls ! i = Some (label_id (exitContinueVmClearNativeFlag (helpers st))))
       \<and> (\<forall>h \<in> set (exitHandlers st'). pcpos h \<noteq> kVmExitEntryGuardPc K)
       \<and> helpers st' = helpers st"
proof -
  from resolveEdges_labels [OF assms(1,2)] have
    w: "exits_wf K st'" and h: "helpers st' = helpers st"
    and e: "\<And>i. i < length es \<Longrightarrow> kind (snd (es ! i)) = IrOpKind_VmExit \<Longrightarrow>
              ls ! i = Some (exitLabel K st' (index (snd (es ! i))))
              \<and> exitLabel K st' (index (snd (es ! i))) \<noteq> 0"
    by blast+
  from e [OF assms(3)] assms(5) have li: "ls ! i = Some (exitLabel K st' p)" "exitLabel K st' p \<noteq> 0"
    by (simp_all add: vmExit_def)
  from e [OF assms(4)] assms(6) have lj: "ls ! j = Some (exitLabel K st' q)"
    by (simp_all add: vmExit_def)
  have ne: "p \<noteq> q \<longrightarrow> ls ! i \<noteq> ls ! j"
    using exitLabel_inj [OF w li(2), of q] li lj by auto
  have g: "p = kVmExitEntryGuardPc K \<longrightarrow>
            ls ! i = Some (label_id (exitContinueVmClearNativeFlag (helpers st)))"
    using li h by (simp add: exitLabel_def)
  from li lj ne g exits_wf_no_guard_handler [OF w] h show ?thesis by simp
qed


lemma example_exits_wf: "exits_wf example_constants (example_lowering i)"
  by (simp add: exits_wf_def example_lowering_def)

lemma example_edges:
  "\<exists>st'. resolveEdges example_constants (example_block 1 3)
           [(ConditionX64_Equal, vmExit 7), (ConditionX64_Count, vmExit 268435455),
            (ConditionX64_NotEqual, vmExit 9), (ConditionX64_Equal, vmExit 7)]
           (example_lowering (example_value 3))
         = Inr ([Some 2, Some 1, Some 3, Some 2], st')"
  by (simp add: jumpOrAbortOnUndef_def Let_def getTargetLabel_def finalizeTargetLabel_def
        vmExitOp_def vmExit_def example_constants_def example_lowering_def
        onRef_def deref_def assign_def jcc_def jmp_def placeLabel_def emit_def
        lastBranch_def newCode_def)

theorem exit_edges_share_trampolines_witness:
  "\<exists>ls st'. resolveEdges example_constants (example_block 1 3)
           [(ConditionX64_Equal, vmExit 7), (ConditionX64_Count, vmExit 268435455),
            (ConditionX64_NotEqual, vmExit 9), (ConditionX64_Equal, vmExit 7)]
           (example_lowering (example_value 3))
         = Inr (ls, st')
     \<and> ls ! 0 = ls ! 3 \<and> ls ! 0 \<noteq> ls ! 2 \<and> ls ! 1 = Some 1
     \<and> (\<forall>h \<in> set (exitHandlers st'). pcpos h \<noteq> 268435455)"
proof -
  let ?es = "[(ConditionX64_Equal, vmExit 7), (ConditionX64_Count, vmExit 268435455),
              (ConditionX64_NotEqual, vmExit 9), (ConditionX64_Equal, vmExit 7)]"
  let ?st = "example_lowering (example_value 3)"
  from example_edges obtain st' where
    r: "resolveEdges example_constants (example_block 1 3) ?es ?st
          = Inr ([Some 2, Some 1, Some 3, Some 2], st')" ..
  note t = exit_edges_share_trampolines [OF example_exits_wf r]
  have a: "[Some 2, Some 1, Some 3, Some 2] ! 0 = [Some 2, Some 1, Some 3, Some (2::nat)] ! 3"
    using t [of 0 3 7 7] by simp
  have b: "[Some 2, Some 1, Some 3, Some 2] ! 0 \<noteq> [Some 2, Some 1, Some 3, Some (2::nat)] ! 2"
    using t [of 0 2 7 9] by simp
  have c: "[Some 2, Some 1, Some 3, Some (2::nat)] ! 1 = Some 1
           \<and> (\<forall>h \<in> set (exitHandlers st'). pcpos h \<noteq> 268435455)"
    using t [of 1 1 268435455 268435455]
    by (simp add: example_constants_def example_lowering_def)
  from r a b c show ?thesis by blast
qed

section \<open>Truthiness\<close>

lemma ucast_tag_eq: "((ucast (x :: 8 word) :: 32 word) = ucast (y :: 8 word)) = (x = y)"
proof
  assume e: "(ucast x :: 32 word) = ucast y"
  show "x = y"
  proof (rule bit_word_eqI)
    fix n assume n: "n < LENGTH(8)"
    from e have "bit (ucast x :: 32 word) n = bit (ucast y :: 32 word) n" by simp
    with n show "bit x n = bit y n" by (simp add: bit_ucast_iff)
  qed
qed simp

lemma fuel_twelve:
  "12 \<le> fuel \<Longrightarrow> \<exists>k. fuel = Suc (Suc (Suc (Suc (Suc (Suc (Suc (Suc (Suc (Suc (Suc (Suc k)))))))))))"
  by presburger

lemma op_b_set_regX64:
  "idx < length (instructions (func st)) \<Longrightarrow>
   op_b (instructions (func (set_regX64 idx d st)) ! idx) = op_b (instructions (func st) ! idx)"
  by (simp add: set_regX64_def)

lemma tagOp_set_regX64 [simp]: "tagOp (func (set_regX64 idx d st)) = tagOp (func st)"
  by (simp add: set_regX64_def)

lemma intOp_set_regX64 [simp]: "intOp (func (set_regX64 idx d st)) = intOp (func st)"
  by (simp add: set_regX64_def)


lemma resident_not_Constant: "resident st op r \<Longrightarrow> kind op \<noteq> IrOpKind_Constant"
  by (simp add: resident_def)

lemma lower_NOT_ANY_run:
  assumes i: "idx < length (instructions (func st))"
      and a: "a = op_a (instructions (func st) ! idx)"
      and b: "b = op_b (instructions (func st) ! idx)"
      and A: "kind a = IrOpKind_Constant \<and> tagOp (func st) a = LUA_TBOOLEAN K
                \<and> tag = ucast (LUA_TBOOLEAN K)
              \<or> resident st a ra \<and> index a \<noteq> idx \<and> tag = gpr m (reg_index ra)"
      and B: "kind b = IrOpKind_Constant \<and> payload = intOp (func st) b
              \<or> resident st b rb \<and> index b \<noteq> idx \<and> payload = gpr m (reg_index rb)"
      and K: "LUA_TNIL K \<noteq> LUA_TBOOLEAN K"
      and n: "0 < nextLabel (build st)"
      and f: "fuel = Suc (Suc (Suc (Suc (Suc (Suc (Suc (Suc (Suc (Suc (Suc (Suc k)))))))))))"
  shows "\<exists>st' m'. lowerInst_NOT_ANY K restore dst idx st = Inr st'
           \<and> run fuel (newCode st st') (newCode st st') m = Finished m'
           \<and> gpr m' (reg_index dst) = (if falsy K tag payload then 1 else 0)"
proof -
  let ?st0 = "set_regX64 idx dst st"
  have oa: "op_a (instructions (func ?st0) ! idx) = a" using i a by (simp add: op_a_set_regX64)
  have ob: "op_b (instructions (func ?st0) ! idx) = b" using i b by (simp add: op_b_set_regX64)
  have ra: "resident st a ra \<Longrightarrow> index a \<noteq> idx \<Longrightarrow> resident ?st0 a ra"
    by (simp add: resident_set_regX64)
  have rb: "resident st b rb \<Longrightarrow> index b \<noteq> idx \<Longrightarrow> resident ?st0 b rb"
    by (simp add: resident_set_regX64)
  have K': "(ucast (LUA_TBOOLEAN K) :: 32 word) \<noteq> ucast (LUA_TNIL K)"
    using K by (simp add: ucast_tag_eq)
  from A show ?thesis
  proof (elim disjE conjE)
    assume ka: "kind a = IrOpKind_Constant" and ta: "tagOp (func st) a = LUA_TBOOLEAN K"
      and tg: "tag = ucast (LUA_TBOOLEAN K)"
    from B show ?thesis
    proof (elim disjE conjE)
      assume kb: "kind b = IrOpKind_Constant" and pv: "payload = intOp (func st) b"
      show ?thesis
        using i n ka ta tg kb pv K' unfolding f
        by (simp add: lowerInst_NOT_ANY_def Let_def oa ob build_steps inst_regX64_set
              newCode_def falsy_def)
    next
      assume r: "resident st b rb" and ne: "index b \<noteq> idx" and pv: "payload = gpr m (reg_index rb)"
      show ?thesis
        using i n ka ta tg pv K' resident_not_Constant [OF r] rb [OF r ne] unfolding f
        by (simp add: lowerInst_NOT_ANY_def Let_def oa ob build_steps inst_regX64_set
              newCode_def falsy_def regOp_resident split: bool.splits)
    qed
  next
    assume r: "resident st a ra" and ne: "index a \<noteq> idx" and tg: "tag = gpr m (reg_index ra)"
    from B show ?thesis
    proof (elim disjE conjE)
      assume kb: "kind b = IrOpKind_Constant" and pv: "payload = intOp (func st) b"
      show ?thesis
        using i n tg kb pv K' resident_not_Constant [OF r] ra [OF r ne] unfolding f
        by (simp add: lowerInst_NOT_ANY_def Let_def oa ob build_steps inst_regX64_set
              newCode_def falsy_def regOp_resident split: bool.splits)
    next
      assume r2: "resident st b rb" and ne2: "index b \<noteq> idx" and pv: "payload = gpr m (reg_index rb)"
      show ?thesis
        using i n tg pv K' resident_not_Constant [OF r] resident_not_Constant [OF r2]
          ra [OF r ne] rb [OF r2 ne2] unfolding f
        by (simp add: lowerInst_NOT_ANY_def Let_def oa ob build_steps inst_regX64_set
              newCode_def falsy_def regOp_resident split: bool.splits)
    qed
  qed
qed


lemma frame_build:
  "nextLabel (build st) \<le> nextLabel b \<Longrightarrow> frame st (st\<lparr>build := b\<rparr>)"
  by (simp add: frame_def block_label_def)

lemma target_label_build [simp]: "target_label K (st\<lparr>build := b\<rparr>) t = target_label K st t"
  by (simp add: target_label_def exitLabel_def block_label_def split: option.splits)

lemma is_block_build [simp]: "is_block (st\<lparr>build := b\<rparr>) t = is_block st t"
  by (simp add: is_block_def)

lemma block_label_build [simp]: "block_label (st\<lparr>build := b\<rparr>) i = block_label st i"
  by (simp add: block_label_def)

lemma target_ok_build:
  assumes "target_ok K st t" and "nextLabel (build st) \<le> nextLabel b"
  shows "target_ok K (st\<lparr>build := b\<rparr>) t"
proof -
  from assms(1) have n: "0 < nextLabel (build st)"
    and c: "kind t = IrOpKind_Undef \<or> (kind t = IrOpKind_VmExit \<and> exits_wf K st)
            \<or> (is_block st t \<and> block_label st (index t) < nextLabel (build st))"
    by (simp_all add: target_ok_def)
  from n assms(2) have n': "0 < nextLabel b" by simp
  from c show ?thesis
  proof (elim disjE conjE)
    assume "kind t = IrOpKind_Undef"
    with n' show ?thesis by (simp add: target_ok_def)
  next
    assume k: "kind t = IrOpKind_VmExit" and w: "exits_wf K st"
    have "exits_wf K (st\<lparr>build := b\<rparr>)"
      using assms(2) by (intro exits_wf_mono [OF w]) simp_all
    with k n' show ?thesis by (simp add: target_ok_def)
  next
    assume "is_block st t" and "block_label st (index t) < nextLabel (build st)"
    with n' assms(2) show ?thesis by (simp add: target_ok_def)
  qed
qed

lemma onRef_jcc_block_bound:
  assumes "i < length (blocks (func st))" and "0 < nextLabel (build st)"
      and "block_label st i < nextLabel (build st)"
  shows "block_label (snd (onRef (jcc c) (Ref_block i) fresh st)) i
           < nextLabel (build (snd (onRef (jcc c) (Ref_block i) fresh st)))
       \<and> (block_label st i \<noteq> 0 \<longrightarrow>
            nextLabel (build (snd (onRef (jcc c) (Ref_block i) fresh st))) = nextLabel (build st))"
  using assms
  by (simp add: onRef_def deref_def assign_def jcc_def placeLabel_eq emit_def block_label_def)

lemma jump_guard_Undef:
  assumes "kind t = IrOpKind_Undef" and "cond \<noteq> ConditionX64_Count" and "0 < nextLabel (build st)"
  shows "jumpOrAbortOnUndef K cond t next st =
           Inr (st\<lparr>build := \<lparr>emitted = emitted (build st) @
                        [I_jcc (getReverseCondition cond) (nextLabel (build st)), I_ud2,
                         I_label (nextLabel (build st))],
                      nextLabel = Suc (nextLabel (build st))\<rparr>\<rparr>)"
  using assms
  by (simp add: jumpOrAbortOnUndef_def Let_def getTargetLabel_def finalizeTargetLabel_other
        onRef_fresh_jcc emitS_build onRef_fresh_setLabel_old)

lemma jump_guard_block:
  assumes "is_block st t" and "cond \<noteq> ConditionX64_Count"
  shows "jumpOrAbortOnUndef K cond t next st
           = Inr (snd (onRef (jcc cond) (Ref_block (index t)) \<lparr>label_id = 0\<rparr> st))"
  using assms
  by (simp add: jumpOrAbortOnUndef_def Let_def getTargetLabel_def finalizeTargetLabel_other
        labelOp_is_block is_block_def split_def)


lemma is_block_kind: "is_block st t \<Longrightarrow> kind t = IrOpKind_Block"
  by (simp add: is_block_def)

lemma frame_exits:
  "frame st (st\<lparr>build := b, exitHandlerMap := mp, exitHandlers := hs\<rparr>)
     = (nextLabel (build st) \<le> nextLabel b)"
  by (simp add: frame_def block_label_def)

lemma jump_guard:
  assumes ok: "target_ok K st t" and c: "cond \<noteq> ConditionX64_Count"
  shows "\<exists>st1. jumpOrAbortOnUndef K cond t next st = Inr st1 \<and> frame st st1 \<and> target_ok K st1 t
           \<and> emitted (build st1) = emitted (build st) @
                (if kind t = IrOpKind_Undef
                 then [I_jcc (getReverseCondition cond) (nextLabel (build st)), I_ud2,
                       I_label (nextLabel (build st))]
                 else [I_jcc cond (target_label K st1 t)])
           \<and> (kind t = IrOpKind_Undef \<longrightarrow> nextLabel (build st1) = Suc (nextLabel (build st)))
           \<and> (kind t \<noteq> IrOpKind_Undef \<longrightarrow>
                0 < target_label K st1 t \<and> target_label K st1 t < nextLabel (build st1)
                \<and> (target_label K st t \<noteq> 0 \<longrightarrow>
                     target_label K st1 t = target_label K st t
                     \<and> nextLabel (build st1) = nextLabel (build st)))"
proof -
  let ?n = "nextLabel (build st)"
  from ok have n: "0 < ?n"
    and k: "kind t = IrOpKind_Undef \<or> (kind t = IrOpKind_VmExit \<and> exits_wf K st)
            \<or> (is_block st t \<and> block_label st (index t) < ?n)"
    by (simp_all add: target_ok_def)
  from k show ?thesis
  proof (elim disjE conjE)
    assume u: "kind t = IrOpKind_Undef"
    let ?b = "\<lparr>emitted = emitted (build st) @
                 [I_jcc (getReverseCondition cond) ?n, I_ud2, I_label ?n],
               nextLabel = Suc ?n\<rparr>"
    have j: "jumpOrAbortOnUndef K cond t next st = Inr (st\<lparr>build := ?b\<rparr>)"
      by (rule jump_guard_Undef [OF u c n])
    have f: "frame st (st\<lparr>build := ?b\<rparr>)" by (rule frame_build) simp
    have o: "target_ok K (st\<lparr>build := ?b\<rparr>) t" by (rule target_ok_build [OF ok]) simp
    from j f o u show ?thesis by simp
  next
    assume v: "kind t = IrOpKind_VmExit" and wf: "exits_wf K st"
    have tl: "\<And>s. target_label K s t = exitLabel K s (index t)"
      using v by (simp add: target_label_def)
    show ?thesis
    proof (cases "index t = kVmExitEntryGuardPc K")
      case g: True
      let ?h = "label_id (exitContinueVmClearNativeFlag (helpers st))"
      let ?b = "\<lparr>emitted = emitted (build st) @ [I_jcc cond ?h], nextLabel = ?n\<rparr>"
      have j: "jumpOrAbortOnUndef K cond t next st = Inr (st\<lparr>build := ?b\<rparr>)"
        using jump_VmExit_guard [OF wf v g, of cond "next"] c by simp
      have f: "frame st (st\<lparr>build := ?b\<rparr>)" by (rule frame_build) simp
      have o: "target_ok K (st\<lparr>build := ?b\<rparr>) t" by (rule target_ok_build [OF ok]) simp
      have l: "target_label K st t = ?h" using g by (simp add: tl exitLabel_def)
      from j f o v l exits_wf_helper [OF wf] show ?thesis by simp
    next
      case g: False
      show ?thesis
      proof (cases "exitHandlerMap st (index t)")
        case (Some i)
        let ?h = "label_id (self (exitHandlers st ! i))"
        let ?b = "\<lparr>emitted = emitted (build st) @ [I_jcc cond ?h], nextLabel = ?n\<rparr>"
        have j: "jumpOrAbortOnUndef K cond t next st = Inr (st\<lparr>build := ?b\<rparr>)"
          using jump_VmExit_known [OF wf v Some, of cond "next"] c by simp
        have f: "frame st (st\<lparr>build := ?b\<rparr>)" by (rule frame_build) simp
        have o: "target_ok K (st\<lparr>build := ?b\<rparr>) t" by (rule target_ok_build [OF ok]) simp
        have l: "target_label K st t = ?h" using g Some by (simp add: tl exitLabel_def)
        from j f o v l exits_wf_known [OF wf Some] show ?thesis by simp
      next
        case None
        let ?st1 = "st\<lparr>build := \<lparr>emitted = emitted (build st) @ [I_jcc cond ?n],
                                  nextLabel = Suc ?n\<rparr>,
                       exitHandlerMap := (exitHandlerMap st)(index t \<mapsto> length (exitHandlers st)),
                       exitHandlers := exitHandlers st
                          @ [\<lparr>self = \<lparr>label_id = ?n\<rparr>, pcpos = index t\<rparr>]\<rparr>"
        have j: "jumpOrAbortOnUndef K cond t next st = Inr ?st1"
          using jump_VmExit_new [OF wf v None g, of cond "next"] c by simp
        have f: "frame st ?st1" by (simp add: frame_exits)
        have w1: "exits_wf K ?st1" by (rule exits_wf_add [OF wf None g])
        have o: "target_ok K ?st1 t" using v w1 by (simp add: target_ok_def)
        have l0: "target_label K st t = 0" using g None by (simp add: tl exitLabel_def)
        have l1: "target_label K ?st1 t = ?n" using g by (simp add: tl exitLabel_def)
        from j f o v l0 l1 n show ?thesis by simp
      qed
    qed
  next
    assume b: "is_block st t" and lt: "block_label st (index t) < ?n"
    let ?i = "index t"
    let ?st1 = "snd (onRef (jcc cond) (Ref_block ?i) \<lparr>label_id = 0\<rparr> st)"
    have kb: "kind t = IrOpKind_Block" by (rule is_block_kind [OF b])
    have tl: "\<And>s. target_label K s t = block_label s ?i"
      using kb by (simp add: target_label_def)
    have j: "jumpOrAbortOnUndef K cond t next st = Inr ?st1"
      by (rule jump_guard_block [OF b c])
    from onRef_jcc_block [OF is_block_length [OF b] n, of cond "\<lparr>label_id = 0\<rparr>"] have
      e: "emitted (build ?st1) = emitted (build st) @ [I_jcc cond (block_label ?st1 ?i)]"
      and p: "0 < block_label ?st1 ?i" and f: "frame st ?st1"
      by auto
    from onRef_jcc_block_bound [OF is_block_length [OF b] n lt, of cond "\<lparr>label_id = 0\<rparr>"] have
      bd: "block_label ?st1 ?i < nextLabel (build ?st1)"
      and same: "block_label st ?i \<noteq> 0 \<Longrightarrow> nextLabel (build ?st1) = ?n"
      by blast+
    have n1: "0 < nextLabel (build ?st1)" using f n by (rule frame_nextLabel)
    have o: "target_ok K ?st1 t"
      using b bd n1 by (simp add: target_ok_def frame_is_block [OF f])
    have st: "block_label st ?i \<noteq> 0 \<Longrightarrow> block_label ?st1 ?i = block_label st ?i"
      using frame_label [OF f, of ?i] by simp
    from j e p f bd same o st kb show ?thesis
      by (simp add: tl)
  qed
qed


lemma operand_value_ZF [simp]: "operand_value (m\<lparr>ZF := z\<rparr>) x = operand_value m x"
  by (cases x) simp_all

lemma run_guard_jump:
  assumes "C = [I_cmp ta (Imm nil), I_jcc ConditionX64_Equal L, I_cmp ta (Imm bool),
                I_jcc ConditionX64_NotEqual s, I_cmp vb (Imm 0), I_jcc ConditionX64_Equal L,
                I_label s]"
      and "L \<noteq> s" and "nil \<noteq> bool"
      and "fuel = Suc (Suc (Suc (Suc (Suc (Suc (Suc (Suc (Suc (Suc (Suc (Suc k)))))))))))"
  shows "run fuel C C m =
               (if operand_value m ta = nil \<or> operand_value m ta = bool \<and> operand_value m vb = 0
                then Exited L (m\<lparr>ZF := True\<rparr>) else Finished (m\<lparr>ZF := False\<rparr>))"
  using assms(2,3) unfolding assms(1,4)
  by (auto split: bool.splits)

lemma run_guard_trap:
  assumes "C = [I_cmp ta (Imm nil), I_jcc ConditionX64_NotEqual n1, I_ud2, I_label n1,
                I_cmp ta (Imm bool), I_jcc ConditionX64_NotEqual s, I_cmp vb (Imm 0),
                I_jcc ConditionX64_NotEqual n2, I_ud2, I_label n2, I_label s]"
      and "n1 < s" and "s < n2" and "nil \<noteq> bool"
      and "fuel = Suc (Suc (Suc (Suc (Suc (Suc (Suc (Suc (Suc (Suc (Suc (Suc k)))))))))))"
  shows "run fuel C C m =
               (if operand_value m ta = nil \<or> operand_value m ta = bool \<and> operand_value m vb = 0
                then Trapped else Finished (m\<lparr>ZF := False\<rparr>))"
  using assms(2,3,4) unfolding assms(1,5)
  by (auto split: bool.splits)

lemma run_value_jump:
  assumes "C = [I_cmp vb (Imm 0), I_jcc ConditionX64_Equal L]"
      and "fuel = Suc (Suc (Suc (Suc (Suc (Suc (Suc (Suc (Suc (Suc (Suc (Suc k)))))))))))"
  shows "run fuel C C m = (if operand_value m vb = 0 then Exited L (m\<lparr>ZF := True\<rparr>) else Finished (m\<lparr>ZF := False\<rparr>))"
  unfolding assms
  by (auto split: bool.splits)

lemma run_value_trap:
  assumes "C = [I_cmp vb (Imm 0), I_jcc ConditionX64_NotEqual n2, I_ud2, I_label n2]"
      and "fuel = Suc (Suc (Suc (Suc (Suc (Suc (Suc (Suc (Suc (Suc (Suc (Suc k)))))))))))"
  shows "run fuel C C m = (if operand_value m vb = 0 then Trapped else Finished (m\<lparr>ZF := False\<rparr>))"
  unfolding assms
  by (auto split: bool.splits)


lemma memRegTagOp_tag_operand:
  "tag_operand st a ta \<Longrightarrow> memRegTagOp restore a st = Inr (ta, st)"
  by (auto simp: tag_operand_def memRegTagOp_resident memRegTagOp_VmReg memRegTagOp_VmConst)

lemma memRegUintOp_uint_operand:
  assumes "uint_operand st b vb"
  shows "memRegUintOp restore b st = Inr (vb, st)"
proof -
  from assms consider r where "resident st b r" "vb = Reg r"
    | "kind b = IrOpKind_Constant" "vb = Imm (intOp (func st) b)"
    | "kind b = IrOpKind_VmReg" "vb = Mem (luauRegValueInt (index b))"
    by (auto simp: uint_operand_def)
  then show ?thesis
  proof cases
    case 1
    from regOp_resident [OF 1(1), of restore] resident_kind [OF 1(1)] 1(2)
    show ?thesis by (simp add: memRegUintOp_def)
  next
    case 2
    then show ?thesis by (simp add: memRegUintOp_def)
  next
    case 3
    then show ?thesis by (simp add: memRegUintOp_def vmRegOp_def)
  qed
qed

lemma frame_tag_operand: "frame st st' \<Longrightarrow> tag_operand st' a ta = tag_operand st a ta"
  by (simp add: tag_operand_def frame_resident)

lemma frame_uint_operand:
  assumes "frame st st'"
  shows "uint_operand st' b vb = uint_operand st b vb"
proof -
  from assms have "intOp (func st') = intOp (func st)" by (simp add: frame_def)
  then show ?thesis by (simp add: uint_operand_def frame_resident [OF assms])
qed

lemma tag_operand_not_Constant: "tag_operand st a ta \<Longrightarrow> kind a \<noteq> IrOpKind_Constant"
  by (auto simp: tag_operand_def resident_def)

lemma frame_tagOp: "frame st st' \<Longrightarrow> tagOp (func st') = tagOp (func st)"
  by (simp add: frame_def)

lemma frame_le: "frame st st' \<Longrightarrow> nextLabel (build st) \<le> nextLabel (build st')"
  by (simp add: frame_def)

lemma target_ok_emitS: "target_ok K st t \<Longrightarrow> target_ok K (emitS i st) t"
  unfolding emitS_build by (rule target_ok_build) simp_all

lemma target_label_emitS: "target_label K (emitS i st) t = target_label K st t"
  by (simp add: emitS_build)

lemma nextLabel_emitS: "nextLabel (build (emitS i st)) = nextLabel (build st)"
  by (simp add: emitS_build)

lemma emitted_emitS: "emitted (build (emitS i st)) = emitted (build st) @ [i]"
  by (simp add: emitS_build)

lemmas emitS_simps = target_label_emitS nextLabel_emitS emitted_emitS

lemma lower_CHECK_TRUTHY_value_only:
  assumes a: "kind (op_a (instructions (func st) ! idx)) = IrOpKind_Constant"
      and t: "tagOp (func st) (op_a (instructions (func st) ! idx)) = LUA_TBOOLEAN K"
      and b: "uint_operand st (op_b (instructions (func st) ! idx)) vb"
      and c: "target_ok K st (op_c (instructions (func st) ! idx))"
  shows "\<exists>st'. lowerInst_CHECK_TRUTHY K restore idx next st = Inr st'
           \<and> newCode st st' =
               (if kind (op_c (instructions (func st) ! idx)) = IrOpKind_Undef
                then [I_cmp vb (Imm 0), I_jcc ConditionX64_NotEqual (nextLabel (build st)), I_ud2,
                      I_label (nextLabel (build st))]
                else [I_cmp vb (Imm 0),
                      I_jcc ConditionX64_Equal
                        (target_label K st' (op_c (instructions (func st) ! idx)))])"
proof -
  let ?b = "op_b (instructions (func st) ! idx)"
  let ?c = "op_c (instructions (func st) ! idx)"
  let ?st1 = "emitS (I_cmp vb (Imm 0)) st"
  note ok1 = target_ok_emitS [OF c, of "I_cmp vb (Imm 0)"]
  from jump_guard [OF ok1, of ConditionX64_Equal "next"]
  obtain st2 where
    j: "jumpOrAbortOnUndef K ConditionX64_Equal ?c next ?st1 = Inr st2"
    and e: "emitted (build st2) = emitted (build ?st1) @
                (if kind ?c = IrOpKind_Undef
                 then [I_jcc (getReverseCondition ConditionX64_Equal) (nextLabel (build ?st1)), I_ud2,
                       I_label (nextLabel (build ?st1))]
                 else [I_jcc ConditionX64_Equal (target_label K st2 ?c)])"
    by auto
  have low: "lowerInst_CHECK_TRUTHY K restore idx next st = Inr st2"
    using a t j by (simp add: lowerInst_CHECK_TRUTHY_def Let_def memRegUintOp_uint_operand [OF b])
  from low e show ?thesis by (simp add: newCode_def emitS_simps)
qed


lemma lower_CHECK_TRUTHY_tag_and_value:
  assumes a: "tag_operand st (op_a (instructions (func st) ! idx)) ta"
      and b: "uint_operand st (op_b (instructions (func st) ! idx)) vb"
      and c: "target_ok K st (op_c (instructions (func st) ! idx))"
  shows "\<exists>st' n1 s n2 L. lowerInst_CHECK_TRUTHY K restore idx next st = Inr st'
           \<and> n1 < s \<and> s < n2 \<and> L < s
           \<and> (kind (op_c (instructions (func st) ! idx)) \<noteq> IrOpKind_Undef \<longrightarrow>
                L = target_label K st' (op_c (instructions (func st) ! idx)))
           \<and> newCode st st' =
               (if kind (op_c (instructions (func st) ! idx)) = IrOpKind_Undef
                then [I_cmp ta (Imm (ucast (LUA_TNIL K))), I_jcc ConditionX64_NotEqual n1, I_ud2,
                      I_label n1, I_cmp ta (Imm (ucast (LUA_TBOOLEAN K))),
                      I_jcc ConditionX64_NotEqual s, I_cmp vb (Imm 0),
                      I_jcc ConditionX64_NotEqual n2, I_ud2, I_label n2, I_label s]
                else [I_cmp ta (Imm (ucast (LUA_TNIL K))), I_jcc ConditionX64_Equal L,
                      I_cmp ta (Imm (ucast (LUA_TBOOLEAN K))), I_jcc ConditionX64_NotEqual s,
                      I_cmp vb (Imm 0), I_jcc ConditionX64_Equal L, I_label s])"
proof -
  let ?a = "op_a (instructions (func st) ! idx)"
  let ?b = "op_b (instructions (func st) ! idx)"
  let ?c = "op_c (instructions (func st) ! idx)"
  let ?nil = "Imm (ucast (LUA_TNIL K)) :: OperandX64"
  let ?bool = "Imm (ucast (LUA_TBOOLEAN K)) :: OperandX64"
  let ?E = "emitted (build st)"
  let ?n = "nextLabel (build st)"
  have ka: "kind ?a \<noteq> IrOpKind_Constant" by (rule tag_operand_not_Constant [OF a])
  let ?st1 = "emitS (I_cmp ta ?nil) st"
  note ok1 = target_ok_emitS [OF c, of "I_cmp ta ?nil"]
  from jump_guard [OF ok1, of ConditionX64_Equal "next"] obtain st2 where
    j1: "jumpOrAbortOnUndef K ConditionX64_Equal ?c next ?st1 = Inr st2"
    and f12: "frame ?st1 st2" and ok2: "target_ok K st2 ?c"
    and e2: "emitted (build st2) = (?E @ [I_cmp ta ?nil]) @
                (if kind ?c = IrOpKind_Undef
                 then [I_jcc ConditionX64_NotEqual ?n, I_ud2, I_label ?n]
                 else [I_jcc ConditionX64_Equal (target_label K st2 ?c)])"
    and u2: "kind ?c = IrOpKind_Undef \<Longrightarrow> nextLabel (build st2) = Suc ?n"
    and l2: "kind ?c \<noteq> IrOpKind_Undef \<Longrightarrow>
               0 < target_label K st2 ?c \<and> target_label K st2 ?c < nextLabel (build st2)"
    by (auto simp: emitS_simps)
  have f2: "frame st st2" by (rule frame_trans [OF frame_emitS f12])
  have a2: "tag_operand st2 ?a ta" using a by (simp add: frame_tag_operand [OF f2])
  let ?s = "nextLabel (build st2)"
  let ?st3 = "emitS (I_cmp ta ?bool) st2"
  let ?st4 = "?st3\<lparr>build := \<lparr>emitted = emitted (build ?st3) @ [I_jcc ConditionX64_NotEqual ?s],
                               nextLabel = Suc ?s\<rparr>\<rparr>"
  have ob: "onBuild (jcc ConditionX64_NotEqual) \<lparr>label_id = 0\<rparr> ?st3 = (\<lparr>label_id = ?s\<rparr>, ?st4)"
    by (simp add: onBuild_jcc_new nextLabel_emitS)
  have f34: "frame ?st3 ?st4" by (rule frame_build) (simp add: emitS_simps)
  have f4: "frame st ?st4" by (rule frame_trans [OF frame_trans [OF f2 frame_emitS] f34])
  have b4: "uint_operand ?st4 ?b vb" unfolding frame_uint_operand [OF f4] by (rule b)
  have ok4: "target_ok K ?st4 ?c"
    by (rule target_ok_build [OF target_ok_emitS [OF ok2]]) (simp add: emitS_simps)
  let ?st5 = "emitS (I_cmp vb (Imm 0)) ?st4"
  note ok5 = target_ok_emitS [OF ok4, of "I_cmp vb (Imm 0)"]
  have t5: "target_label K ?st5 ?c = target_label K st2 ?c" by (simp add: emitS_simps)
  from jump_guard [OF ok5, of ConditionX64_Equal "next"] obtain st6 where
    j2: "jumpOrAbortOnUndef K ConditionX64_Equal ?c next ?st5 = Inr st6"
    and e6: "emitted (build st6) = emitted (build ?st5) @
                (if kind ?c = IrOpKind_Undef
                 then [I_jcc ConditionX64_NotEqual (Suc ?s), I_ud2, I_label (Suc ?s)]
                 else [I_jcc ConditionX64_Equal (target_label K st6 ?c)])"
    and l6: "kind ?c \<noteq> IrOpKind_Undef \<Longrightarrow> target_label K ?st5 ?c \<noteq> 0 \<Longrightarrow>
               target_label K st6 ?c = target_label K ?st5 ?c"
    by (auto simp: emitS_simps)
  have spos: "0 < ?s" using ok2 by (simp add: target_ok_def)
  let ?st7 = "st6\<lparr>build := \<lparr>emitted = emitted (build st6) @ [I_label ?s],
                             nextLabel = nextLabel (build st6)\<rparr>\<rparr>"
  have sl: "snd (onBuild setLabel \<lparr>label_id = ?s\<rparr> st6) = ?st7"
    using spos by (simp add: onBuild_setLabel_old)
  have low: "lowerInst_CHECK_TRUTHY K restore idx next st = Inr ?st7"
    using ka
    by (simp add: lowerInst_CHECK_TRUTHY_def Let_def memRegTagOp_tag_operand [OF a] j1
          memRegTagOp_tag_operand [OF a2] ob memRegUintOp_uint_operand [OF b4] j2 sl)
  have L6: "kind ?c \<noteq> IrOpKind_Undef \<Longrightarrow> target_label K st6 ?c = target_label K st2 ?c"
    using l6 l2 t5 by simp
  have code: "newCode st ?st7 =
               (if kind ?c = IrOpKind_Undef
                then [I_cmp ta ?nil, I_jcc ConditionX64_NotEqual ?n, I_ud2,
                      I_label ?n, I_cmp ta ?bool,
                      I_jcc ConditionX64_NotEqual ?s, I_cmp vb (Imm 0),
                      I_jcc ConditionX64_NotEqual (Suc ?s), I_ud2, I_label (Suc ?s), I_label ?s]
                else [I_cmp ta ?nil, I_jcc ConditionX64_Equal (target_label K st2 ?c),
                      I_cmp ta ?bool, I_jcc ConditionX64_NotEqual ?s,
                      I_cmp vb (Imm 0), I_jcc ConditionX64_Equal (target_label K st2 ?c),
                      I_label ?s])"
    using e2 e6 L6 by (simp add: newCode_def emitS_simps)
  have L7: "kind ?c \<noteq> IrOpKind_Undef \<Longrightarrow> target_label K ?st7 ?c = target_label K st2 ?c"
    using L6 by simp
  show ?thesis
  proof (cases "kind ?c = IrOpKind_Undef")
    case True
    have "?n < ?s \<and> ?s < Suc ?s \<and> (0::nat) < ?s" using u2 [OF True] by simp
    with low code True show ?thesis
      by (intro exI [of _ ?st7] exI [of _ ?n] exI [of _ ?s] exI [of _ "Suc ?s"] exI [of _ 0]) simp
  next
    case False
    have "(0::nat) < ?s \<and> ?s < Suc ?s \<and> target_label K st2 ?c < ?s"
      using l2 [OF False] spos by simp
    with low code False L7 [OF False] show ?thesis
      by (intro exI [of _ ?st7] exI [of _ 0] exI [of _ ?s] exI [of _ "Suc ?s"]
            exI [of _ "target_label K st2 ?c"]) simp
  qed
qed


lemma lower_CHECK_TRUTHY_run:
  assumes a: "a = op_a (instructions (func st) ! idx)"
      and b: "b = op_b (instructions (func st) ! idx)"
      and c: "c = op_c (instructions (func st) ! idx)"
      and A: "kind a = IrOpKind_Constant \<and> tagOp (func st) a = LUA_TBOOLEAN K
                \<and> tag = ucast (LUA_TBOOLEAN K)
              \<or> tag_operand st a ta \<and> tag = operand_value m ta"
      and B: "uint_operand st b vb" and pv: "payload = operand_value m vb"
      and C: "target_ok K st c"
      and K: "LUA_TNIL K \<noteq> LUA_TBOOLEAN K"
      and f: "fuel = Suc (Suc (Suc (Suc (Suc (Suc (Suc (Suc (Suc (Suc (Suc (Suc k)))))))))))"
  shows "\<exists>st'. lowerInst_CHECK_TRUTHY K restore idx next st = Inr st'
           \<and> run fuel (newCode st st') (newCode st st') m =
               (if falsy K tag payload
                then (if kind c = IrOpKind_Undef then Trapped
                      else Exited (target_label K st' c) (m\<lparr>ZF := True\<rparr>))
                else Finished (m\<lparr>ZF := False\<rparr>))"
proof -
  have K': "(ucast (LUA_TNIL K) :: 32 word) \<noteq> ucast (LUA_TBOOLEAN K)"
    using K by (simp add: ucast_tag_eq)
  from A show ?thesis
  proof (elim disjE conjE)
    assume ka: "kind a = IrOpKind_Constant" and ta: "tagOp (func st) a = LUA_TBOOLEAN K"
      and tg: "tag = ucast (LUA_TBOOLEAN K)"
    from lower_CHECK_TRUTHY_value_only [OF ka [unfolded a] ta [unfolded a] B [unfolded b]
           C [unfolded c], of restore "next"]
    obtain st' where low: "lowerInst_CHECK_TRUTHY K restore idx next st = Inr st'"
      and code: "newCode st st' =
               (if kind c = IrOpKind_Undef
                then [I_cmp vb (Imm 0), I_jcc ConditionX64_NotEqual (nextLabel (build st)), I_ud2,
                      I_label (nextLabel (build st))]
                else [I_cmp vb (Imm 0), I_jcc ConditionX64_Equal (target_label K st' c)])"
      unfolding c by blast
    have fl: "falsy K tag payload = (operand_value m vb = 0)"
      using K' by (auto simp: falsy_def tg pv)
    show ?thesis
    proof (cases "kind c = IrOpKind_Undef")
      case True
      with code have cd: "newCode st st' = [I_cmp vb (Imm 0),
          I_jcc ConditionX64_NotEqual (nextLabel (build st)), I_ud2, I_label (nextLabel (build st))]"
        by simp
      from low run_value_trap [OF cd f, of m] True fl show ?thesis by simp
    next
      case False
      with code have cd: "newCode st st' = [I_cmp vb (Imm 0),
          I_jcc ConditionX64_Equal (target_label K st' c)]"
        by simp
      from low run_value_jump [OF cd f, of m] False fl show ?thesis by simp
    qed
  next
    assume to: "tag_operand st a ta" and tg: "tag = operand_value m ta"
    from lower_CHECK_TRUTHY_tag_and_value [OF to [unfolded a] B [unfolded b] C [unfolded c],
           of restore "next"]
    obtain st' n1 s n2 L where low: "lowerInst_CHECK_TRUTHY K restore idx next st = Inr st'"
      and ord: "n1 < s" "s < n2" "L < s"
      and L: "kind c \<noteq> IrOpKind_Undef \<Longrightarrow> L = target_label K st' c"
      and code: "newCode st st' =
               (if kind c = IrOpKind_Undef
                then [I_cmp ta (Imm (ucast (LUA_TNIL K))), I_jcc ConditionX64_NotEqual n1, I_ud2,
                      I_label n1, I_cmp ta (Imm (ucast (LUA_TBOOLEAN K))),
                      I_jcc ConditionX64_NotEqual s, I_cmp vb (Imm 0),
                      I_jcc ConditionX64_NotEqual n2, I_ud2, I_label n2, I_label s]
                else [I_cmp ta (Imm (ucast (LUA_TNIL K))), I_jcc ConditionX64_Equal L,
                      I_cmp ta (Imm (ucast (LUA_TBOOLEAN K))), I_jcc ConditionX64_NotEqual s,
                      I_cmp vb (Imm 0), I_jcc ConditionX64_Equal L, I_label s])"
      unfolding c by blast
    have fl: "falsy K tag payload =
                (operand_value m ta = ucast (LUA_TNIL K)
                 \<or> operand_value m ta = ucast (LUA_TBOOLEAN K) \<and> operand_value m vb = 0)"
      by (simp add: falsy_def tg pv)
    show ?thesis
    proof (cases "kind c = IrOpKind_Undef")
      case True
      with code have cd: "newCode st st' =
             [I_cmp ta (Imm (ucast (LUA_TNIL K))), I_jcc ConditionX64_NotEqual n1, I_ud2,
              I_label n1, I_cmp ta (Imm (ucast (LUA_TBOOLEAN K))),
              I_jcc ConditionX64_NotEqual s, I_cmp vb (Imm 0),
              I_jcc ConditionX64_NotEqual n2, I_ud2, I_label n2, I_label s]"
        by simp
      from low run_guard_trap [OF cd ord(1,2) K' f, of m] True fl show ?thesis by simp
    next
      case False
      with code have cd: "newCode st st' =
             [I_cmp ta (Imm (ucast (LUA_TNIL K))), I_jcc ConditionX64_Equal L,
              I_cmp ta (Imm (ucast (LUA_TBOOLEAN K))), I_jcc ConditionX64_NotEqual s,
              I_cmp vb (Imm 0), I_jcc ConditionX64_Equal L, I_label s]"
        by simp
      from ord(3) have ne: "L \<noteq> s" by simp
      from low run_guard_jump [OF cd ne K' f, of m] False fl L [OF False] show ?thesis by simp
    qed
  qed
qed

text \<open>
  C4. A value with type tag \<open>tag\<close> and payload \<open>payload\<close> is falsy iff the tag is nil, or
  the tag is boolean and the payload is zero (\<open>falsy\<close>). The code emitted for \<^verbatim>\<open>NOT_ANY\<close>
  runs to its end and leaves 1 in the result register for a falsy value and 0 for any
  other. The code emitted for \<^verbatim>\<open>CHECK_TRUTHY\<close> leaves through its failure target for a
  falsy value (a trap when the target is undefined, otherwise a branch to the label the
  target resolves to) and falls through for any other. The tag is an IR value in a
  register, a VM register or constant slot (\<^verbatim>\<open>CHECK_TRUTHY\<close>), or a constant, which both
  cases assert to be boolean; the payload is an IR value in a register, a constant, or a
  VM register slot (\<^verbatim>\<open>CHECK_TRUTHY\<close>).
\<close>

theorem truthiness_lowering:
  assumes "idx < length (instructions (func st))"
      and "a = op_a (instructions (func st) ! idx)"
      and "b = op_b (instructions (func st) ! idx)"
      and "c = op_c (instructions (func st) ! idx)"
      and "LUA_TNIL K \<noteq> LUA_TBOOLEAN K"
      and "0 < nextLabel (build st)"
      and "12 \<le> fuel"
  shows "((kind a = IrOpKind_Constant \<and> tagOp (func st) a = LUA_TBOOLEAN K
             \<and> tag = ucast (LUA_TBOOLEAN K)
           \<or> resident st a ra \<and> index a \<noteq> idx \<and> tag = gpr m (reg_index ra))
          \<and> (kind b = IrOpKind_Constant \<and> payload = intOp (func st) b
              \<or> resident st b rb \<and> index b \<noteq> idx \<and> payload = gpr m (reg_index rb)) \<longrightarrow>
          (\<exists>st' m'. lowerInst_NOT_ANY K restore dst idx st = Inr st'
             \<and> run fuel (newCode st st') (newCode st st') m = Finished m'
             \<and> gpr m' (reg_index dst) = (if falsy K tag payload then 1 else 0)))
       \<and> ((kind a = IrOpKind_Constant \<and> tagOp (func st) a = LUA_TBOOLEAN K
              \<and> tag = ucast (LUA_TBOOLEAN K)
            \<or> tag_operand st a ta \<and> tag = operand_value m ta)
           \<and> uint_operand st b vb \<and> payload = operand_value m vb \<and> target_ok K st c \<longrightarrow>
          (\<exists>st'. lowerInst_CHECK_TRUTHY K restore idx next st = Inr st'
             \<and> run fuel (newCode st st') (newCode st st') m =
                 (if falsy K tag payload
                  then (if kind c = IrOpKind_Undef then Trapped
                        else Exited (target_label K st' c) (m\<lparr>ZF := True\<rparr>))
                  else Finished (m\<lparr>ZF := False\<rparr>))))"
proof -
  from fuel_twelve [OF assms(7)] obtain k where
    f: "fuel = Suc (Suc (Suc (Suc (Suc (Suc (Suc (Suc (Suc (Suc (Suc (Suc k)))))))))))" ..
  show ?thesis
  proof (intro conjI impI)
    assume h: "(kind a = IrOpKind_Constant \<and> tagOp (func st) a = LUA_TBOOLEAN K
             \<and> tag = ucast (LUA_TBOOLEAN K)
           \<or> resident st a ra \<and> index a \<noteq> idx \<and> tag = gpr m (reg_index ra))
          \<and> (kind b = IrOpKind_Constant \<and> payload = intOp (func st) b
              \<or> resident st b rb \<and> index b \<noteq> idx \<and> payload = gpr m (reg_index rb))"
    from h have A: "kind a = IrOpKind_Constant \<and> tagOp (func st) a = LUA_TBOOLEAN K
             \<and> tag = ucast (LUA_TBOOLEAN K)
           \<or> resident st a ra \<and> index a \<noteq> idx \<and> tag = gpr m (reg_index ra)" ..
    from h have B: "kind b = IrOpKind_Constant \<and> payload = intOp (func st) b
              \<or> resident st b rb \<and> index b \<noteq> idx \<and> payload = gpr m (reg_index rb)" ..
    show "\<exists>st' m'. lowerInst_NOT_ANY K restore dst idx st = Inr st'
             \<and> run fuel (newCode st st') (newCode st st') m = Finished m'
             \<and> gpr m' (reg_index dst) = (if falsy K tag payload then 1 else 0)"
      by (rule lower_NOT_ANY_run [OF assms(1,2,3) A B assms(5,6) f])
  next
    assume h: "(kind a = IrOpKind_Constant \<and> tagOp (func st) a = LUA_TBOOLEAN K
              \<and> tag = ucast (LUA_TBOOLEAN K)
            \<or> tag_operand st a ta \<and> tag = operand_value m ta)
           \<and> uint_operand st b vb \<and> payload = operand_value m vb \<and> target_ok K st c"
    from h have A: "kind a = IrOpKind_Constant \<and> tagOp (func st) a = LUA_TBOOLEAN K
              \<and> tag = ucast (LUA_TBOOLEAN K)
            \<or> tag_operand st a ta \<and> tag = operand_value m ta" ..
    from h have B: "uint_operand st b vb" and pv: "payload = operand_value m vb"
      and C: "target_ok K st c" by blast+
    show "\<exists>st'. lowerInst_CHECK_TRUTHY K restore idx next st = Inr st'
             \<and> run fuel (newCode st st') (newCode st st') m =
                 (if falsy K tag payload
                  then (if kind c = IrOpKind_Undef then Trapped
                        else Exited (target_label K st' c) (m\<lparr>ZF := True\<rparr>))
                  else Finished (m\<lparr>ZF := False\<rparr>))"
      by (rule lower_CHECK_TRUTHY_run [OF assms(2,3,4) A B pv C assms(5) f])
  qed
qed


theorem truthiness_lowering_witness:
  "(\<exists>st' m'. lowerInst_NOT_ANY example_constants no_restore
                \<lparr>reg_size = SizeX64_dword, reg_index = 3\<rparr> 2
                (example_lowering (example_inst (inst_op 0) (inst_op 1) (vmExit 7) no_op)) = Inr st'
      \<and> run 12 (newCode (example_lowering (example_inst (inst_op 0) (inst_op 1) (vmExit 7) no_op)) st')
               (newCode (example_lowering (example_inst (inst_op 0) (inst_op 1) (vmExit 7) no_op)) st')
               (example_machine 1 0) = Finished m'
      \<and> gpr m' 3 = 1)
   \<and> (\<exists>st'. lowerInst_CHECK_TRUTHY example_constants no_restore 2 (example_block 1 3)
                (example_lowering (example_inst (inst_op 0) (inst_op 1) (vmExit 7) no_op)) = Inr st'
      \<and> run 12 (newCode (example_lowering (example_inst (inst_op 0) (inst_op 1) (vmExit 7) no_op)) st')
               (newCode (example_lowering (example_inst (inst_op 0) (inst_op 1) (vmExit 7) no_op)) st')
               (example_machine 1 0)
          = Exited (target_label example_constants st' (vmExit 7))
              ((example_machine 1 0)\<lparr>ZF := True\<rparr>))"
proof -
  let ?i = "example_inst (inst_op 0) (inst_op 1) (vmExit 7) no_op"
  let ?st = "example_lowering ?i"
  let ?r1 = "\<lparr>reg_size = SizeX64_dword, reg_index = 1\<rparr>"
  let ?r2 = "\<lparr>reg_size = SizeX64_dword, reg_index = 2\<rparr>"
  let ?m = "example_machine 1 0"
  have i: "instructions (func ?st) ! 2 = ?i"
    by (simp add: example_lowering_def example_function_def)
  have h1: "2 < length (instructions (func ?st))"
    by (simp add: example_lowering_def example_function_def)
  have h2: "inst_op 0 = op_a (instructions (func ?st) ! 2)"
    unfolding i by (simp add: example_inst_def)
  have h3: "inst_op 1 = op_b (instructions (func ?st) ! 2)"
    unfolding i by (simp add: example_inst_def)
  have h4: "vmExit 7 = op_c (instructions (func ?st) ! 2)"
    unfolding i by (simp add: example_inst_def)
  have h5: "LUA_TNIL example_constants \<noteq> LUA_TBOOLEAN example_constants"
    by (simp add: example_constants_def)
  have h6: "0 < nextLabel (build ?st)"
    by (simp add: example_lowering_def)
  have h7: "(12::nat) \<le> 12" by simp
  have ra: "resident ?st (inst_op 0) ?r1"
    using example_resident [of 0 ?i] by simp
  have rb: "resident ?st (inst_op 1) ?r2"
    using example_resident [of 1 ?i] by (simp add: numeral_2_eq_2)
  have ia: "index (inst_op 0) \<noteq> 2" and ib: "index (inst_op 1) \<noteq> 2"
    by (simp_all add: inst_op_def)
  have ta: "tag_operand ?st (inst_op 0) (Reg ?r1)"
    using ra by (auto simp: tag_operand_def)
  have vb: "uint_operand ?st (inst_op 1) (Reg ?r2)"
    using rb by (auto simp: uint_operand_def)
  have tg: "(1 :: 32 word) = gpr ?m (reg_index ?r1)" "(1 :: 32 word) = operand_value ?m (Reg ?r1)"
    by (simp_all add: example_machine_def)
  have pv: "(0 :: 32 word) = gpr ?m (reg_index ?r2)" "(0 :: 32 word) = operand_value ?m (Reg ?r2)"
    by (simp_all add: example_machine_def)
  have ok: "target_ok example_constants ?st (vmExit 7)"
    using h6 example_exits_wf [of ?i] by (simp add: target_ok_def vmExit_def)
  have fl: "falsy example_constants 1 0"
    by (simp add: falsy_def example_constants_def)
  have ku: "kind (vmExit 7) \<noteq> IrOpKind_Undef"
    by (simp add: vmExit_def)
  note t = truthiness_lowering [OF h1 h2 h3 h4 h5 h6 h7,
      of 1 ?r1 ?m 0 ?r2 no_restore "\<lparr>reg_size = SizeX64_dword, reg_index = 3\<rparr>" "Reg ?r1" "Reg ?r2"
         "example_block 1 3"]
  from conjunct1 [OF t] ra rb ia ib tg pv fl
  have n: "\<exists>st' m'. lowerInst_NOT_ANY example_constants no_restore
                \<lparr>reg_size = SizeX64_dword, reg_index = 3\<rparr> 2 ?st = Inr st'
      \<and> run 12 (newCode ?st st') (newCode ?st st') ?m = Finished m' \<and> gpr m' 3 = 1"
    by simp
  from conjunct2 [OF t] ta vb tg pv ok fl ku
  have c: "\<exists>st'. lowerInst_CHECK_TRUTHY example_constants no_restore 2 (example_block 1 3) ?st = Inr st'
      \<and> run 12 (newCode ?st st') (newCode ?st st') ?m
          = Exited (target_label example_constants st' (vmExit 7)) (?m\<lparr>ZF := True\<rparr>)"
    by simp
  from n c show ?thesis by simp
qed

section \<open>Binary64 arithmetic\<close>



lemma pow2_pos [simp]: "0 < pow2 k"
  by (simp add: pow2_def)

lemma pow2_neq0 [simp]: "pow2 k \<noteq> 0"
  by (simp add: pow2_def)

lemma pow2_0 [simp]: "pow2 0 = 1"
  by (simp add: pow2_def)

lemma pow2_add: "pow2 (a + b) = pow2 a * pow2 b"
  by (simp add: pow2_def power_add)

lemma pow2_Suc: "pow2 (Suc k) = 2 * pow2 k"
  by (simp add: pow2_def)

lemma pow2_le [simp]: "(pow2 a \<le> pow2 b) = (a \<le> b)"
  by (simp add: pow2_def)

lemma pow2_less [simp]: "(pow2 a < pow2 b) = (a < b)"
  by (simp add: pow2_def)

lemma pow2_eq [simp]: "(pow2 a = pow2 b) = (a = b)"
  by (simp add: pow2_def)

lemma pow2_split: "a \<le> b \<Longrightarrow> pow2 b = pow2 a * pow2 (b - a)"
  using pow2_add [of a "b - a"] by simp

lemma pow2_dvd: "a \<le> b \<Longrightarrow> pow2 a dvd pow2 b"
  by (simp add: pow2_def le_imp_power_dvd)

lemma bitlen_0 [simp]: "bitlen 0 = 0"
  by (simp add: bitlen.simps)

lemma bitlen_pos: "0 < n \<Longrightarrow> bitlen n = Suc (bitlen (n div 2))"
  by (subst bitlen.simps) simp

lemma bitlen_bounds: "0 < n \<Longrightarrow> pow2 (bitlen n - 1) \<le> n \<and> n < pow2 (bitlen n)"
proof (induction n rule: bitlen.induct)
  case (1 n)
  show ?case
  proof (cases "n div 2 = 0")
    case True
    with 1(2) have "n = 1" by (simp add: div_eq_0_iff)
    then show ?thesis by (simp add: bitlen_pos pow2_Suc)
  next
    case False
    with 1 have ih: "pow2 (bitlen (n div 2) - 1) \<le> n div 2 \<and> n div 2 < pow2 (bitlen (n div 2))"
      by simp
    from False have pos: "0 < bitlen (n div 2)" by (simp add: bitlen_pos)
    then obtain b where b: "bitlen (n div 2) = Suc b" by (cases "bitlen (n div 2)") auto
    from ih b have "pow2 b \<le> n div 2" "n div 2 < 2 * pow2 b" by (simp_all add: pow2_Suc)
    then have "2 * pow2 b \<le> n" "n < 4 * pow2 b" by arith+
    with 1(2) b show ?thesis by (simp add: bitlen_pos pow2_Suc)
  qed
qed

lemma bitlen_eqI: "pow2 j \<le> n \<Longrightarrow> n < pow2 (Suc j) \<Longrightarrow> bitlen n = Suc j"
proof -
  assume a: "pow2 j \<le> n" "n < pow2 (Suc j)"
  then have pos: "0 < n" using pow2_pos [of j] by arith
  from bitlen_bounds [OF pos] have b: "pow2 (bitlen n - 1) \<le> n" "n < pow2 (bitlen n)" by simp_all
  from a(1) b(2) have "pow2 j < pow2 (bitlen n)" by arith
  then have 1: "j < bitlen n" by simp
  from b(1) a(2) have "pow2 (bitlen n - 1) < pow2 (Suc j)" by arith
  then have 2: "bitlen n - 1 < Suc j" by simp
  from 1 2 show ?thesis by arith
qed

lemma bitlen_mult_pow2: "0 < m \<Longrightarrow> bitlen (m * pow2 e) = bitlen m + e"
proof -
  assume pos: "0 < m"
  from bitlen_bounds [OF pos] have b: "pow2 (bitlen m - 1) \<le> m" "m < pow2 (bitlen m)" by simp_all
  from pos have bp: "0 < bitlen m" by (simp add: bitlen_pos)
  then obtain c where c: "bitlen m = Suc c" by (cases "bitlen m") auto
  have "pow2 (c + e) \<le> m * pow2 e" using b(1) c by (simp add: pow2_add)
  moreover have "m * pow2 e < pow2 (Suc (c + e))"
    using b(2) c pow2_add [of "Suc c" e] by simp
  ultimately have "bitlen (m * pow2 e) = Suc (c + e)" by (rule bitlen_eqI)
  with c show ?thesis by simp
qed

lemma unat_lt64: "unat (w :: 64 word) < 18446744073709551616"
  using unsigned_less [of w, where 'a = nat] by simp

lemma split3:
  fixes n a b :: nat
  shows "n = (n div (a * b)) * (a * b) + ((n div a) mod b) * a + n mod a"
proof -
  have "n div a = (n div a div b) * b + (n div a) mod b" by simp
  then have "n div a = (n div (a * b)) * b + (n div a) mod b" by (simp add: div_mult2_eq)
  then have "(n div a) * a = (n div (a * b)) * (a * b) + ((n div a) mod b) * a"
    by (metis add_mult_distrib mult.assoc mult.commute)
  moreover have "n = (n div a) * a + n mod a" by simp
  ultimately show ?thesis by linarith
qed

lemma top_bit:
  fixes n p :: nat
  assumes "n < 2 * p"
  shows "n div p = (if p \<le> n then 1 else 0)"
proof (cases "p \<le> n")
  case True
  then have "0 < p \<or> p = 0" by auto
  from assms have "n div p < 2"
    by (metis True div_eq_0_iff less_mult_imp_div_less less_nat_zero_code mult.commute mult_0_right not_le)
  moreover from True assms have "0 < n div p" by (simp add: div_greater_zero_iff)
  ultimately show ?thesis using True by simp
next
  case False
  then show ?thesis by simp
qed

lemma f64_sign_unat: "f64_sign w = (9223372036854775808 \<le> unat w)"
proof -
  have "bit w 63 = bit (unat w) 63"
    by (simp add: bit_unsigned_iff)
  also have "\<dots> = odd (unat w div 9223372036854775808)"
    by (simp add: bit_iff_odd)
  also have "\<dots> = (9223372036854775808 \<le> unat w)"
    using unat_lt64 [of w] top_bit [of "unat w" 9223372036854775808] by simp
  finally show ?thesis by (simp add: f64_sign_def)
qed

lemma f64_exp_lt: "f64_exp w < 2048"
  by (simp add: f64_exp_def)

lemma f64_frac_lt: "f64_frac w < 4503599627370496"
  by (simp add: f64_frac_def)

lemma f64_unat:
  "unat w = (if f64_sign w then 9223372036854775808 else 0) + f64_exp w * 4503599627370496 + f64_frac w"
proof -
  have "unat w div 9223372036854775808 = (if f64_sign w then 1 else 0)"
    using unat_lt64 [of w] top_bit [of "unat w" 9223372036854775808] by (simp add: f64_sign_unat)
  with split3 [of "unat w" 4503599627370496 2048] show ?thesis
    by (auto simp: f64_exp_def f64_frac_def split: if_splits)
qed

lemma pack_lt:
  fixes e f :: nat
  assumes "e < 2048" "f < 4503599627370496"
  shows "(if s then 9223372036854775808 else 0) + e * 4503599627370496 + f < 18446744073709551616"
proof -
  from assms(1) have "e * 4503599627370496 \<le> 2047 * 4503599627370496" by simp
  with assms(2) show ?thesis by (simp split: if_splits)
qed

lemma unat_pack:
  "e < 2048 \<Longrightarrow> f < 4503599627370496 \<Longrightarrow>
     unat (f64_pack s e f) = (if s then 9223372036854775808 else 0) + e * 4503599627370496 + f"
  unfolding f64_pack_def unat_of_nat using pack_lt [of e f s] by simp

lemma f64_sign_pack: "e < 2048 \<Longrightarrow> f < 4503599627370496 \<Longrightarrow> f64_sign (f64_pack s e f) = s"
proof -
  assume a: "e < 2048" "f < 4503599627370496"
  then have "e * 4503599627370496 \<le> 2047 * 4503599627370496" by simp
  with a show ?thesis by (simp add: f64_sign_unat unat_pack)
qed

lemma divmod_add:
  fixes f k a :: nat
  assumes "f < a"
  shows "(k * a + f) div a = k" and "(k * a + f) mod a = f"
  using assms by simp_all

lemma f64_exp_pack: "e < 2048 \<Longrightarrow> f < 4503599627370496 \<Longrightarrow> f64_exp (f64_pack s e f) = e"
proof -
  assume a: "e < 2048" "f < 4503599627370496"
  have "(if s then 9223372036854775808 else 0) + e * 4503599627370496 + f
          = ((if s then 2048 else 0) + e) * 4503599627370496 + f"
    by simp
  then have "unat (f64_pack s e f) div 4503599627370496 = (if s then 2048 else 0) + e"
    using a divmod_add(1) [of f 4503599627370496 "(if s then 2048 else 0) + e"]
    by (simp only: unat_pack [OF a])
  then show ?thesis using a by (simp add: f64_exp_def)
qed

lemma f64_frac_pack: "e < 2048 \<Longrightarrow> f < 4503599627370496 \<Longrightarrow> f64_frac (f64_pack s e f) = f"
proof -
  assume a: "e < 2048" "f < 4503599627370496"
  have "(if s then 9223372036854775808 else 0) + e * 4503599627370496 + f
          = ((if s then 2048 else 0) + e) * 4503599627370496 + f"
    by simp
  then have "unat (f64_pack s e f) mod 4503599627370496 = f"
    using a divmod_add(2) [of f 4503599627370496 "(if s then 2048 else 0) + e"]
    by (simp only: unat_pack [OF a])
  then show ?thesis by (simp add: f64_frac_def)
qed

lemma f64_pack_fields: "f64_pack (f64_sign w) (f64_exp w) (f64_frac w) = w"
proof -
  have e: "(if f64_sign w then 2 ^ 63 else 0) + f64_exp w * 2 ^ 52 + f64_frac w = unat w"
    using f64_unat [of w] by simp
  show ?thesis unfolding f64_pack_def e by simp
qed

lemma pow2_52: "pow2 52 = 4503599627370496"
  by (simp add: pow2_def)

lemma pow2_53: "pow2 53 = 9007199254740992"
  by (simp add: pow2_def)

lemma bitlen_53: "4503599627370496 \<le> M \<Longrightarrow> M < 9007199254740992 \<Longrightarrow> bitlen M = 53"
  using bitlen_eqI [of 52 M] by (simp add: pow2_52 pow2_53)

lemma bitlen_normal:
  "4503599627370496 \<le> M \<Longrightarrow> M < 9007199254740992 \<Longrightarrow> bitlen (M * pow2 e) = 53 + e"
  by (simp add: bitlen_mult_pow2 bitlen_53)

lemma of_mag_sub: "n < 4503599627370496 \<Longrightarrow> f64_of_mag s n = f64_pack s 0 n"
  by (simp add: f64_of_mag_def)

lemma of_mag_normal:
  assumes "4503599627370496 \<le> M" "M < 9007199254740992" "e < 2046"
  shows "f64_of_mag s (M * pow2 e) = f64_pack s (Suc e) (M - 4503599627370496)"
proof -
  have "4503599627370496 * 1 \<le> M * pow2 e"
    using assms(1) pow2_pos [of e] by (intro mult_le_mono) (simp_all add: Suc_leI)
  then have 1: "\<not> M * pow2 e < 4503599627370496" by simp
  show ?thesis
    using 1 assms(3) by (simp add: f64_of_mag_def bitlen_normal [OF assms(1,2)])
qed

lemma mag_pack_normal:
  assumes "e < 2047" "f < 4503599627370496"
  shows "f64_mag (f64_pack s (Suc e) f) = (4503599627370496 + f) * pow2 e"
    and "f64_exp (f64_pack s (Suc e) f) = Suc e"
    and "f64_sign (f64_pack s (Suc e) f) = s"
  using assms by (simp_all add: f64_mag_def f64_exp_pack f64_frac_pack f64_sign_pack)

lemma mag_pack_sub:
  assumes "f < 4503599627370496"
  shows "f64_mag (f64_pack s 0 f) = f"
    and "f64_exp (f64_pack s 0 f) = 0"
    and "f64_sign (f64_pack s 0 f) = s"
  using assms by (simp_all add: f64_mag_def f64_exp_pack f64_frac_pack f64_sign_pack)

lemma of_mag_normal_fields:
  assumes "4503599627370496 \<le> M" "M < 9007199254740992" "e < 2046"
  shows "f64_mag (f64_of_mag s (M * pow2 e)) = M * pow2 e"
    and "f64_exp (f64_of_mag s (M * pow2 e)) = Suc e"
    and "f64_sign (f64_of_mag s (M * pow2 e)) = s"
proof -
  have f: "M - 4503599627370496 < 4503599627370496" using assms by arith
  have e: "e < 2047" using assms by simp
  show "f64_mag (f64_of_mag s (M * pow2 e)) = M * pow2 e"
    using assms(1) by (simp add: of_mag_normal [OF assms] mag_pack_normal(1) [OF e f])
  show "f64_exp (f64_of_mag s (M * pow2 e)) = Suc e"
    by (simp add: of_mag_normal [OF assms] mag_pack_normal(2) [OF e f])
  show "f64_sign (f64_of_mag s (M * pow2 e)) = s"
    by (simp add: of_mag_normal [OF assms] mag_pack_normal(3) [OF e f])
qed

lemma finite_mag:
  assumes "f64_exp w < 2047"
  shows "\<exists>m j. f64_mag w = m * pow2 j \<and> m < 9007199254740992 \<and> j < 2046
           \<and> (j = 0 \<or> 4503599627370496 \<le> m)"
proof (cases "f64_exp w = 0")
  case True
  then show ?thesis
    using f64_frac_lt [of w]
    by (intro exI [of _ "f64_frac w"] exI [of _ 0]) (simp add: f64_mag_def)
next
  case False
  then show ?thesis
    using f64_frac_lt [of w] assms
    by (intro exI [of _ "4503599627370496 + f64_frac w"] exI [of _ "f64_exp w - 1"])
       (simp add: f64_mag_def)
qed

lemma of_mag_mag:
  assumes "f64_exp w < 2047"
  shows "f64_of_mag (f64_sign w) (f64_mag w) = w"
proof (cases "f64_exp w = 0")
  case True
  then have "f64_of_mag (f64_sign w) (f64_mag w) = f64_pack (f64_sign w) (f64_exp w) (f64_frac w)"
    using f64_frac_lt [of w] by (simp add: f64_mag_def of_mag_sub)
  then show ?thesis by (simp add: f64_pack_fields)
next
  case False
  then obtain e where e: "f64_exp w = Suc e" by (cases "f64_exp w") auto
  with assms have e2: "e < 2046" by simp
  have "f64_of_mag (f64_sign w) (f64_mag w) = f64_pack (f64_sign w) (f64_exp w) (f64_frac w)"
    using f64_frac_lt [of w] of_mag_normal [of "4503599627370496 + f64_frac w" e "f64_sign w"] e e2
    by (simp add: f64_mag_def)
  then show ?thesis by (simp add: f64_pack_fields)
qed

lemma rne_eqI:
  assumes "bitlen (n div d) - 53 = k" "n = q * (d * pow2 k) + r" "r < d * pow2 k"
  shows "rne n d =
           (if d * pow2 k < 2 * r \<or> (2 * r = d * pow2 k \<and> odd q) then q + 1 else q) * pow2 k"
proof -
  have g: "0 < d * pow2 k" using assms(3) by (cases "d * pow2 k") simp_all
  have "n div (d * pow2 k) = q" "n mod (d * pow2 k) = r"
    unfolding assms(2) using assms(3) g by simp_all
  then show ?thesis
    unfolding rne_def Let_def assms(1) by simp
qed

lemma rne1_eqI:
  assumes "bitlen S = 53 + k" "S = q * pow2 k + r" "r < pow2 k"
  shows "rne S 1 = (if pow2 k < 2 * r \<or> (2 * r = pow2 k \<and> odd q) then q + 1 else q) * pow2 k"
  using rne_eqI [of S 1 k q r] assms by simp

lemma rne_down:
  assumes "bitlen S = 53 + k" "S = w * pow2 k + \<epsilon>" "2 * \<epsilon> < pow2 k"
  shows "rne S 1 = w * pow2 k"
  using rne1_eqI [OF assms(1,2)] assms(3) by simp

lemma rne_up:
  assumes "bitlen S = 53 + k" "S + \<epsilon> = W * pow2 k" "0 < \<epsilon>" "2 * \<epsilon> < pow2 k"
  shows "rne S 1 = W * pow2 k"
proof -
  from assms(2,3) have "0 < W" by (cases W) auto
  then obtain q where W: "W = Suc q" by (cases W) auto
  have S: "S = q * pow2 k + (pow2 k - \<epsilon>)"
    using assms(2,4) W by simp
  have r: "pow2 k - \<epsilon> < pow2 k" using assms(3) pow2_pos [of k] by arith
  have up: "pow2 k < 2 * (pow2 k - \<epsilon>)" using assms(4) by arith
  show ?thesis using rne1_eqI [OF assms(1) S r] up W by simp
qed

lemma rne_up_tie:
  assumes "bitlen S = 53 + k" "S + \<epsilon> = W * pow2 k" "2 * \<epsilon> = pow2 k" "even W"
  shows "rne S 1 = W * pow2 k"
proof -
  have e: "0 < \<epsilon>" using assms(3) pow2_pos [of k] by arith
  with assms(2) have "0 < W" by (cases W) auto
  then obtain q where W: "W = Suc q" by (cases W) auto
  have S: "S = q * pow2 k + (pow2 k - \<epsilon>)"
    using assms(2,3) W by simp
  have r: "pow2 k - \<epsilon> < pow2 k" using e pow2_pos [of k] by arith
  have tie: "2 * (pow2 k - \<epsilon>) = pow2 k" using assms(3) by arith
  have "odd q" using assms(4) W by simp
  then show ?thesis using rne1_eqI [OF assms(1) S r] tie W by simp
qed

lemma near_aux:
  fixes q r g :: nat
  shows "2 * ((if g < 2 * r \<or> (2 * r = g \<and> odd q) then q + 1 else q) * g) \<le> 2 * (q * g + r) + g"
  by (auto simp: algebra_simps)

lemma rne_near:
  assumes "bitlen S = 53 + k"
  shows "2 * rne S 1 \<le> 2 * S + pow2 k"
proof -
  obtain q r where S: "S = q * pow2 k + r" and r: "r < pow2 k"
    using mod_less_divisor [OF pow2_pos, of S k] div_mult_mod_eq [of S "pow2 k"]
    by (metis)
  have "2 * rne S 1 \<le> 2 * (q * pow2 k + r) + pow2 k"
    unfolding rne1_eqI [OF assms S r] by (rule near_aux)
  then show ?thesis using S by simp
qed

lemma bitlen_ge: "pow2 j \<le> n \<Longrightarrow> j < bitlen n"
proof -
  assume a: "pow2 j \<le> n"
  then have "0 < n" using pow2_pos [of j] by arith
  from bitlen_bounds [OF this] a have "pow2 j < pow2 (bitlen n)" by arith
  then show ?thesis by simp
qed

lemma bitlen_le: "n < pow2 j \<Longrightarrow> bitlen n \<le> j"
proof (cases "n = 0")
  case True
  then show ?thesis by simp
next
  case False
  assume a: "n < pow2 j"
  from False have "0 < n" by simp
  from bitlen_bounds [OF this] a have "pow2 (bitlen n - 1) < pow2 j" by arith
  then show ?thesis by simp
qed

lemma rne_normal:
  assumes "bitlen S = 53 + k"
  shows "\<exists>M e. rne S 1 = M * pow2 e \<and> 4503599627370496 \<le> M \<and> M < 9007199254740992
           \<and> (e = k \<or> e = Suc k)"
proof -
  obtain q r where S: "S = q * pow2 k + r" and r: "r < pow2 k"
    using mod_less_divisor [OF pow2_pos, of S k] div_mult_mod_eq [of S "pow2 k"]
    by (metis)
  have pos: "0 < S" using assms by (cases "S = 0") simp_all
  from bitlen_bounds [OF pos] assms
  have lo: "pow2 (52 + k) \<le> S" and hi: "S < pow2 (53 + k)" by simp_all
  have "q * pow2 k \<le> S" using S by simp
  also have "S < 9007199254740992 * pow2 k"
    using hi by (simp add: pow2_add pow2_53)
  finally have q1: "q < 9007199254740992" by simp
  have "4503599627370496 * pow2 k \<le> S"
    using lo by (simp add: pow2_add pow2_52)
  also have "S < q * pow2 k + pow2 k" using S r by simp
  also have "\<dots> = (q + 1) * pow2 k" by simp
  finally have q0: "4503599627370496 \<le> q" by simp
  have R: "rne S 1 = (if pow2 k < 2 * r \<or> (2 * r = pow2 k \<and> odd q) then q + 1 else q) * pow2 k"
    by (rule rne1_eqI [OF assms S r])
  show ?thesis
  proof (cases "pow2 k < 2 * r \<or> (2 * r = pow2 k \<and> odd q)")
    case False
    with R q0 q1 show ?thesis by (intro exI [of _ q] exI [of _ k]) simp
  next
    case True
    show ?thesis
    proof (cases "q + 1 < 9007199254740992")
      case True
      with \<open>pow2 k < 2 * r \<or> (2 * r = pow2 k \<and> odd q)\<close> R q0
      show ?thesis by (intro exI [of _ "q + 1"] exI [of _ k]) simp
    next
      case False
      with q1 have "q + 1 = 9007199254740992" by arith
      with \<open>pow2 k < 2 * r \<or> (2 * r = pow2 k \<and> odd q)\<close> R
      have "rne S 1 = 4503599627370496 * pow2 (Suc k)" by (simp add: pow2_Suc)
      then show ?thesis by (intro exI [of _ 4503599627370496] exI [of _ "Suc k"]) simp
    qed
  qed
qed

lemma pow2_1073: "pow2 1073 = 9007199254740992 * pow2 1020"
  using pow2_add [of 53 1020] by (simp add: pow2_53)

lemma pow2_1074: "pow2 1074 = 2 * pow2 1073"
  using pow2_Suc [of 1073] by simp

lemma int_down_small: "n < pow2 1074 \<Longrightarrow> int_down n = 0"
  by (simp add: int_down_def)

lemma half_consts:
  "9007199254740991 * pow2 1020 + pow2 1020 = pow2 1073"
  "pow2 1074 = 2 * pow2 1073"
  "pow2 1072 \<le> 9007199254740991 * pow2 1020"
  by (simp_all add: pow2_1073 pow2_1074 pow2_add [of 52 1020, simplified] pow2_52)

lemma round_core_small:
  assumes m: "m < 9007199254740992" and j: "j \<le> 1020"
  shows "\<exists>M e. rne (m * pow2 j + 9007199254740991 * pow2 1020) 1 = M * pow2 e
            \<and> 4503599627370496 \<le> M \<and> M < 9007199254740992 \<and> e < 2046
            \<and> int_down (M * pow2 e) = int_down (m * pow2 j + pow2 1073)"
proof -
  define D where "D = pow2 1020"
  define C where "C = 9007199254740991 * pow2 1020"
  define H where "H = pow2 1073"
  define A where "A = m * pow2 j"
  define S where "S = A + C"
  have Dpos: "0 < D" by (simp add: D_def)
  have CD: "C + D = H" unfolding C_def D_def H_def by (rule half_consts)
  have U: "pow2 1074 = 2 * H" unfolding H_def by (rule half_consts)
  have "m * pow2 j \<le> 9007199254740991 * pow2 1020"
    using m j by (intro mult_le_mono) simp_all
  then have A: "A \<le> C" by (simp add: A_def C_def)
  have lo: "pow2 1072 \<le> S" using half_consts(3) by (simp add: S_def C_def)
  have hi: "S < pow2 1074"
    unfolding U S_def using A Dpos CD by linarith
  have "1072 < bitlen S" by (rule bitlen_ge [OF lo])
  moreover have "bitlen S \<le> 1074" by (rule bitlen_le [OF hi])
  ultimately have "bitlen S = 53 + (bitlen S - 53) \<and> bitlen S - 53 \<le> 1021" by linarith
  then obtain k where k: "bitlen S = 53 + k" and k1: "k \<le> 1021" by blast
  from rne_normal [OF k] obtain M e where
    R: "rne S 1 = M * pow2 e" and M: "4503599627370496 \<le> M" "M < 9007199254740992"
    and e: "e = k \<or> e = Suc k"
    by blast
  have p1: "pow2 1021 = 2 * D" using pow2_Suc [of 1020] by (simp add: D_def)
  have pk: "pow2 k \<le> 2 * D" unfolding p1 [symmetric] using k1 by simp
  from rne_near [OF k] have "2 * rne S 1 \<le> 2 * S + pow2 k" .
  with A pk Dpos CD have "2 * rne S 1 < 2 * pow2 1074"
    unfolding U S_def by simp
  then have small: "M * pow2 e < pow2 1074" using R by simp
  have "A + pow2 1073 < pow2 1074"
    unfolding U using A Dpos CD by (simp add: H_def [symmetric])
  then have "int_down (M * pow2 e) = int_down (A + pow2 1073)"
    using small by (simp add: int_down_small)
  moreover have "e < 2046" using e k1 by auto
  ultimately show ?thesis using R M unfolding S_def A_def C_def by blast
qed

lemma int_down_mult: "int_down (n * pow2 1074) = n * pow2 1074"
  by (simp add: int_down_def)

lemma int_down_mult_add: "r < pow2 1074 \<Longrightarrow> int_down (n * pow2 1074 + r) = n * pow2 1074"
  by (simp add: int_down_def)

lemma round_core_large:
  assumes m: "4503599627370496 \<le> m" "m < 9007199254740992" and j: "1074 \<le> j"
  shows "rne (m * pow2 j + 9007199254740991 * pow2 1020) 1 = m * pow2 j"
    and "int_down (m * pow2 j) = int_down (m * pow2 j + pow2 1073)"
proof -
  define D where "D = pow2 1020"
  define C where "C = 9007199254740991 * pow2 1020"
  define H where "H = pow2 1073"
  define u where "u = pow2 j"
  define S where "S = m * u + C"
  have Dpos: "0 < D" by (simp add: D_def)
  have CD: "C + D = H" unfolding C_def D_def H_def by (rule half_consts)
  have U: "pow2 1074 = 2 * H" unfolding H_def by (rule half_consts)
  have uU: "u = pow2 (j - 1074) * pow2 1074"
    unfolding u_def using pow2_split [OF j] by (simp add: mult.commute)
  have "1 * pow2 1074 \<le> pow2 (j - 1074) * pow2 1074"
    by (intro mult_le_mono) (simp_all add: Suc_leI)
  then have Uu: "pow2 1074 \<le> u" using uU by simp
  have C2: "2 * C < u" using CD Dpos Uu U by linarith
  have lo: "pow2 (52 + j) \<le> S"
  proof -
    have "pow2 (52 + j) = 4503599627370496 * u" by (simp add: pow2_add pow2_52 u_def)
    also have "\<dots> \<le> m * u" using m(1) by (intro mult_le_mono) simp_all
    also have "\<dots> \<le> S" by (simp add: S_def)
    finally show ?thesis .
  qed
  have hi: "S < pow2 (Suc (52 + j))"
  proof -
    have "S < m * u + u" using C2 by (simp add: S_def)
    also have "\<dots> = (m + 1) * u" by simp
    also have "\<dots> \<le> 9007199254740992 * u" using m(2) by (intro mult_le_mono) simp_all
    also have "\<dots> = pow2 (Suc (52 + j))"
      using pow2_add [of 53 j] by (simp add: pow2_53 u_def)
    finally show ?thesis .
  qed
  have bl: "bitlen S = 53 + j" using bitlen_eqI [OF lo hi] by simp
  have "rne S 1 = m * pow2 j"
    by (rule rne_down [OF bl, of m C]) (simp_all add: S_def u_def C2 [unfolded u_def])
  then show "rne (m * pow2 j + 9007199254740991 * pow2 1020) 1 = m * pow2 j"
    by (simp add: S_def u_def C_def)
  have mu: "m * pow2 j = (m * pow2 (j - 1074)) * pow2 1074"
    using uU by (simp add: u_def mult.assoc)
  have "pow2 1073 < pow2 1074" by simp
  then show "int_down (m * pow2 j) = int_down (m * pow2 j + pow2 1073)"
    unfolding mu by (simp only: int_down_mult int_down_mult_add)
qed

lemma odd_half_div:
  fixes w t :: nat
  shows "(2 * w + 1) div (2 * t) = w div t"
proof -
  have "(2 * w + 1) div (2 * t) = (2 * w + 1) div 2 div t" by (simp add: div_mult2_eq)
  then show ?thesis by simp
qed

lemma round_core_mid:
  assumes m: "4503599627370496 \<le> m" "m < 9007199254740992" and j: "1021 \<le> j" "j \<le> 1073"
  shows "\<exists>M e. rne (m * pow2 j + 9007199254740991 * pow2 1020) 1 = M * pow2 e
            \<and> 4503599627370496 \<le> M \<and> M < 9007199254740992 \<and> e < 2046
            \<and> int_down (M * pow2 e) = int_down (m * pow2 j + pow2 1073)"
proof -
  define D where "D = pow2 1020"
  define C where "C = 9007199254740991 * pow2 1020"
  define H where "H = pow2 1073"
  define u where "u = pow2 j"
  define t where "t = pow2 (1073 - j)"
  define W where "W = m + t"
  define S where "S = m * u + C"
  have Dpos: "0 < D" by (simp add: D_def)
  have upos: "0 < u" by (simp add: u_def)
  have CD: "C + D = H" unfolding C_def D_def H_def by (rule half_consts)
  have U: "pow2 1074 = 2 * H" unfolding H_def by (rule half_consts)
  have Htu: "H = t * u"
    unfolding H_def t_def u_def using pow2_add [of "1073 - j" j] j by simp
  have SD: "S + D = W * u"
    using CD Htu by (simp add: S_def W_def add_mult_distrib)
  have p1: "pow2 1021 = 2 * D" using pow2_Suc [of 1020] by (simp add: D_def)
  have D2: "2 * D \<le> u" unfolding p1 [symmetric] u_def using j by simp
  have t52: "t \<le> 4503599627370496"
    unfolding t_def pow2_52 [symmetric] using j by simp
  have tpos: "0 < t" by (simp add: t_def)
  have u2: "pow2 (Suc j) = 2 * u" by (simp add: pow2_Suc u_def)
  have goal_eq: "m * pow2 j + pow2 1073 = W * u"
    unfolding H_def [symmetric] u_def [symmetric] Htu W_def by (simp add: add_mult_distrib)
  have S_eq: "m * pow2 j + 9007199254740991 * pow2 1020 = S"
    by (simp add: S_def u_def C_def)
  have Wlo: "4503599627370496 \<le> W" using m by (simp add: W_def)
  have Whi: "W < 9007199254740992 + 4503599627370496" using m t52 by (simp add: W_def)
  have mu_le: "4503599627370496 * u \<le> S"
  proof -
    have "4503599627370496 * u \<le> m * u" using m(1) by (intro mult_le_mono) simp_all
    also have "\<dots> \<le> S" by (simp add: S_def)
    finally show ?thesis .
  qed
  have S_lt: "S < W * u" using SD Dpos by linarith
  show ?thesis
  proof (cases "W \<le> 9007199254740992")
    case True
    have lo: "pow2 (52 + j) \<le> S"
      using mu_le by (simp add: pow2_add pow2_52 u_def)
    have "W * u \<le> 9007199254740992 * u" using True by (intro mult_le_mono) simp_all
    with S_lt have "S < 9007199254740992 * u" by linarith
    then have hi: "S < pow2 (Suc (52 + j))"
      using pow2_add [of 53 j] by (simp add: pow2_53 u_def)
    have bl: "bitlen S = 53 + j" using bitlen_eqI [OF lo hi] by simp
    have R: "rne S 1 = W * pow2 j"
    proof (cases "j = 1021")
      case j1: True
      then have "t = 4503599627370496" by (simp add: t_def pow2_52)
      with True m have "W = 9007199254740992" by (simp add: W_def)
      then have ev: "even W" by simp
      have tie: "2 * D = pow2 j" using p1 j1 by simp
      show ?thesis
        by (rule rne_up_tie [OF bl _ tie ev]) (simp add: SD u_def [symmetric])
    next
      case False
      with j have "1021 < j" by simp
      then have "pow2 1021 < pow2 j" by simp
      then have lt: "2 * D < pow2 j" unfolding p1 .
      show ?thesis
        by (rule rne_up [OF bl _ Dpos lt]) (simp add: SD u_def [symmetric])
    qed
    have dn: "int_down (W * pow2 j) = int_down (m * pow2 j + pow2 1073)"
      by (simp add: goal_eq u_def)
    show ?thesis
    proof (cases "W < 9007199254740992")
      case True
      moreover have "j < 2046" using j by simp
      ultimately show ?thesis using R dn Wlo unfolding S_eq by blast
    next
      case False
      with \<open>W \<le> 9007199254740992\<close> have W53: "W = 9007199254740992" by simp
      have Wu: "W * pow2 j = 4503599627370496 * pow2 (Suc j)" by (simp add: W53 pow2_Suc)
      have "rne S 1 = 4503599627370496 * pow2 (Suc j)" using R Wu by simp
      moreover have "int_down (4503599627370496 * pow2 (Suc j)) = int_down (m * pow2 j + pow2 1073)"
        using dn Wu by simp
      moreover have "Suc j < 2046" using j by simp
      ultimately show ?thesis unfolding S_eq
        by (intro exI [of _ 4503599627370496] exI [of _ "Suc j"]) simp
    qed
  next
    case False
    then have Wgt: "9007199254740992 < W" by simp
    have "9007199254740993 * u \<le> W * u" using Wgt by (intro mult_le_mono) simp_all
    with SD D2 have "9007199254740992 * u \<le> S" by linarith
    then have lo: "pow2 (52 + Suc j) \<le> S"
      using pow2_add [of 53 j] by (simp add: pow2_53 u_def)
    have "W * u \<le> 18014398509481984 * u" using Whi by (intro mult_le_mono) simp_all
    with S_lt have "S < 18014398509481984 * u" by linarith
    moreover have "pow2 (Suc (52 + Suc j)) = 18014398509481984 * u"
      using pow2_add [of 53 j] pow2_Suc [of "53 + j"] by (simp add: pow2_53 u_def)
    ultimately have hi: "S < pow2 (Suc (52 + Suc j))" by simp
    have bl: "bitlen S = 53 + Suc j" using bitlen_eqI [OF lo hi] by simp
    show ?thesis
    proof (cases "even W")
      case True
      then obtain w where w: "W = 2 * w" by (auto elim: evenE)
      have Wu: "W * u = w * pow2 (Suc j)" by (simp add: w u2)
      have lt: "2 * D < pow2 (Suc j)" using D2 upos unfolding u2 by linarith
      have R: "rne S 1 = w * pow2 (Suc j)"
        by (rule rne_up [OF bl _ Dpos lt]) (simp add: SD Wu)
      moreover have "int_down (w * pow2 (Suc j)) = int_down (m * pow2 j + pow2 1073)"
        by (simp only: goal_eq Wu)
      moreover have "Suc j < 2046" using j by simp
      moreover have "4503599627370496 \<le> w" "w < 9007199254740992"
        using Wgt Whi w by simp_all
      ultimately show ?thesis unfolding S_eq by blast
    next
      case False
      then obtain w where w: "W = 2 * w + 1" by (auto elim: oddE)
      have "S + D = w * pow2 (Suc j) + u" using SD by (simp add: w u2)
      then have Sw: "S = w * pow2 (Suc j) + (u - D)" using D2 by linarith
      have lt: "2 * (u - D) < pow2 (Suc j)" using Dpos D2 unfolding u2 by linarith
      have R: "rne S 1 = w * pow2 (Suc j)"
        by (rule rne_down [OF bl Sw lt])
      have U2: "pow2 1074 = t * pow2 (Suc j)" unfolding U Htu u2 by simp
      have d1: "(w * pow2 (Suc j)) div pow2 1074 = w div t"
        unfolding U2 by simp
      have U3: "pow2 1074 = (2 * t) * u" unfolding U Htu by simp
      have "((2 * w + 1) * u) div ((2 * t) * u) = (2 * w + 1) div (2 * t)"
        using upos by (rule div_mult_mult2 [OF less_imp_neq [THEN not_sym]])
      then have d2: "(W * u) div pow2 1074 = w div t"
        unfolding U3 w by (simp only: odd_half_div)
      have "int_down (w * pow2 (Suc j)) = int_down (m * pow2 j + pow2 1073)"
        unfolding goal_eq int_down_def d1 d2 ..
      moreover have "Suc j < 2046" using j by simp
      moreover have "4503599627370496 \<le> w" "w < 9007199254740992"
        using Wgt Whi w by simp_all
      ultimately show ?thesis using R unfolding S_eq by blast
    qed
  qed
qed

lemma round_core:
  assumes "m < 9007199254740992" "j < 2046" "j = 0 \<or> 4503599627370496 \<le> m"
  shows "\<exists>M e. rne (m * pow2 j + 9007199254740991 * pow2 1020) 1 = M * pow2 e
            \<and> 4503599627370496 \<le> M \<and> M < 9007199254740992 \<and> e < 2046
            \<and> int_down (M * pow2 e) = int_down (m * pow2 j + pow2 1073)"
proof -
  consider "j \<le> 1020" | "1021 \<le> j" "j \<le> 1073" | "1074 \<le> j" by linarith
  then show ?thesis
  proof cases
    case 1
    then show ?thesis by (rule round_core_small [OF assms(1)])
  next
    case 2
    with assms(3) have "4503599627370496 \<le> m" by auto
    then show ?thesis using assms(1) 2 by (rule round_core_mid)
  next
    case 3
    with assms(3) have m: "4503599627370496 \<le> m" by auto
    from round_core_large [OF m assms(1) 3] assms(2) m assms(1)
    show ?thesis by (intro exI [of _ m] exI [of _ j]) simp
  qed
qed

lemma and_exp: "(x :: 64 word) AND 2 ^ n = (if bit x n then 2 ^ n else 0)"
  by (rule bit_word_eqI) (auto simp: bit_simps)

lemma sign_mask: "(x :: 64 word) AND 0x8000000000000000 = (if f64_sign x then 0x8000000000000000 else 0)"
  using and_exp [of x 63] by (simp add: f64_sign_def)

lemma copysign_half:
  "f64_copysign 0x3FDFFFFFFFFFFFFF x = f64_pack (f64_sign x) 1021 4503599627370495"
  by (simp add: f64_copysign_def sign_mask f64_pack_def)

lemma copysign_code:
  "(x AND 0x8000000000000000) OR 0x3fdfffffffffffff = f64_copysign 0x3FDFFFFFFFFFFFFF x"
  by (simp add: f64_copysign_def or.commute)

lemma copysign_half_fields:
  "f64_sign (f64_copysign 0x3FDFFFFFFFFFFFFF x) = f64_sign x"
  "f64_exp (f64_copysign 0x3FDFFFFFFFFFFFFF x) = 1021"
  "f64_mag (f64_copysign 0x3FDFFFFFFFFFFFFF x) = 9007199254740991 * pow2 1020"
  unfolding copysign_half
  by (simp_all add: f64_sign_pack f64_exp_pack f64_frac_pack f64_mag_def)

lemma f64_add_same_sign:
  assumes "f64_exp x < 2047" "f64_exp y < 2047" "f64_sign y = f64_sign x" "0 < f64_mag y"
  shows "f64_add x y = f64_of_mag (f64_sign x) (rne (f64_mag x + f64_mag y) 1)"
proof -
  have n: "nat (int (f64_mag x) + int (f64_mag y)) = f64_mag x + f64_mag y"
          "nat (int (f64_mag y) + int (f64_mag x)) = f64_mag x + f64_mag y"
    by (simp_all add: nat_add_distrib)
  show ?thesis
    using assms by (simp add: f64_add_def f64_is_nan_def f64_is_inf_def Let_def n)
qed

lemma f64_round_normal:
  assumes "4503599627370496 \<le> M" "M < 9007199254740992" "e < 2046"
  shows "f64_round RoundingModeX64_RoundToZero (f64_of_mag s (M * pow2 e))
           = f64_of_mag s (int_down (M * pow2 e))"
  using assms(3)
  by (simp add: f64_round_def f64_is_nan_def f64_is_inf_def of_mag_normal_fields [OF assms])

lemma round_formula_finite:
  assumes "f64_exp x < 2047"
  shows "round_formula x = round_half_away x"
proof -
  let ?y = "f64_copysign 0x3FDFFFFFFFFFFFFF x"
  from finite_mag [OF assms] obtain m j where
    A: "f64_mag x = m * pow2 j" and mj: "m < 9007199254740992" "j < 2046"
       "j = 0 \<or> 4503599627370496 \<le> m"
    by blast
  have add: "f64_add x ?y = f64_of_mag (f64_sign x) (rne (m * pow2 j + 9007199254740991 * pow2 1020) 1)"
    using f64_add_same_sign [of x ?y] assms by (simp add: copysign_half_fields A)
  from round_core [OF mj] obtain M e where
    R: "rne (m * pow2 j + 9007199254740991 * pow2 1020) 1 = M * pow2 e"
    and Me: "4503599627370496 \<le> M" "M < 9007199254740992" "e < 2046"
    and dn: "int_down (M * pow2 e) = int_down (m * pow2 j + pow2 1073)"
    by blast
  have "round_formula x = f64_of_mag (f64_sign x) (int_down (M * pow2 e))"
    unfolding round_formula_def add R by (rule f64_round_normal [OF Me])
  also have "\<dots> = f64_of_mag (f64_sign x) (int_down (m * pow2 j + pow2 1073))"
    by (simp only: dn)
  also have "\<dots> = round_half_away x"
    by (simp add: round_half_away_def int_down_def A)
  finally show ?thesis .
qed














section \<open>Floating modulo\<close>





lemma doubleOp_set_regX64 [simp]: "doubleOp (func (set_regX64 idx d st)) = doubleOp (func st)"
  by (simp add: set_regX64_def)


lemma double_operand_build [simp]:
  "double_operand (st\<lparr>build := b\<rparr>) a opd = double_operand st a opd"
  by (simp add: double_operand_def)



lemma read64_Mem_xmm [simp]: "read64 (m\<lparr>xmm := X\<rparr>) (Mem a) = read64 m (Mem a)"
  by (cases a) simp_all












end
